(* ===== verification/Prelude.thy ===== *)
theory Prelude
  imports Main "HOL-Library.Word" "HOL-Library.Multiset"
begin

text \<open>
  Shared vocabulary of the development: the machine types of the decompiler core
  (64-bit addresses and literals, numeric identifiers of the ID-addressed stores),
  the error type of its fatal conditions, and the generic list and option lemmas the
  component theories use.  The collection \<open>store_simps\<close> gathers the equations of
  the store operations, so that component proofs can say \<open>simp add: store_simps\<close>.
\<close>

type_synonym addr = "64 word"
type_synonym hid = nat

named_theorems store_simps "equations of the ID-addressed stores"

text \<open>
  The two tiers of section 7 of the specification: a fatal condition aborts the
  lowering of the current function; in the C++ code each is an \<open>assert (false)\<close>
  or a null dereference; \<open>NullInstr\<close> is a read through the member
  \<open>SSAGen::instruction\<close> while it is \<open>nullptr\<close>.
\<close>

datatype fatal =
    NoMatch
  | NoRecMatch
  | UnresolvedArg
  | UnknownTmp
  | UnknownBlock hid
  | UnknownExpr hid
  | UnknownRegister hid
  | UnknownStack hid
  | RegBackedStack
  | NotConstWidth
  | NotMemory
  | AssertFail
  | NullInstr

type_synonym 'a result = "fatal + 'a"

subsection \<open>Lists searched by a key\<close>

text \<open>
  The C++ stores are vectors scanned front to back (\<open>for (SSABB& bb : bbs)\<close>);
  the first element satisfying the test wins.  \<open>find_index\<close> returns its position.
\<close>

fun find_index :: "('a \<Rightarrow> bool) \<Rightarrow> 'a list \<Rightarrow> nat option" where
  "find_index P [] = None"
| "find_index P (x # xs) = (if P x then Some 0 else map_option Suc (find_index P xs))"

lemma find_index_Some:
  "find_index P xs = Some i \<Longrightarrow> i < length xs \<and> P (xs ! i) \<and> (\<forall>j<i. \<not> P (xs ! j))"
proof (induction xs arbitrary: i)
  case Nil
  then show ?case by simp
next
  case (Cons x xs)
  then show ?case
    by (auto split: if_splits simp: nth_Cons' less_Suc_eq_0_disj)
qed

lemma find_index_None: "find_index P xs = None \<longleftrightarrow> (\<forall>x\<in>set xs. \<not> P x)"
  by (induction xs) auto

lemma find_index_find: "List.find P xs = map_option (\<lambda>i. xs ! i) (find_index P xs)"
  by (induction xs) (auto simp: option.map_comp comp_def)

lemma find_distinct_key:
  "distinct (map f xs) \<Longrightarrow> x \<in> set xs \<Longrightarrow> List.find (\<lambda>y. f y = f x) xs = Some x"
  by (induction xs) (auto simp: image_iff)

subsection \<open>Updating the element with a given key\<close>

definition update_where :: "('a \<Rightarrow> bool) \<Rightarrow> ('a \<Rightarrow> 'a) \<Rightarrow> 'a list \<Rightarrow> 'a list" where
  "update_where P f xs = map (\<lambda>x. if P x then f x else x) xs"

lemma update_where_length [simp]: "length (update_where P f xs) = length xs"
  by (simp add: update_where_def)

lemma update_where_nth [simp]:
  "i < length xs \<Longrightarrow> update_where P f xs ! i = (if P (xs ! i) then f (xs ! i) else xs ! i)"
  by (simp add: update_where_def)

lemma update_where_Nil [simp]: "update_where P f [] = []"
  by (simp add: update_where_def)

lemma update_where_Cons [simp]:
  "update_where P f (x # xs) = (if P x then f x else x) # update_where P f xs"
  by (simp add: update_where_def)

lemma update_where_append [simp]:
  "update_where P f (xs @ ys) = update_where P f xs @ update_where P f ys"
  by (simp add: update_where_def)

lemma map_update_where:
  "(\<And>x. P x \<Longrightarrow> g (f x) = g x) \<Longrightarrow> map g (update_where P f xs) = map g xs"
  by (induction xs) auto

lemma image_update_where [simp]:
  "(\<And>x. g (f x) = g x) \<Longrightarrow> g ` set (update_where P f xs) = g ` set xs"
  by (metis map_update_where set_map)

lemma set_update_where:
  "set (update_where P f xs) = {f x |x. x \<in> set xs \<and> P x} \<union> {x. x \<in> set xs \<and> \<not> P x}"
  by (auto simp: update_where_def)

lemma update_where_id:
  "(\<forall>x\<in>set xs. \<not> P x) \<Longrightarrow> update_where P f xs = xs"
  by (induction xs) auto

lemma UN_update_where:
  "(\<Union>x\<in>set (update_where P f xs). g x) = (\<Union>x\<in>set xs. if P x then g (f x) else g x)"
  by (induction xs) auto

lemma UN_update_where_same:
  "(\<And>x. P x \<Longrightarrow> g (f x) = g x) \<Longrightarrow> (\<Union>x\<in>set (update_where P f xs). g x) = (\<Union>x\<in>set xs. g x)"
  by (induction xs) auto

lemma UN_if_insert:
  "\<exists>x\<in>A. P x \<Longrightarrow> (\<Union>x\<in>A. if P x then insert c (g x) else g x) = insert c (\<Union>x\<in>A. g x)"
  by (auto split: if_splits)

lemma find_update_where:
  "(\<And>x. g (f x) = g x) \<Longrightarrow>
   List.find (\<lambda>x. g x = k') (update_where (\<lambda>x. g x = k) f xs) =
     (if k' = k then map_option f (List.find (\<lambda>x. g x = k') xs) else List.find (\<lambda>x. g x = k') xs)"
  by (induction xs) auto

subsection \<open>Positions in lists\<close>

lemma drop_Cons_nth: "drop i xs = y # ys \<Longrightarrow> i < length xs \<and> xs ! i = y \<and> drop (Suc i) xs = ys"
  by (metis Cons_nth_drop_Suc drop_all list.distinct(1) list.inject not_le_imp_less)

lemma map_update_same: "j < length xs \<Longrightarrow> (map f xs)[j := f (xs ! j)] = map f xs"
  by (metis list_update_id nth_map)

lemma mset_concat_split:
  "j < length xs \<Longrightarrow> mset (concat (xs[j := take k (xs ! j)] @ [drop k (xs ! j)])) = mset (concat xs)"
proof -
  assume j: "j < length xs"
  have "mset (concat xs) = mset (concat (take j xs @ xs ! j # drop (Suc j) xs))"
    using j by (simp add: id_take_nth_drop [symmetric])
  also have "\<dots> = mset (concat (take j xs)) + mset (xs ! j) + mset (concat (drop (Suc j) xs))"
    by simp
  moreover have "mset (take k (xs ! j)) + mset (drop k (xs ! j)) = mset (xs ! j)"
    by (metis append_take_drop_id mset_append)
  ultimately show ?thesis
    using j by (simp add: upd_conv_take_nth_drop ac_simps)
qed

lemma all_from_Suc:
  "(\<forall>m. Suc i \<le> m \<and> m < j \<longrightarrow> P m) \<Longrightarrow> P i \<Longrightarrow> (\<forall>m. i \<le> m \<and> m < j \<longrightarrow> P m)"
  by (metis Suc_leI le_neq_implies_less)

lemma pair_eq_fst_snd: "(x, y) = p \<Longrightarrow> x = fst p \<and> y = snd p"
  by auto

lemma take_Suc_drop:
  assumes "take (Suc k) ys = take (Suc k) xs" "k < length xs" "length ys = length xs"
  shows "take k ys = take k xs \<and> drop k ys = xs ! k # drop (Suc k) ys"
proof -
  have "take k ys = take k (take (Suc k) ys)" by simp
  also have "\<dots> = take k xs" using assms(1) by (metis take_take min_absorb1 le_SucI order_refl)
  finally have 1: "take k ys = take k xs" .
  have "ys ! k = xs ! k" using assms(1) by (metis lessI nth_take)
  then show ?thesis using 1 assms by (metis Cons_nth_drop_Suc)
qed

lemma list_all2_ex_left: "list_all2 P xs ys \<Longrightarrow> y \<in> set ys \<Longrightarrow> \<exists>x\<in>set xs. P x y"
  by (induction rule: list_all2_induct) auto

lemma length_filter_map_le:
  "(\<forall>x\<in>set xs. P (f x) \<longrightarrow> P x) \<Longrightarrow> length (filter P (map f xs)) \<le> length (filter P xs)"
  by (induction xs) auto

lemma length_filter_map_less:
  "\<forall>x\<in>set xs. P (f x) \<longrightarrow> P x \<Longrightarrow> x \<in> set xs \<Longrightarrow> P x \<Longrightarrow> \<not> P (f x) \<Longrightarrow>
   length (filter P (map f xs)) < length (filter P xs)"
proof (induction xs)
  case Nil then show ?case by simp
next
  case (Cons y ys)
  have le: "length (filter P (map f ys)) \<le> length (filter P ys)"
    using Cons.prems(1) by (intro length_filter_map_le) simp
  show ?case
  proof (cases "x = y")
    case True
    with Cons.prems le show ?thesis by simp
  next
    case False
    with Cons.prems have "length (filter P (map f ys)) < length (filter P ys)" by (intro Cons.IH) auto
    with Cons.prems(1) show ?thesis by simp
  qed
qed

subsection \<open>Sum-type plumbing\<close>

text \<open>Sequencing of fallible steps, as an early \<open>return\<close> or \<open>assert\<close> does in C++.\<close>

definition bind_r :: "'a result \<Rightarrow> ('a \<Rightarrow> 'b result) \<Rightarrow> 'b result" where
  "bind_r m f = (case m of Inl e \<Rightarrow> Inl e | Inr a \<Rightarrow> f a)"

lemma bind_r_simps [simp]:
  "bind_r (Inl e) f = Inl e"
  "bind_r (Inr a) f = f a"
  by (simp_all add: bind_r_def)

text \<open>Sequencing where a step may also not return (\<open>None\<close>).\<close>

definition lthen :: "'a result option \<Rightarrow> ('a \<Rightarrow> 'b result option) \<Rightarrow> 'b result option" where
  "lthen m f = (case m of None \<Rightarrow> None | Some (Inl e) \<Rightarrow> Some (Inl e) | Some (Inr x) \<Rightarrow> f x)"

lemma lthen_simps [simp]:
  "lthen None f = None"
  "lthen (Some (Inl e)) f = Some (Inl e)"
  "lthen (Some (Inr x)) f = f x"
  by (simp_all add: lthen_def)

lemma lthen_Some_Inr:
  "lthen m f = Some (Inr y) \<longleftrightarrow> (\<exists>x. m = Some (Inr x) \<and> f x = Some (Inr y))"
  by (auto simp: lthen_def split: option.splits sum.splits)

lemma bind_r_Inr:
  "bind_r m f = Inr b \<longleftrightarrow> (\<exists>a. m = Inr a \<and> f a = Inr b)"
  by (cases m) auto

end
