(* ===== verification/IR.thy ===== *)
theory IR
  imports Prelude
begin

text \<open>
  The data the decompiler core consumes and produces (section 3 of the specification).
  The template language (\<open>IRArgument\<close>, \<open>IRExpression\<close>), the architecture catalog
  (\<open>Register\<close>, \<open>Stack\<close>, \<open>InstrDefinition\<close>, \<open>Instruction\<close>) and the SSA
  intermediate representation (\<open>SSAArgument\<close>, \<open>SSAExpression\<close>, \<open>SSABB\<close>) are
  declared in headers that are not part of the sources (\<open>IR.h\<close>, \<open>SSA.h\<close>,
  \<open>Architecture.h\<close>); they are modelled from the specification and from the way
  \<open>SSAGen.cpp\<close> and the two SSA passes use their fields.
\<close>

subsection \<open>Operators, value types and locations\<close>

datatype optype =
    eAdd | eSub | eMul | eAnd | eOr | eXor | eNot
  | eEq | eNe | eLower | eLe | eGreater | eGe
  | eOpOther nat

datatype ssatype = eUInt | eInt | eFloat | ePc | eMemaccess | eTypeUnknown

datatype ssaloc = LocNone | LocReg | LocStack | LocMem

type_synonym locref = "hid \<times> nat"

subsection \<open>The template language\<close>

text \<open>
  A memory operand \<open>segment::[base + index * scale + disp]\<close>; a register field 0 means
  the component is absent.
\<close>

record memop =
  mem_segment :: hid
  mem_base :: hid
  mem_index :: hid
  mem_scale :: addr
  mem_disp :: addr

datatype irexprtype =
    IR_EXPR_UNDEF | IR_EXPR_ASSIGN | IR_EXPR_NOP | IR_EXPR_IF | IR_EXPR_JMP | IR_EXPR_CJMP
  | IR_EXPR_OP | IR_EXPR_CALL | IR_EXPR_RETURN | IR_EXPR_SYSCALL | IR_EXPR_TRAP
  | IR_EXPR_BUILTIN | IR_EXPR_EXTEND | IR_EXPR_SPLIT | IR_EXPR_APPEND | IR_EXPR_CAST
  | IR_EXPR_STORE | IR_EXPR_LOAD | IR_EXPR_PUSH | IR_EXPR_POP | IR_EXPR_VALUE
  | IR_EXPR_REC | IR_EXPR_REP | IR_EXPR_SIZE | IR_EXPR_BSIZE | IR_EXPR_SEQUENCE | IR_EXPR_FLAG

text \<open>
  The \<open>mod\<close> field of an \<open>IRExpression\<close>: the operator of an \<open>IR_EXPR_OP\<close>, the
  instruction definition of an \<open>IR_EXPR_REC\<close>, the flag kind of an \<open>IR_EXPR_FLAG\<close>.
\<close>

datatype irmod = ModNone | ModOp optype | ModInstr hid | ModFlag nat

text \<open>
  An \<open>IRArgument\<close> is a tagged union; each constructor is one \<open>IR_ARGTYPE_*\<close> tag
  with the fields the code reads for it.  The size field is kept where the code reads
  it.  An \<open>IR_ARGTYPE_ID\<close> argument refers to an \<open>IRExpression\<close> of the architecture
  by identifier; the template parser builds these references as a tree, so the model
  nests the expression inside the argument.  Float literals carry their bit pattern.
\<close>

datatype irarg =
    ArgUnkn
  | ArgArg nat
  | ArgId irexpr
  | ArgSInt int nat
  | ArgUInt addr nat
  | ArgFloat int nat
  | ArgIp
  | ArgReg hid nat nat
  | ArgStack hid nat nat
  | ArgTmp nat
  | ArgMem hid
  | ArgMemOp memop nat
  | ArgSSAId hid nat
and irexpr = IRExpression (ir_type: irexprtype) (ir_mod: irmod) (ir_rettype: ssatype) (ir_subs: "irarg list")

text \<open>The \<open>size\<close> field of an \<open>IRArgument\<close>; \<open>IRArgument::create ()\<close> has size 0.\<close>

fun irarg_size :: "irarg \<Rightarrow> nat" where
  "irarg_size (ArgSInt _ s) = s"
| "irarg_size (ArgUInt _ s) = s"
| "irarg_size (ArgFloat _ s) = s"
| "irarg_size (ArgReg _ _ s) = s"
| "irarg_size (ArgStack _ _ s) = s"
| "irarg_size (ArgMemOp _ s) = s"
| "irarg_size (ArgSSAId _ s) = s"
| "irarg_size _ = 0"

text \<open>\<open>IRArgument::createVal (v, size)\<close> and the truth test \<open>if (arg)\<close>.\<close>

definition createVal :: "addr \<Rightarrow> nat \<Rightarrow> irarg" where
  "createVal v s = ArgUInt v s"

definition irarg_valid :: "irarg \<Rightarrow> bool" where
  "irarg_valid a \<longleftrightarrow> a \<noteq> ArgUnkn"

subsection \<open>The architecture catalog\<close>

record register =
  reg_id :: hid
  reg_size :: nat
  reg_parent :: hid
  reg_offset :: nat
  reg_clear_parent :: bool

datatype stacktype = eRegBacked | eMemory
datatype stackpolicy = eTop | eBottom

record stack =
  stk_id :: hid
  stk_type :: stacktype
  stk_policy :: stackpolicy
  stk_tracking_reg :: hid
  stk_backing_mem :: hid
  stk_wordbitsize :: nat

text \<open>One candidate body of an instruction definition (\<open>IRRepresentation\<close>).\<close>

record irrep =
  ir_argcount :: nat
  ir_cond :: irarg
  ir_root :: irarg

record instrdef =
  instr_mnemonic :: string
  instr_irs :: "irrep list"

record instruction =
  i_addr :: addr
  i_size :: addr
  i_operands :: "irarg list"
  i_def :: instrdef

record arch =
  arch_registers :: "register list"
  arch_stacks :: "stack list"
  arch_memories :: "hid list"
  arch_default_mem :: hid
  arch_bitbase :: nat
  arch_wordbase :: nat
  arch_instrdefs :: "hid \<Rightarrow> instrdef option"

text \<open>
  A top-level register is a register with a non-zero identifier and no parent; the
  guard \<open>if (!reg.id || reg.directParentRef) continue;\<close> recurs in \<open>setup\<close>, the
  call and return lowering, and the resolver.
\<close>

definition top_level :: "register \<Rightarrow> bool" where
  "top_level r \<longleftrightarrow> reg_id r \<noteq> 0 \<and> reg_parent r = 0"

definition top_regs :: "arch \<Rightarrow> register list" where
  "top_regs a = filter top_level (arch_registers a)"

definition getRegister :: "arch \<Rightarrow> hid \<Rightarrow> register option" where
  "getRegister a i = List.find (\<lambda>r. reg_id r = i) (arch_registers a)"

definition getStack :: "arch \<Rightarrow> hid \<Rightarrow> stack option" where
  "getStack a i = List.find (\<lambda>s. stk_id s = i) (arch_stacks a)"

subsection \<open>The SSA representation\<close>

datatype ssaexprtype =
    eInvalid | eLabel | eUndef | eOp | eLoadAddr | eFlag | eExtend | eSplit | eUpdatePart
  | eAppend | eCast | eInput | eOutput | eCall | eReturn | eSyscall | eTrap | ePhi
  | eAssign | eJmp | eCJmp | eMultiBranch | eStore | eLoad

text \<open>The payload of an \<open>SSAArgument\<close>, one constructor per \<open>SSAArgType\<close>.\<close>

datatype ssaargtype =
    AOther
  | AId hid
  | AReg hid nat
  | AStack hid nat
  | AMem hid
  | ABlock hid
  | AUInt addr
  | ASInt int
  | AFloat int
  | AUndef

record ssaarg =
  arg_kind :: ssaargtype
  arg_size :: nat
  arg_loc :: ssaloc
  arg_locref :: locref

record ssaexpr =
  e_id :: hid
  e_type :: ssaexprtype
  e_op :: optype
  e_flag :: nat
  e_rettype :: ssatype
  e_size :: nat
  e_loc :: ssaloc
  e_locref :: locref
  e_args :: "ssaarg list"
  e_instr_addr :: addr

record ssabb =
  bb_id :: hid
  bb_fallthrough :: hid
  bb_start :: addr
  bb_end :: addr
  bb_exprs :: "hid list"
  bb_in :: "hid set"
  bb_out :: "hid set"

text \<open>
  \<open>SSARepresentation\<close>: the block store and the node store of one function, each an
  ID-addressed list whose \<open>push_back\<close> hands out the next identifier of its
  generator; identifiers are never reused.
\<close>

record ssarep =
  bbs :: "ssabb list"
  bb_gen :: hid
  exprs :: "ssaexpr list"
  expr_gen :: hid

subsection \<open>Constructors of SSA arguments and nodes\<close>

definition mk_arg :: "ssaargtype \<Rightarrow> nat \<Rightarrow> ssaarg" where
  "mk_arg k s = \<lparr>arg_kind = k, arg_size = s, arg_loc = LocNone, arg_locref = (0, 0)\<rparr>"

definition createUndef :: "ssaloc \<Rightarrow> locref \<Rightarrow> nat \<Rightarrow> ssaarg" where
  "createUndef l r s = \<lparr>arg_kind = AUndef, arg_size = s, arg_loc = l, arg_locref = r\<rparr>"

definition createEmpty :: ssaarg where
  "createEmpty = mk_arg AOther 0"

definition createRegArg :: "register \<Rightarrow> ssaarg" where
  "createRegArg r = mk_arg (AReg (reg_id r) 0) (reg_size r)"

definition blank_expr :: "ssaexprtype \<Rightarrow> ssaexpr" where
  "blank_expr t = \<lparr>e_id = 0, e_type = t, e_op = eOpOther 0, e_flag = 0, e_rettype = eTypeUnknown,
     e_size = 0, e_loc = LocNone, e_locref = (0, 0), e_args = [], e_instr_addr = 0\<rparr>"

lemmas ir_defs = mk_arg_def createUndef_def createEmpty_def createRegArg_def blank_expr_def
  top_regs_def top_level_def createVal_def irarg_valid_def

end
