(* ===== verification/Template.thy ===== *)
theory Template
  imports IR
begin

text \<open>
  The Constant Guard Evaluator and the Template Matcher (sections 4.1 and 4.2 of the
  specification), and the operand binding of the lowering engine.
  \<^item> \<open>parseConstExpression\<close> is \<open>SSAGen::parseConstExpression\<close>
    (src/main/SSAGen.cpp, lines 72--229); the three loops of AND, OR and XOR share the
    helper \<open>const_fold\<close>, the six comparisons \<open>const_cmp\<close>.
  \<^item> \<open>matchIr\<close> is \<open>SSAGen::matchIr\<close> (lines 16--40): the first candidate body
    whose operand count matches and whose guard evaluates to a non-zero literal.  The
    guard evaluator reads the instruction pointer through the member
    \<open>SSAGen::instruction\<close>, not through the instruction being matched, so both take
    that member as an extra argument \<open>cur\<close> (\<open>None\<close> for \<open>nullptr\<close>).
  \<^item> \<open>replaceArg\<close> is \<open>SSAGen::replaceArg\<close> (lines 363--369), the loop that
    resolves a placeholder through the current operand list; it may loop, so it is a
    \<^theory_text>\<open>partial_function\<close> in the option monad.
  A failed \<open>assert\<close> is the value \<open>Inl AssertFail\<close>.
\<close>

subsection \<open>Guard evaluation\<close>

text \<open>
  The placeholder case reads \<open>(*arglist)[argExpr.ref.refId]\<close>: the index is used as
  it is, whereas \<open>replaceArg\<close> below reads \<open>arguments[refId - 1]\<close>.  Reading past
  the end of the vector is undefined in C++; the model yields the indeterminate
  argument there.
\<close>

definition arg_at :: "irarg list \<Rightarrow> nat \<Rightarrow> irarg" where
  "arg_at al i = (if i < length al then al ! i else ArgUnkn)"

definition bool_val :: "bool \<Rightarrow> addr" where
  "bool_val b = (if b then 1 else 0)"

fun parseConstExpression :: "arch \<Rightarrow> instruction option \<Rightarrow> irarg list \<Rightarrow> irarg \<Rightarrow> irarg result"
and const_fold :: "arch \<Rightarrow> instruction option \<Rightarrow> irarg list \<Rightarrow> (bool \<Rightarrow> addr \<Rightarrow> bool) \<Rightarrow>
    irarg list \<Rightarrow> bool \<Rightarrow> irarg result"
and const_cmp :: "arch \<Rightarrow> instruction option \<Rightarrow> irarg list \<Rightarrow> (addr \<Rightarrow> addr \<Rightarrow> bool) \<Rightarrow>
    irarg list \<Rightarrow> irarg result"
where
  "parseConstExpression a ins al (ArgArg i) = Inr (arg_at al i)"
| "parseConstExpression a ins al (ArgId (IRExpression t m rt subs)) =
     (case t of
        IR_EXPR_OP \<Rightarrow>
          (case m of
             ModOp eAnd \<Rightarrow> const_fold a ins al (\<lambda>v u. v \<and> u \<noteq> 0) subs False
           | ModOp eOr \<Rightarrow> const_fold a ins al (\<lambda>v u. v \<or> u \<noteq> 0) subs False
           | ModOp eXor \<Rightarrow> const_fold a ins al (\<lambda>v u. v \<noteq> (u \<noteq> 0)) subs False
           | ModOp eNot \<Rightarrow>
               (case subs of
                  [] \<Rightarrow> Inr (createVal 0 (arch_bitbase a))
                | s # _ \<Rightarrow> bind_r (parseConstExpression a ins al s)
                    (\<lambda>r. case r of
                           ArgUInt u _ \<Rightarrow> Inr (createVal (bool_val (u = 0)) (arch_bitbase a))
                         | _ \<Rightarrow> Inr ArgUnkn))
           | ModOp eEq \<Rightarrow> const_cmp a ins al (=) subs
           | ModOp eNe \<Rightarrow> const_cmp a ins al (\<noteq>) subs
           | ModOp eLower \<Rightarrow> const_cmp a ins al (<) subs
           | ModOp eLe \<Rightarrow> const_cmp a ins al (\<le>) subs
           | ModOp eGreater \<Rightarrow> const_cmp a ins al (\<lambda>x y. y < x) subs
           | ModOp eGe \<Rightarrow> const_cmp a ins al (\<lambda>x y. y \<le> x) subs
           | _ \<Rightarrow> Inr ArgUnkn)
      | IR_EXPR_SIZE \<Rightarrow>
          (case subs of
             [s] \<Rightarrow> bind_r (parseConstExpression a ins al s)
                     (\<lambda>r. Inr (createVal (of_nat (irarg_size r div arch_wordbase a)) (arch_wordbase a)))
           | _ \<Rightarrow> Inl AssertFail)
      | IR_EXPR_BSIZE \<Rightarrow>
          (case subs of
             [s] \<Rightarrow> bind_r (parseConstExpression a ins al s)
                     (\<lambda>r. Inr (createVal (of_nat (irarg_size r)) (arch_wordbase a)))
           | _ \<Rightarrow> Inl AssertFail)
      | _ \<Rightarrow> Inr ArgUnkn)"
| "parseConstExpression a ins al (ArgSInt v s) = Inr (ArgSInt v s)"
| "parseConstExpression a ins al (ArgUInt v s) = Inr (ArgUInt v s)"
| "parseConstExpression a ins al (ArgFloat v s) = Inr (ArgFloat v s)"
| "parseConstExpression a ins al ArgIp =
     (case ins of None \<Rightarrow> Inl NullInstr
      | Some i \<Rightarrow> Inr (createVal (i_addr i + i_size i) (arch_bitbase a)))"
| "parseConstExpression a ins al (ArgReg r i s) = Inr ArgUnkn"
| "parseConstExpression a ins al (ArgStack r i s) = Inr ArgUnkn"
| "parseConstExpression a ins al (ArgTmp t) = Inr ArgUnkn"
| "parseConstExpression a ins al ArgUnkn = Inr (createVal 1 (arch_bitbase a))"
| "parseConstExpression a ins al (ArgMem m) = Inr (createVal 1 (arch_bitbase a))"
| "parseConstExpression a ins al (ArgMemOp mo s) = Inr (createVal 1 (arch_bitbase a))"
| "parseConstExpression a ins al (ArgSSAId i s) = Inr (createVal 1 (arch_bitbase a))"
| "const_fold a ins al f [] v = Inr (createVal (bool_val v) (arch_bitbase a))"
| "const_fold a ins al f (s # ss) v =
     bind_r (parseConstExpression a ins al s)
       (\<lambda>r. case r of
              ArgUInt u _ \<Rightarrow> const_fold a ins al f ss (f v u)
            | _ \<Rightarrow> Inr ArgUnkn)"
| "const_cmp a ins al c subs =
     (case subs of
        [s1, s2] \<Rightarrow>
          bind_r (parseConstExpression a ins al s1) (\<lambda>r1.
          bind_r (parseConstExpression a ins al s2) (\<lambda>r2.
            (case (r1, r2) of
               (ArgUInt u1 _, ArgUInt u2 _) \<Rightarrow> Inr (createVal (bool_val (c u1 u2)) (arch_bitbase a))
             | _ \<Rightarrow> Inr ArgUnkn)))
      | _ \<Rightarrow> Inr (createVal 0 (arch_bitbase a)))"

subsection \<open>Template matching\<close>

text \<open>The test \<open>constArg && constArg.type == IR_ARGTYPE_UINT && constArg.uval\<close>.\<close>

definition guard_holds :: "irarg \<Rightarrow> bool" where
  "guard_holds c = (case c of ArgUInt v _ \<Rightarrow> v \<noteq> 0 | _ \<Rightarrow> False)"

text \<open>
  The candidate loop of \<open>matchIr\<close>; the recursive instantiation of the lowering
  engine (lines 964--973) runs the same loop over its own argument list.
\<close>

fun match_from :: "arch \<Rightarrow> instruction option \<Rightarrow> irarg list \<Rightarrow> irrep list \<Rightarrow> irrep option result" where
  "match_from a ins al [] = Inr None"
| "match_from a ins al (r # rs) =
     (if length al = ir_argcount r then
        bind_r (parseConstExpression a ins al (ir_cond r))
          (\<lambda>c. if guard_holds c then Inr (Some r) else match_from a ins al rs)
      else match_from a ins al rs)"

definition matchIr :: "arch \<Rightarrow> instruction option \<Rightarrow> instruction \<Rightarrow> irrep option result" where
  "matchIr a cur ins = match_from a cur (i_operands ins) (instr_irs (i_def ins))"

subsection \<open>Operand binding\<close>

partial_function (option) replaceArg :: "irarg list \<Rightarrow> irarg \<Rightarrow> irarg result option" where
  "replaceArg args arg =
     (case arg of
        ArgArg i \<Rightarrow>
          (if i \<noteq> 0 \<and> i \<le> length args then replaceArg args (args ! (i - 1))
           else Some (Inl UnresolvedArg))
      | _ \<Rightarrow> Some (Inr arg))"

declare replaceArg.simps [code]

lemmas template_defs = arg_at_def bool_val_def guard_holds_def matchIr_def

subsection \<open>Properties of the guard evaluator\<close>

lemma const_fold_and_false:
  "const_fold a ins al (\<lambda>v u. v \<and> u \<noteq> 0) subs False = Inr r \<Longrightarrow>
   r = createVal 0 (arch_bitbase a) \<or> r = ArgUnkn"
proof (induction subs)
  case Nil
  then show ?case by (simp add: bool_val_def)
next
  case (Cons s ss)
  then obtain r' where r': "parseConstExpression a ins al s = Inr r'"
    by (cases "parseConstExpression a ins al s") auto
  with Cons show ?case by (cases r') auto
qed

lemma const_fold_lits:
  "list_all2 (\<lambda>s u. \<exists>w. parseConstExpression a ins al s = Inr (ArgUInt u w)) subs us \<Longrightarrow>
   const_fold a ins al f subs v = Inr (createVal (bool_val (foldl f v us)) (arch_bitbase a))"
proof (induction subs arbitrary: us v)
  case Nil
  then show ?case by simp
next
  case (Cons s ss)
  then obtain u us' where "us = u # us'" by (cases us) auto
  with Cons show ?case by auto
qed

lemma foldl_or: "foldl (\<lambda>v u. v \<or> u \<noteq> (0::addr)) v us = (v \<or> (\<exists>u\<in>set us. u \<noteq> 0))"
  by (induction us arbitrary: v) auto

lemma foldl_xor:
  "foldl (\<lambda>v u. v \<noteq> (u \<noteq> (0::addr))) v us = (v \<noteq> odd (length (filter (\<lambda>u. u \<noteq> 0) us)))"
  by (induction us arbitrary: v) auto

lemma const_cmp_lits:
  "parseConstExpression a ins al s1 = Inr (ArgUInt u1 w1) \<Longrightarrow>
   parseConstExpression a ins al s2 = Inr (ArgUInt u2 w2) \<Longrightarrow>
   const_cmp a ins al c [s1, s2] = Inr (createVal (bool_val (c u1 u2)) (arch_bitbase a))"
  by simp

text \<open>C1.  An \<open>AND\<close> guard never holds: the C++ loop starts from \<open>val = 0\<close> and
  computes \<open>val = val && arg.uval\<close>, so the conjunction is 0 (or indeterminate)
  whatever its operands are.\<close>

theorem and_guard_never_holds:
  "\<not> (\<exists>c. parseConstExpression a ins al (ArgId (IRExpression IR_EXPR_OP (ModOp eAnd) rt subs)) = Inr c
        \<and> guard_holds c)"
  using const_fold_and_false [of a ins al subs] by (auto simp: guard_holds_def createVal_def)

text \<open>C3.  A candidate whose guard is a conjunction is never selected, whatever the
  instruction: with \<open>and_guard_never_holds\<close> this makes every AND-guarded template body
  dead code.\<close>

theorem matchIr_never_and_guard:
  "matchIr a cur ins = Inr (Some r) \<Longrightarrow> ir_cond r \<noteq> ArgId (IRExpression IR_EXPR_OP (ModOp eAnd) rt subs)"
proof -
  have "\<And>rs. match_from a cur (i_operands ins) rs = Inr (Some r) \<Longrightarrow>
      ir_cond r \<noteq> ArgId (IRExpression IR_EXPR_OP (ModOp eAnd) rt subs)"
  proof -
    fix rs
    show "match_from a cur (i_operands ins) rs = Inr (Some r) \<Longrightarrow>
      ir_cond r \<noteq> ArgId (IRExpression IR_EXPR_OP (ModOp eAnd) rt subs)"
      using const_fold_and_false [of a cur "i_operands ins" subs]
      by (induction rs) (auto simp: bind_r_Inr guard_holds_def createVal_def split: if_splits)
  qed
  then show "matchIr a cur ins = Inr (Some r) \<Longrightarrow> ir_cond r \<noteq> ArgId (IRExpression IR_EXPR_OP (ModOp eAnd) rt subs)"
    by (simp add: matchIr_def)
qed

theorem matchIr_never_and_guard_witness:
  "matchIr \<lparr>arch_registers = [], arch_stacks = [], arch_memories = [], arch_default_mem = 1,
            arch_bitbase = 64, arch_wordbase = 8, arch_instrdefs = \<lambda>_. None\<rparr> None
     \<lparr>i_addr = 0, i_size = 1, i_operands = [],
      i_def = \<lparr>instr_mnemonic = ''nop'', instr_irs = [\<lparr>ir_argcount = 0, ir_cond = ArgUnkn, ir_root = ArgUnkn\<rparr>]\<rparr>\<rparr>
     = Inr (Some \<lparr>ir_argcount = 0, ir_cond = ArgUnkn, ir_root = ArgUnkn\<rparr>)
   \<and> ir_cond \<lparr>ir_argcount = 0, ir_cond = ArgUnkn, ir_root = ArgUnkn\<rparr>
       \<noteq> ArgId (IRExpression IR_EXPR_OP (ModOp eAnd) eUInt [])"
proof -
  have m: "matchIr \<lparr>arch_registers = [], arch_stacks = [], arch_memories = [], arch_default_mem = 1,
            arch_bitbase = 64, arch_wordbase = 8, arch_instrdefs = \<lambda>_. None\<rparr> None
     \<lparr>i_addr = 0, i_size = 1, i_operands = [],
      i_def = \<lparr>instr_mnemonic = ''nop'', instr_irs = [\<lparr>ir_argcount = 0, ir_cond = ArgUnkn, ir_root = ArgUnkn\<rparr>]\<rparr>\<rparr>
     = Inr (Some \<lparr>ir_argcount = 0, ir_cond = ArgUnkn, ir_root = ArgUnkn\<rparr>)"
    by (simp add: template_defs createVal_def)
  show ?thesis using m matchIr_never_and_guard [OF m, of eUInt "[]"] by simp
qed

text \<open>C4.  An OR guard whose operands evaluate to literals is 1 exactly when one of
  them is non-zero.\<close>

theorem or_guard_value:
  "list_all2 (\<lambda>s u. \<exists>w. parseConstExpression a ins al s = Inr (ArgUInt u w)) subs us \<Longrightarrow>
   parseConstExpression a ins al (ArgId (IRExpression IR_EXPR_OP (ModOp eOr) rt subs)) =
   Inr (createVal (bool_val (\<exists>u\<in>set us. u \<noteq> 0)) (arch_bitbase a))"
  by (simp add: const_fold_lits foldl_or)

theorem or_guard_value_witness:
  "list_all2 (\<lambda>s u. \<exists>w. parseConstExpression \<lparr>arch_registers = [], arch_stacks = [], arch_memories = [],
       arch_default_mem = 1, arch_bitbase = 64, arch_wordbase = 8, arch_instrdefs = \<lambda>_. None\<rparr>
       None
       [ArgUInt 0 8] s = Inr (ArgUInt u w)) [ArgArg 0, ArgUInt 2 8] [0, 2]
   \<and> parseConstExpression \<lparr>arch_registers = [], arch_stacks = [], arch_memories = [],
       arch_default_mem = 1, arch_bitbase = 64, arch_wordbase = 8, arch_instrdefs = \<lambda>_. None\<rparr>
       None
       [ArgUInt 0 8] (ArgId (IRExpression IR_EXPR_OP (ModOp eOr) eUInt [ArgArg 0, ArgUInt 2 8]))
     = Inr (createVal 1 64)"
proof -
  have h: "list_all2 (\<lambda>s u. \<exists>w. parseConstExpression \<lparr>arch_registers = [], arch_stacks = [], arch_memories = [],
       arch_default_mem = 1, arch_bitbase = 64, arch_wordbase = 8, arch_instrdefs = \<lambda>_. None\<rparr>
       None
       [ArgUInt 0 8] s = Inr (ArgUInt u w)) [ArgArg 0, ArgUInt 2 8] [0, 2]"
    by (simp add: arg_at_def)
  show ?thesis using h or_guard_value [OF h, of eUInt] by (simp add: bool_val_def)
qed

text \<open>C5.  A relational guard compares its two literal operands as unsigned 64-bit
  values (here: less-than, which is \<open><\<close> on \<open>64 word\<close>).\<close>

theorem lower_guard_unsigned:
  "parseConstExpression a ins al s1 = Inr (ArgUInt u1 w1) \<Longrightarrow>
   parseConstExpression a ins al s2 = Inr (ArgUInt u2 w2) \<Longrightarrow>
   parseConstExpression a ins al (ArgId (IRExpression IR_EXPR_OP (ModOp eLower) rt [s1, s2])) =
   Inr (createVal (bool_val (unat u1 < unat u2)) (arch_bitbase a))"
  by (simp add: word_less_nat_alt)

theorem lower_guard_unsigned_witness:
  "parseConstExpression \<lparr>arch_registers = [], arch_stacks = [], arch_memories = [],
       arch_default_mem = 1, arch_bitbase = 64, arch_wordbase = 8, arch_instrdefs = \<lambda>_. None\<rparr>
       None
       [] (ArgId (IRExpression IR_EXPR_OP (ModOp eLower) eUInt [ArgUInt (-1) 64, ArgUInt 1 64]))
     = Inr (createVal 0 64)"
proof -
  have "parseConstExpression \<lparr>arch_registers = [], arch_stacks = [], arch_memories = [],
       arch_default_mem = 1, arch_bitbase = 64, arch_wordbase = 8, arch_instrdefs = \<lambda>_. None\<rparr>
       None
       [] (ArgId (IRExpression IR_EXPR_OP (ModOp eLower) eUInt [ArgUInt (-1) 64, ArgUInt 1 64]))
     = Inr (createVal (bool_val (unat (-1 :: addr) < unat (1 :: addr)))
          (arch_bitbase \<lparr>arch_registers = [], arch_stacks = [], arch_memories = [],
            arch_default_mem = 1, arch_bitbase = 64, arch_wordbase = 8, arch_instrdefs = \<lambda>_. None\<rparr>))"
    by (rule lower_guard_unsigned) simp_all
  then show ?thesis by (simp add: bool_val_def)
qed

text \<open>Resolution of a placeholder over a binding list without placeholders.\<close>

lemma replaceArg_lookup:
  "(\<And>j. ArgArg j \<notin> set args) \<Longrightarrow>
   replaceArg args (ArgArg i) =
     Some (if 0 < i \<and> i \<le> length args then Inr (args ! (i - 1)) else Inl UnresolvedArg)"
proof -
  assume h: "\<And>j. ArgArg j \<notin> set args"
  show ?thesis
  proof (cases "0 < i \<and> i \<le> length args")
    case True
    then have "args ! (i - 1) \<in> set args" by (auto intro!: nth_mem)
    with h have "\<forall>j. args ! (i - 1) \<noteq> ArgArg j" by metis
    with True show ?thesis
      by (subst replaceArg.simps, simp, subst replaceArg.simps, simp split: irarg.splits)
  next
    case False
    then show ?thesis by (subst replaceArg.simps) auto
  qed
qed

text \<open>C6.  Operand binding: over an operand list without placeholders, a placeholder
  \<open>i\<close> resolves in one step to the \<open>i\<close>-th operand counting from 1; index 0 or
  an index past the end is the fatal "unresolved placeholder".\<close>

theorem replaceArg_resolves:
  "(\<And>j. ArgArg j \<notin> set args) \<Longrightarrow>
   replaceArg args (ArgArg i) =
     Some (if 0 < i \<and> i \<le> length args then Inr (args ! (i - 1)) else Inl UnresolvedArg)"
  by (rule replaceArg_lookup)

theorem replaceArg_resolves_witness:
  "replaceArg [ArgUInt 5 8, ArgReg 2 0 32] (ArgArg 2) = Some (Inr (ArgReg 2 0 32))"
proof -
  have h: "\<And>j. ArgArg j \<notin> set [ArgUInt 5 8, ArgReg 2 0 32]" by simp
  show ?thesis using replaceArg_resolves [OF h, of 2] by simp
qed

text \<open>C7.  The guard evaluator and the lowering engine disagree on placeholder
  numbering: for every operand list without placeholders and every index \<open>0 < i\<close>
  inside it, \<open>parseConstExpression\<close> reads placeholder \<open>i\<close> as operand \<open>i\<close>
  (from 0) and \<open>replaceArg\<close> as operand \<open>i - 1\<close>, two different operands when the
  operands are distinct.\<close>

theorem placeholder_index_mismatch:
  "0 < i \<Longrightarrow> i < length al \<Longrightarrow> (\<And>j. ArgArg j \<notin> set al) \<Longrightarrow>
   parseConstExpression a ins al (ArgArg i) = Inr (al ! i) \<and>
   replaceArg al (ArgArg i) = Some (Inr (al ! (i - 1))) \<and>
   (distinct al \<longrightarrow> al ! i \<noteq> al ! (i - 1))"
proof -
  assume i: "0 < i" "i < length al" and h: "\<And>j. ArgArg j \<notin> set al"
  have "replaceArg al (ArgArg i) = Some (Inr (al ! (i - 1)))"
    using replaceArg_lookup [OF h, of i] i by simp
  moreover have "distinct al \<longrightarrow> al ! i \<noteq> al ! (i - 1)"
    using i by (auto simp: nth_eq_iff_index_eq)
  ultimately show ?thesis using i by (simp add: arg_at_def)
qed

theorem placeholder_index_mismatch_witness:
  "parseConstExpression \<lparr>arch_registers = [], arch_stacks = [], arch_memories = [],
       arch_default_mem = 1, arch_bitbase = 64, arch_wordbase = 8, arch_instrdefs = \<lambda>_. None\<rparr>
       None [ArgUInt 5 8, ArgUInt 6 8] (ArgArg 1) = Inr (ArgUInt 6 8) \<and>
   replaceArg [ArgUInt 5 8, ArgUInt 6 8] (ArgArg 1) = Some (Inr (ArgUInt 5 8))"
proof -
  have h: "\<And>j. ArgArg j \<notin> set [ArgUInt 5 8, ArgUInt 6 8]" by simp
  show ?thesis
    using placeholder_index_mismatch [OF _ _ h, of 1 "\<lparr>arch_registers = [], arch_stacks = [],
      arch_memories = [], arch_default_mem = 1, arch_bitbase = 64, arch_wordbase = 8,
      arch_instrdefs = \<lambda>_. None\<rparr>" None] by simp
qed

lemma replaceArg_self_ref:
  assumes ret: "replaceArg args arg = Some r"
  shows "args = [ArgArg 1] \<longrightarrow> arg \<noteq> ArgArg 1"
proof (rule replaceArg.raw_induct [where P = "\<lambda>args arg r. args = [ArgArg 1] \<longrightarrow> arg \<noteq> ArgArg 1", OF _ ret])
  fix f :: "irarg list \<Rightarrow> irarg \<Rightarrow> irarg result option" and args arg r
  assume IH: "\<And>args arg r. f args arg = Some r \<Longrightarrow> args = [ArgArg 1] \<longrightarrow> arg \<noteq> ArgArg 1"
    and eq: "(case arg of ArgArg i \<Rightarrow> if i \<noteq> 0 \<and> i \<le> length args then f args (args ! (i - 1))
                else Some (Inl UnresolvedArg)
             | _ \<Rightarrow> Some (Inr arg)) = Some r"
  show "args = [ArgArg 1] \<longrightarrow> arg \<noteq> ArgArg 1"
  proof
    assume "args = [ArgArg 1]"
    show "arg \<noteq> ArgArg 1"
    proof
      assume "arg = ArgArg 1"
      with eq \<open>args = [ArgArg 1]\<close> have "f [ArgArg 1] (ArgArg 1) = Some r" by simp
      then show False using IH by blast
    qed
  qed
qed

text \<open>C8.  \<open>replaceArg\<close> does not terminate on a binding list that maps a placeholder
  to itself; the specification's "unresolved placeholder is fatal" does not cover it.\<close>

theorem replaceArg_diverges:
  "replaceArg [ArgArg 1] (ArgArg 1) = None"
  using replaceArg_self_ref [of "[ArgArg 1]" "ArgArg 1"]
  by (cases "replaceArg [ArgArg 1] (ArgArg 1)") auto

end
