(* ===== verification/Store.thy ===== *)
theory Store
  imports IR
begin

text \<open>
  The two ID-addressed stores of \<open>SSARepresentation\<close> (\<open>bbs\<close> and \<open>expressions\<close>)
  and the block accessors of \<open>SSAGen\<close>.  \<open>HIdList\<close> and \<open>SSARepresentation\<close> are
  declared outside the sources: \<open>push_bb\<close>, \<open>push_expr\<close>, \<open>addAtEnd\<close> and
  \<open>get_expr\<close> follow the specification (an arena whose \<open>push_back\<close> hands out the
  next identifier, never reusing one).  \<open>getBlock\<close> and \<open>createNewBlock\<close> are the
  \<open>SSAGen\<close> methods (src/main/SSAGen.cpp lines 239--246 and 328--333); a null block
  pointer becomes the value \<open>None\<close>.  Blocks are modified through their identifier
  (\<open>update_bb\<close>), as the design note of the specification asks.
\<close>

text \<open>A default-constructed \<open>SSABB\<close>: no range yet (start above end), no edges.\<close>

definition new_bb :: ssabb where
  "new_bb = \<lparr>bb_id = 0, bb_fallthrough = 0, bb_start = - 1, bb_end = 0, bb_exprs = [],
     bb_in = {}, bb_out = {}\<rparr>"

definition push_bb :: "ssarep \<Rightarrow> ssabb \<Rightarrow> ssarep \<times> hid" where
  "push_bb r b = (let i = Suc (bb_gen r) in
     (r\<lparr>bbs := bbs r @ [b\<lparr>bb_id := i\<rparr>], bb_gen := i\<rparr>, i))"

definition getBlock :: "ssarep \<Rightarrow> hid \<Rightarrow> ssabb option" where
  "getBlock r i = List.find (\<lambda>b. bb_id b = i) (bbs r)"

definition update_bb :: "hid \<Rightarrow> (ssabb \<Rightarrow> ssabb) \<Rightarrow> ssarep \<Rightarrow> ssarep" where
  "update_bb i f r = r\<lparr>bbs := update_where (\<lambda>b. bb_id b = i) f (bbs r)\<rparr>"

definition createNewBlock :: "ssarep \<Rightarrow> ssarep \<times> hid" where
  "createNewBlock r = push_bb r new_bb"

text \<open>\<open>outBlocks.insert (t)\<close> on block \<open>i\<close>, \<open>inBlocks.insert (s)\<close> on block \<open>i\<close>.\<close>

definition insert_out :: "hid \<Rightarrow> hid \<Rightarrow> ssarep \<Rightarrow> ssarep" where
  "insert_out i t = update_bb i (\<lambda>b. b\<lparr>bb_out := insert t (bb_out b)\<rparr>)"

definition insert_in :: "hid \<Rightarrow> hid \<Rightarrow> ssarep \<Rightarrow> ssarep" where
  "insert_in i s = update_bb i (\<lambda>b. b\<lparr>bb_in := insert s (bb_in b)\<rparr>)"

definition set_fallthrough :: "hid \<Rightarrow> hid \<Rightarrow> ssarep \<Rightarrow> ssarep" where
  "set_fallthrough i t = update_bb i (\<lambda>b. b\<lparr>bb_fallthrough := t\<rparr>)"

subsection \<open>The node store\<close>

definition get_expr :: "ssarep \<Rightarrow> hid \<Rightarrow> ssaexpr option" where
  "get_expr r i = List.find (\<lambda>e. e_id e = i) (exprs r)"

definition push_expr :: "ssarep \<Rightarrow> ssaexpr \<Rightarrow> ssarep \<times> hid" where
  "push_expr r e = (let i = Suc (expr_gen r) in
     (r\<lparr>exprs := exprs r @ [e\<lparr>e_id := i\<rparr>], expr_gen := i\<rparr>, i))"

definition update_expr :: "hid \<Rightarrow> (ssaexpr \<Rightarrow> ssaexpr) \<Rightarrow> ssarep \<Rightarrow> ssarep" where
  "update_expr i f r = r\<lparr>exprs := update_where (\<lambda>e. e_id e = i) f (exprs r)\<rparr>"

text \<open>\<open>SSARepresentation::addAtEnd\<close>: store the node and append its id to the block.\<close>

definition addAtEnd :: "ssaexpr \<Rightarrow> hid \<Rightarrow> ssarep \<Rightarrow> ssarep \<times> hid" where
  "addAtEnd e blk r = (let (r1, i) = push_expr r e in
     (update_bb blk (\<lambda>b. b\<lparr>bb_exprs := bb_exprs b @ [i]\<rparr>) r1, i))"

subsection \<open>Well-formed stores\<close>

text \<open>
  Identifiers are positive, distinct, and never above the generator, so that the next
  \<open>push_back\<close> hands out a fresh one.
\<close>

definition ids_ok :: "ssarep \<Rightarrow> bool" where
  "ids_ok r \<longleftrightarrow> distinct (map bb_id (bbs r)) \<and> (\<forall>i\<in>set (map bb_id (bbs r)). 0 < i \<and> i \<le> bb_gen r)"

lemmas store_defs [store_simps] = push_bb_def getBlock_def update_bb_def createNewBlock_def
  insert_out_def insert_in_def set_fallthrough_def get_expr_def push_expr_def
  update_expr_def addAtEnd_def new_bb_def

lemma bbs_push_bb [simp]: "bbs (fst (push_bb r b)) = bbs r @ [b\<lparr>bb_id := Suc (bb_gen r)\<rparr>]"
  by (simp add: push_bb_def)

lemma snd_push_bb [simp]: "snd (push_bb r b) = Suc (bb_gen r)"
  by (simp add: push_bb_def)

lemma bb_gen_push_bb [simp]: "bb_gen (fst (push_bb r b)) = Suc (bb_gen r)"
  by (simp add: push_bb_def)

lemma bbs_update_bb [simp]: "bbs (update_bb i f r) = update_where (\<lambda>b. bb_id b = i) f (bbs r)"
  by (simp add: update_bb_def)

lemma bb_gen_update_bb [simp]: "bb_gen (update_bb i f r) = bb_gen r"
  by (simp add: update_bb_def)

lemma expr_gen_update_bb [simp]: "expr_gen (update_bb i f r) = expr_gen r"
  by (simp add: update_bb_def)

lemma exprs_update_bb [simp]: "exprs (update_bb i f r) = exprs r"
  by (simp add: update_bb_def)

lemma exprs_push_bb [simp]: "exprs (fst (push_bb r b)) = exprs r"
  by (simp add: push_bb_def)

lemma map_bb_id_update_bb:
  "(\<And>b. bb_id (f b) = bb_id b) \<Longrightarrow> map bb_id (bbs (update_bb i f r)) = map bb_id (bbs r)"
  by (simp add: map_update_where)

lemma ids_update_bb:
  "(\<And>b. bb_id (f b) = bb_id b) \<Longrightarrow> bb_id ` set (bbs (update_bb i f r)) = bb_id ` set (bbs r)"
  by (metis map_bb_id_update_bb set_map)

lemma ids_insert_out [simp]: "bb_id ` set (bbs (insert_out i t r)) = bb_id ` set (bbs r)"
  unfolding insert_out_def by (rule ids_update_bb) simp

lemma ids_insert_in [simp]: "bb_id ` set (bbs (insert_in i t r)) = bb_id ` set (bbs r)"
  unfolding insert_in_def by (rule ids_update_bb) simp

lemma ids_set_fallthrough [simp]: "bb_id ` set (bbs (set_fallthrough i t r)) = bb_id ` set (bbs r)"
  unfolding set_fallthrough_def by (rule ids_update_bb) simp

lemma ids_ok_update_bb:
  "(\<And>b. bb_id (f b) = bb_id b) \<Longrightarrow> ids_ok (update_bb i f r) = ids_ok r"
  unfolding ids_ok_def by (simp only: map_bb_id_update_bb bb_gen_update_bb)

lemma ids_ok_push_bb: "ids_ok r \<Longrightarrow> ids_ok (fst (push_bb r b))"
  by (auto simp: ids_ok_def)

lemma bbs_update_expr [simp]: "bbs (update_expr i f r) = bbs r"
  by (simp add: update_expr_def)

lemma get_expr_update_expr:
  "(\<And>x. e_id (f x) = e_id x) \<Longrightarrow>
   get_expr (update_expr j f r) i = (if i = j then map_option f (get_expr r i) else get_expr r i)"
  unfolding get_expr_def update_expr_def by (simp add: find_update_where)

lemma getBlock_update_bb:
  "(\<And>b. bb_id (f b) = bb_id b) \<Longrightarrow>
   getBlock (update_bb j f r) i = (if i = j then map_option f (getBlock r i) else getBlock r i)"
  unfolding getBlock_def update_bb_def by (simp add: find_update_where)

lemma getBlock_Some:
  "getBlock r i = Some b \<Longrightarrow> b \<in> set (bbs r) \<and> bb_id b = i"
  by (auto simp: getBlock_def dest: find_Some_iff [THEN iffD1])

lemma getBlock_None: "getBlock r i = None \<longleftrightarrow> i \<notin> bb_id ` set (bbs r)"
  by (auto simp: getBlock_def find_None_iff)

lemma getBlock_distinct:
  "distinct (map bb_id (bbs r)) \<Longrightarrow> b \<in> set (bbs r) \<Longrightarrow> getBlock r (bb_id b) = Some b"
  by (simp add: getBlock_def find_distinct_key)

end
