(* ===== verification/Blocks.thy ===== *)
theory Blocks
  imports Store
begin

text \<open>
  The Basic-Block Store (section 4.4 of the specification): the edge-symmetry and
  address-partition invariants of the CFG, the edge operations the lowering engine and
  the resolver use, and \<open>SSAGen::splitBasicBlock\<close> (src/main/SSAGen.cpp, lines
  296--327).
\<close>

subsection \<open>Invariants\<close>

text \<open>
  Edge symmetry (section 8): every out-edge of a block names a block of the store that
  lists the source among its in-edges, and conversely.
\<close>

definition edges_sym :: "ssabb list \<Rightarrow> bool" where
  "edges_sym bs \<longleftrightarrow>
     (\<forall>b\<in>set bs. \<forall>t\<in>bb_out b. \<exists>c\<in>set bs. bb_id c = t \<and> bb_id b \<in> bb_in c) \<and>
     (\<forall>c\<in>set bs. \<forall>s\<in>bb_in c. \<exists>b\<in>set bs. bb_id b = s \<and> bb_id c \<in> bb_out b)"

text \<open>The CFG as the two edge relations the blocks record.\<close>

definition out_edges :: "ssabb list \<Rightarrow> (hid \<times> hid) set" where
  "out_edges bs = (\<Union>b\<in>set bs. Pair (bb_id b) ` bb_out b)"

definition in_edges :: "ssabb list \<Rightarrow> (hid \<times> hid) set" where
  "in_edges bs = (\<Union>c\<in>set bs. (\<lambda>s. (s, bb_id c)) ` bb_in c)"

text \<open>
  Address partition (section 8): the half-open ranges \<open>[start, end)\<close> of two different
  blocks do not overlap; an empty range (start at or above end, as for a block that has
  not yet received an instruction) overlaps nothing.
\<close>

definition range_of :: "ssabb \<Rightarrow> addr \<times> addr" where
  "range_of b = (bb_start b, bb_end b)"

definition rdisj :: "addr \<times> addr \<Rightarrow> addr \<times> addr \<Rightarrow> bool" where
  "rdisj x y \<longleftrightarrow> snd x \<le> fst y \<or> snd y \<le> fst x \<or> snd x \<le> fst x \<or> snd y \<le> fst y"

definition part_ok :: "(addr \<times> addr) list \<Rightarrow> bool" where
  "part_ok rs \<longleftrightarrow> (\<forall>i<length rs. \<forall>j<length rs. i \<noteq> j \<longrightarrow> rdisj (rs ! i) (rs ! j))"

definition address_partition :: "ssabb list \<Rightarrow> bool" where
  "address_partition bs \<longleftrightarrow> part_ok (map range_of bs)"

subsection \<open>Edges\<close>

text \<open>
  The pattern \<open>a->outBlocks.insert (b); getBlock (b)->inBlocks.insert (a)\<close> of the
  lowering engine and the resolver.
\<close>

definition link :: "hid \<Rightarrow> hid \<Rightarrow> ssarep \<Rightarrow> ssarep" where
  "link a b r = insert_in b a (insert_out a b r)"

subsection \<open>Splitting a block\<close>

text \<open>The label test of \<open>splitBasicBlock\<close> (line 305).\<close>

definition is_label_at :: "addr \<Rightarrow> ssaexpr \<Rightarrow> bool" where
  "is_label_at a e \<longleftrightarrow> e_type e = eLabel \<and> e_args e \<noteq> [] \<and> arg_kind (hd (e_args e)) = AUInt a"

text \<open>
  The inner loop over the block's node ids (lines 302--305); \<open>assert (expr)\<close> fails on
  an id the node store does not hold.
\<close>

fun label_pos :: "ssarep \<Rightarrow> addr \<Rightarrow> hid list \<Rightarrow> nat option result" where
  "label_pos r a [] = Inr None"
| "label_pos r a (i # is) =
     (case get_expr r i of
        None \<Rightarrow> Inl AssertFail
      | Some e \<Rightarrow> if is_label_at a e then Inr (Some 0)
                  else bind_r (label_pos r a is) (\<lambda>p. Inr (map_option Suc p)))"

text \<open>
  The split itself (lines 307--321): block \<open>i\<close> of the store keeps the nodes before
  the label and ends at the label's address; a new block takes the nodes from the label
  on, the old end address, fallthrough and out-edges, and has the old block as its only
  in-edge; the old block falls through to the new one, which is its only out-edge.
\<close>

definition split_block :: "ssarep \<Rightarrow> nat \<Rightarrow> addr \<Rightarrow> nat \<Rightarrow> ssarep \<times> hid" where
  "split_block r i a k =
     (let bb = bbs r ! i;
          oldId = bb_id bb;
          r1 = r\<lparr>bbs := (bbs r)[i := bb\<lparr>bb_end := a, bb_exprs := take k (bb_exprs bb)\<rparr>]\<rparr>;
          created = \<lparr>bb_id = 0, bb_fallthrough = bb_fallthrough bb, bb_start = a, bb_end = bb_end bb,
                     bb_exprs = drop k (bb_exprs bb), bb_in = {oldId}, bb_out = bb_out bb\<rparr>;
          (r2, nid) = push_bb r1 created
      in (update_bb oldId (\<lambda>b. b\<lparr>bb_fallthrough := nid, bb_out := {nid}\<rparr>) r2, nid))"

text \<open>The outer loop over the blocks (lines 297--325), with the block's position.\<close>

fun split_scan :: "ssarep \<Rightarrow> addr \<Rightarrow> nat \<Rightarrow> ssabb list \<Rightarrow> (ssarep \<times> hid) result" where
  "split_scan r a i [] = Inr (r, 0)"
| "split_scan r a i (bb # rest) =
     (if bb_start bb = a then Inr (r, bb_id bb)
      else if bb_start bb < a \<and> a \<le> bb_end bb then
        bind_r (label_pos r a (bb_exprs bb))
          (\<lambda>p. case p of
                 Some k \<Rightarrow> Inr (split_block r i a k)
               | None \<Rightarrow> split_scan r a (Suc i) rest)
      else split_scan r a (Suc i) rest)"

definition splitBasicBlock :: "ssarep \<Rightarrow> addr \<Rightarrow> (ssarep \<times> hid) result" where
  "splitBasicBlock r a = split_scan r a 0 (bbs r)"

definition scan_result :: "ssarep \<Rightarrow> addr \<Rightarrow> nat \<Rightarrow> ssabb list \<Rightarrow> ssarep \<times> hid \<Rightarrow> bool" where
  "scan_result r a i bs res \<longleftrightarrow>
   (fst res = r \<and> (snd res = 0 \<or> (\<exists>b\<in>set bs. bb_start b = a \<and> bb_id b = snd res))) \<or>
   (\<exists>j k. i \<le> j \<and> j < length (bbs r) \<and> bb_start (bbs r ! j) < a \<and> a \<le> bb_end (bbs r ! j) \<and>
      (\<forall>m. i \<le> m \<and> m < j \<longrightarrow> bb_start (bbs r ! m) \<noteq> a) \<and>
      label_pos r a (bb_exprs (bbs r ! j)) = Inr (Some k) \<and> res = split_block r j a k)"

text \<open>
  The scenario of section 8: one block spanning \<open>[0x10, 0x20)\<close> with labels at 0x10
  and 0x18, followed by a block at 0x20 that it branches to; and the store the split at
  0x18 produces.
\<close>

definition ex_label :: "hid \<Rightarrow> addr \<Rightarrow> ssaexpr" where
  "ex_label i a = (blank_expr eLabel)\<lparr>e_id := i, e_args := [mk_arg (AUInt a) 64]\<rparr>"

definition ex_split_store :: ssarep where
  "ex_split_store =
     \<lparr>bbs = [\<lparr>bb_id = 1, bb_fallthrough = 0, bb_start = 0x10, bb_end = 0x20, bb_exprs = [1, 2],
              bb_in = {}, bb_out = {2}\<rparr>,
            \<lparr>bb_id = 2, bb_fallthrough = 0, bb_start = 0x20, bb_end = 0x30, bb_exprs = [3],
              bb_in = {1}, bb_out = {}\<rparr>],
      bb_gen = 2,
      exprs = [ex_label 1 0x10, ex_label 2 0x18, ex_label 3 0x20],
      expr_gen = 3\<rparr>"

definition ex_split_after :: ssarep where
  "ex_split_after = ex_split_store\<lparr>bbs :=
     [\<lparr>bb_id = 1, bb_fallthrough = 3, bb_start = 0x10, bb_end = 0x18, bb_exprs = [1], bb_in = {}, bb_out = {3}\<rparr>,
      \<lparr>bb_id = 2, bb_fallthrough = 0, bb_start = 0x20, bb_end = 0x30, bb_exprs = [3], bb_in = {1}, bb_out = {}\<rparr>,
      \<lparr>bb_id = 3, bb_fallthrough = 0, bb_start = 0x18, bb_end = 0x20, bb_exprs = [2], bb_in = {1}, bb_out = {2}\<rparr>],
     bb_gen := 3\<rparr>"

subsection \<open>Lemmas: address ranges\<close>

lemma rdisj_sym: "rdisj x y = rdisj y x"
  by (auto simp: rdisj_def)

lemma rdisj_sub:
  "rdisj x (s, e) \<Longrightarrow> s \<le> s' \<Longrightarrow> e' \<le> e \<Longrightarrow> rdisj x (s', e')"
  unfolding rdisj_def by (auto intro: order_trans)

lemma rdisj_sub_start: "rdisj x (s, e) \<Longrightarrow> s \<le> s' \<Longrightarrow> rdisj x (s', e)"
  by (erule rdisj_sub) simp_all

lemma rdisj_sub_end: "rdisj x (s, e) \<Longrightarrow> e' \<le> e \<Longrightarrow> rdisj x (s, e')"
  by (erule rdisj_sub) simp_all

lemma part_ok_split:
  assumes P: "part_ok rs" and j: "j < length rs" and rj: "rs ! j = (s, e)" and sa: "s < a" and ae: "a \<le> e"
  shows "part_ok (rs[j := (s, a)] @ [(a, e)])"
  unfolding part_ok_def
proof (intro allI impI)
  fix i m
  assume i: "i < length (rs[j := (s, a)] @ [(a, e)])" and m: "m < length (rs[j := (s, a)] @ [(a, e)])" and im: "i \<noteq> m"
  have other: "\<And>x. x < length rs \<Longrightarrow> x \<noteq> j \<Longrightarrow> rdisj (rs ! x) (s, e)"
    using P j rj unfolding part_ok_def by metis
  have self: "rdisj (s, a) (a, e)" by (simp add: rdisj_def)
  have sa': "s \<le> a" using sa by simp
  have last: "\<And>x. x < length rs \<Longrightarrow> rdisj ((rs[j := (s, a)]) ! x) (a, e)"
  proof -
    fix x assume x: "x < length rs"
    show "rdisj ((rs[j := (s, a)]) ! x) (a, e)"
    proof (cases "x = j")
      case True
      with x self show ?thesis by simp
    next
      case False
      with x other [of x] sa' show ?thesis by (simp add: rdisj_sub_start)
    qed
  qed
  have inner: "\<And>x y. x < length rs \<Longrightarrow> y < length rs \<Longrightarrow> x \<noteq> y \<Longrightarrow>
      rdisj ((rs[j := (s, a)]) ! x) ((rs[j := (s, a)]) ! y)"
    using P j rj ae unfolding part_ok_def
    by (auto simp: nth_list_update rdisj_sym intro: rdisj_sub_end [OF other])
  show "rdisj ((rs[j := (s, a)] @ [(a, e)]) ! i) ((rs[j := (s, a)] @ [(a, e)]) ! m)"
  proof (cases "i < length rs")
    case True
    show ?thesis
    proof (cases "m < length rs")
      case True
      with \<open>i < length rs\<close> im inner show ?thesis by (simp add: nth_append)
    next
      case False
      with m have "m = length rs" by simp
      with True last show ?thesis by (simp add: nth_append)
    qed
  next
    case False
    with i have "i = length rs" by simp
    with m im have "m < length rs" by simp
    with \<open>i = length rs\<close> last show ?thesis by (simp add: nth_append rdisj_sym)
  qed
qed

subsection \<open>Lemmas: the scan of \<open>splitBasicBlock\<close>\<close>

lemma scan_result_skip:
  assumes r: "scan_result r a (Suc i) rest res" and bb: "bbs r ! i = bb" and ne: "bb_start bb \<noteq> a"
  shows "scan_result r a i (bb # rest) res"
proof -
  from r consider (same) "fst res = r" "snd res = 0 \<or> (\<exists>b\<in>set rest. bb_start b = a \<and> bb_id b = snd res)"
    | (split) j k where "Suc i \<le> j" "j < length (bbs r)" "bb_start (bbs r ! j) < a" "a \<le> bb_end (bbs r ! j)"
      "\<forall>m. Suc i \<le> m \<and> m < j \<longrightarrow> bb_start (bbs r ! m) \<noteq> a"
      "label_pos r a (bb_exprs (bbs r ! j)) = Inr (Some k)" "res = split_block r j a k"
    unfolding scan_result_def by blast
  then show ?thesis
  proof cases
    case same
    then show ?thesis unfolding scan_result_def by auto
  next
    case (split j k)
    from all_from_Suc [OF split(5)] bb ne
    have "\<forall>m. i \<le> m \<and> m < j \<longrightarrow> bb_start (bbs r ! m) \<noteq> a" by blast
    with split show ?thesis unfolding scan_result_def
      by (intro disjI2 exI [of _ j] exI [of _ k]) simp
  qed
qed

lemma split_scan_cases:
  "split_scan r a i bs = Inr res \<Longrightarrow> drop i (bbs r) = bs \<Longrightarrow> scan_result r a i bs res"
proof (induction bs arbitrary: i)
  case Nil
  then show ?case by (cases res) (auto simp: scan_result_def)
next
  case (Cons bb rest)
  from drop_Cons_nth [OF Cons.prems(2)] have i: "i < length (bbs r)" "bbs r ! i = bb"
    "drop (Suc i) (bbs r) = rest" by auto
  show ?case
  proof (cases "bb_start bb = a")
    case True
    with Cons.prems(1) show ?thesis by (auto simp: scan_result_def)
  next
    case ne: False
    show ?thesis
    proof (cases "bb_start bb < a \<and> a \<le> bb_end bb")
      case span: True
      show ?thesis
      proof (cases "label_pos r a (bb_exprs bb)")
        case (Inl e)
        with Cons.prems(1) ne span show ?thesis by simp
      next
        case (Inr p)
        show ?thesis
        proof (cases p)
          case None
          with Cons.prems(1) ne span Inr have "split_scan r a (Suc i) rest = Inr res" by simp
          from Cons.IH [OF this i(3)] i(2) ne show ?thesis by (rule scan_result_skip)
        next
          case (Some k)
          with Cons.prems(1) ne span Inr i show ?thesis
            unfolding scan_result_def by (intro disjI2 exI [of _ i] exI [of _ k]) auto
        qed
      qed
    next
      case False
      with Cons.prems(1) ne have "split_scan r a (Suc i) rest = Inr res" by simp
      from Cons.IH [OF this i(3)] i(2) ne show ?thesis by (rule scan_result_skip)
    qed
  qed
qed

subsection \<open>Lemmas: one split\<close>

lemma split_block_bbs:
  "bbs (fst (split_block r j a k)) =
     update_where (\<lambda>b. bb_id b = bb_id (bbs r ! j))
       (\<lambda>b. b\<lparr>bb_fallthrough := Suc (bb_gen r), bb_out := {Suc (bb_gen r)}\<rparr>)
       ((bbs r)[j := (bbs r ! j)\<lparr>bb_end := a, bb_exprs := take k (bb_exprs (bbs r ! j))\<rparr>] @
        [\<lparr>bb_id = Suc (bb_gen r), bb_fallthrough = bb_fallthrough (bbs r ! j), bb_start = a,
          bb_end = bb_end (bbs r ! j), bb_exprs = drop k (bb_exprs (bbs r ! j)),
          bb_in = {bb_id (bbs r ! j)}, bb_out = bb_out (bbs r ! j)\<rparr>])"
  by (simp add: split_block_def Let_def push_bb_def)

lemma split_block_id [simp]: "snd (split_block r j a k) = Suc (bb_gen r)"
  by (simp add: split_block_def Let_def push_bb_def)

lemma split_block_exprs [simp]: "exprs (fst (split_block r j a k)) = exprs r"
  by (simp add: split_block_def Let_def push_bb_def)

lemma split_block_gen [simp]: "bb_gen (fst (split_block r j a k)) = Suc (bb_gen r)"
  by (simp add: split_block_def Let_def push_bb_def)

lemma split_block_ranges:
  "j < length (bbs r) \<Longrightarrow>
   map range_of (bbs (fst (split_block r j a k))) =
     (map range_of (bbs r))[j := (bb_start (bbs r ! j), a)] @ [(a, bb_end (bbs r ! j))]"
  by (simp add: split_block_bbs map_update_where range_of_def map_update)

lemma split_block_nodes:
  "j < length (bbs r) \<Longrightarrow>
   mset (concat (map bb_exprs (bbs (fst (split_block r j a k))))) = mset (concat (map bb_exprs (bbs r)))"
proof -
  assume j: "j < length (bbs r)"
  have "map bb_exprs (bbs (fst (split_block r j a k))) =
    (map bb_exprs (bbs r))[j := take k (map bb_exprs (bbs r) ! j)] @ [drop k (map bb_exprs (bbs r) ! j)]"
    using j by (simp add: split_block_bbs map_update_where map_update)
  with j mset_concat_split [of j "map bb_exprs (bbs r)" k] show ?thesis by simp
qed

lemma split_block_ids:
  "j < length (bbs r) \<Longrightarrow> map bb_id (bbs (fst (split_block r j a k))) = map bb_id (bbs r) @ [Suc (bb_gen r)]"
  by (simp add: split_block_bbs map_update_where map_update map_update_same)

lemma ids_ok_fresh: "ids_ok r \<Longrightarrow> Suc (bb_gen r) \<notin> set (map bb_id (bbs r))"
  by (auto simp: ids_ok_def)

lemma split_block_ids_ok:
  "ids_ok r \<Longrightarrow> j < length (bbs r) \<Longrightarrow> ids_ok (fst (split_block r j a k))"
  using ids_ok_fresh [of r] by (auto simp: ids_ok_def split_block_ids)

lemma split_block_shape:
  assumes ids: "ids_ok r" and j: "j < length (bbs r)"
  shows "getBlock (fst (split_block r j a k)) (bb_id (bbs r ! j)) =
           Some ((bbs r ! j)\<lparr>bb_fallthrough := Suc (bb_gen r), bb_end := a,
                 bb_exprs := take k (bb_exprs (bbs r ! j)), bb_out := {Suc (bb_gen r)}\<rparr>) \<and>
         getBlock (fst (split_block r j a k)) (Suc (bb_gen r)) =
           Some \<lparr>bb_id = Suc (bb_gen r), bb_fallthrough = bb_fallthrough (bbs r ! j), bb_start = a,
                 bb_end = bb_end (bbs r ! j), bb_exprs = drop k (bb_exprs (bbs r ! j)),
                 bb_in = {bb_id (bbs r ! j)}, bb_out = bb_out (bbs r ! j)\<rparr>"
proof -
  let ?r' = "fst (split_block r j a k)"
  have dist: "distinct (map bb_id (bbs ?r'))"
    using split_block_ids_ok [OF ids j] by (simp add: ids_ok_def)
  have fresh: "Suc (bb_gen r) \<noteq> bb_id (bbs r ! j)"
  proof -
    have "bb_id (bbs r ! j) \<in> set (map bb_id (bbs r))" using j by simp
    with ids_ok_fresh [OF ids] show ?thesis by auto
  qed
  have len: "length (bbs ?r') = Suc (length (bbs r))"
    by (simp add: split_block_bbs)
  have pj: "bbs ?r' ! j = (bbs r ! j)\<lparr>bb_fallthrough := Suc (bb_gen r), bb_end := a,
                 bb_exprs := take k (bb_exprs (bbs r ! j)), bb_out := {Suc (bb_gen r)}\<rparr>"
    unfolding split_block_bbs using j by (subst update_where_nth) (simp_all add: nth_append)
  have pn: "bbs ?r' ! length (bbs r) = \<lparr>bb_id = Suc (bb_gen r), bb_fallthrough = bb_fallthrough (bbs r ! j), bb_start = a,
                 bb_end = bb_end (bbs r ! j), bb_exprs = drop k (bb_exprs (bbs r ! j)),
                 bb_in = {bb_id (bbs r ! j)}, bb_out = bb_out (bbs r ! j)\<rparr>"
    unfolding split_block_bbs using fresh by (subst update_where_nth) (simp_all add: nth_append)
  have g1: "getBlock ?r' (bb_id (bbs ?r' ! j)) = Some (bbs ?r' ! j)"
    by (rule getBlock_distinct [OF dist]) (use j len in simp)
  have g2: "getBlock ?r' (bb_id (bbs ?r' ! length (bbs r))) = Some (bbs ?r' ! length (bbs r))"
    by (rule getBlock_distinct [OF dist]) (use len in simp)
  from g1 g2 pj pn show ?thesis by simp
qed

subsection \<open>Lemmas: the edge relations\<close>

lemma mem_out_edges: "(x, y) \<in> out_edges bs \<longleftrightarrow> (\<exists>b\<in>set bs. bb_id b = x \<and> y \<in> bb_out b)"
  unfolding out_edges_def by auto

lemma mem_in_edges: "(x, y) \<in> in_edges bs \<longleftrightarrow> (\<exists>c\<in>set bs. bb_id c = y \<and> x \<in> bb_in c)"
  unfolding in_edges_def by auto

lemma edges_sym_iff: "edges_sym bs \<longleftrightarrow> out_edges bs = in_edges bs"
proof
  assume S: "edges_sym bs"
  show "out_edges bs = in_edges bs"
  proof (rule set_eqI)
    fix e :: "hid \<times> hid"
    obtain x y where e: "e = (x, y)" by (cases e)
    show "e \<in> out_edges bs \<longleftrightarrow> e \<in> in_edges bs"
      using S unfolding e mem_out_edges mem_in_edges edges_sym_def by blast
  qed
next
  assume E: "out_edges bs = in_edges bs"
  have "\<And>x y. (\<exists>b\<in>set bs. bb_id b = x \<and> y \<in> bb_out b) \<longleftrightarrow> (\<exists>c\<in>set bs. bb_id c = y \<and> x \<in> bb_in c)"
    using E by (metis mem_out_edges mem_in_edges)
  then show "edges_sym bs" unfolding edges_sym_def by blast
qed

lemma out_edges_insert_out:
  assumes "i \<in> bb_id ` set (bbs r)"
  shows "out_edges (bbs (insert_out i t r)) = insert (i, t) (out_edges (bbs r))"
proof -
  have "out_edges (bbs (insert_out i t r)) =
    (\<Union>x\<in>set (bbs r). if bb_id x = i then insert (i, t) (Pair (bb_id x) ` bb_out x) else Pair (bb_id x) ` bb_out x)"
    unfolding out_edges_def insert_out_def bbs_update_bb UN_update_where
    by (rule SUP_cong) auto
  also have "\<dots> = insert (i, t) (out_edges (bbs r))"
    unfolding out_edges_def by (rule UN_if_insert) (use assms in auto)
  finally show ?thesis .
qed

lemma in_edges_insert_out: "in_edges (bbs (insert_out i t r)) = in_edges (bbs r)"
  unfolding in_edges_def insert_out_def bbs_update_bb by (rule UN_update_where_same) simp

lemma in_edges_insert_in:
  assumes "i \<in> bb_id ` set (bbs r)"
  shows "in_edges (bbs (insert_in i s r)) = insert (s, i) (in_edges (bbs r))"
proof -
  have "in_edges (bbs (insert_in i s r)) =
    (\<Union>x\<in>set (bbs r). if bb_id x = i then insert (s, i) ((\<lambda>s. (s, bb_id x)) ` bb_in x) else (\<lambda>s. (s, bb_id x)) ` bb_in x)"
    unfolding in_edges_def insert_in_def bbs_update_bb UN_update_where
    by (rule SUP_cong) auto
  also have "\<dots> = insert (s, i) (in_edges (bbs r))"
    unfolding in_edges_def by (rule UN_if_insert) (use assms in auto)
  finally show ?thesis .
qed

lemma out_edges_insert_in: "out_edges (bbs (insert_in i s r)) = out_edges (bbs r)"
  unfolding out_edges_def insert_in_def bbs_update_bb by (rule UN_update_where_same) simp

lemma out_edges_link:
  "a \<in> bb_id ` set (bbs r) \<Longrightarrow> out_edges (bbs (link a b r)) = insert (a, b) (out_edges (bbs r))"
  by (simp add: link_def out_edges_insert_in out_edges_insert_out)

lemma in_edges_link:
  "b \<in> bb_id ` set (bbs r) \<Longrightarrow> in_edges (bbs (link a b r)) = insert (a, b) (in_edges (bbs r))"
  by (simp add: link_def in_edges_insert_in in_edges_insert_out)

subsection \<open>Lemmas: the edges of one split\<close>

lemma ids_ok_same_id:
  "ids_ok r \<Longrightarrow> j < length (bbs r) \<Longrightarrow> b \<in> set (bbs r) \<Longrightarrow> bb_id b = bb_id (bbs r ! j) \<Longrightarrow>
   b = bbs r ! j"
  unfolding ids_ok_def by (metis in_set_conv_nth nth_eq_iff_index_eq length_map nth_map)

lemma split_block_set:
  assumes ids: "ids_ok r" and j: "j < length (bbs r)"
  shows "set (bbs (fst (split_block r j a k))) =
    insert ((bbs r ! j)\<lparr>bb_fallthrough := Suc (bb_gen r), bb_end := a,
                 bb_exprs := take k (bb_exprs (bbs r ! j)), bb_out := {Suc (bb_gen r)}\<rparr>)
    (insert \<lparr>bb_id = Suc (bb_gen r), bb_fallthrough = bb_fallthrough (bbs r ! j), bb_start = a,
          bb_end = bb_end (bbs r ! j), bb_exprs = drop k (bb_exprs (bbs r ! j)),
          bb_in = {bb_id (bbs r ! j)}, bb_out = bb_out (bbs r ! j)\<rparr>
      {b \<in> set (bbs r). bb_id b \<noteq> bb_id (bbs r ! j)})"
proof -
  let ?bs = "bbs r" and ?old = "bb_id (bbs r ! j)"
  have dist: "distinct (map bb_id ?bs)" using ids by (simp add: ids_ok_def)
  then have dbs: "distinct ?bs" by (simp add: distinct_map)
  have fresh: "Suc (bb_gen r) \<noteq> ?old"
    using ids_ok_fresh [OF ids] j by (metis nth_map nth_mem length_map)
  have others: "set ?bs - {?bs ! j} = {b \<in> set ?bs. bb_id b \<noteq> ?old}"
    using ids_ok_same_id [OF ids j] by auto
  have s1: "set (?bs[j := (?bs ! j)\<lparr>bb_end := a, bb_exprs := take k (bb_exprs (?bs ! j))\<rparr>]) =
     insert ((?bs ! j)\<lparr>bb_end := a, bb_exprs := take k (bb_exprs (?bs ! j))\<rparr>) {b \<in> set ?bs. bb_id b \<noteq> ?old}"
    using set_update_distinct [OF dbs j] others by simp
  show ?thesis
    unfolding split_block_bbs update_where_def set_map set_append s1 using fresh by auto
qed

lemma split_block_out_edges:
  assumes ids: "ids_ok r" and j: "j < length (bbs r)"
  shows "out_edges (bbs (fst (split_block r j a k))) =
    insert (bb_id (bbs r ! j), Suc (bb_gen r))
      ({e \<in> out_edges (bbs r). fst e \<noteq> bb_id (bbs r ! j)} \<union> Pair (Suc (bb_gen r)) ` bb_out (bbs r ! j))"
  unfolding out_edges_def split_block_set [OF ids j] by auto

lemma split_block_in_edges:
  assumes ids: "ids_ok r" and j: "j < length (bbs r)"
  shows "in_edges (bbs (fst (split_block r j a k))) = insert (bb_id (bbs r ! j), Suc (bb_gen r)) (in_edges (bbs r))"
  unfolding in_edges_def split_block_set [OF ids j] using j ids_ok_same_id [OF ids j]
  by (auto intro: nth_mem)

lemma split_block_sym:
  assumes ids: "ids_ok r" and j: "j < length (bbs r)" and sym: "edges_sym (bbs r)"
  shows "edges_sym (bbs (fst (split_block r j a k))) \<longleftrightarrow> bb_out (bbs r ! j) = {}"
proof -
  let ?bs = "bbs r" and ?old = "bb_id (bbs r ! j)" and ?n = "Suc (bb_gen r)"
  have eq: "out_edges ?bs = in_edges ?bs" using sym by (simp add: edges_sym_iff)
  have fresh: "?n \<noteq> ?old"
    using ids_ok_fresh [OF ids] j by (metis nth_map nth_mem length_map)
  have bj: "?bs ! j \<in> set ?bs" using j by simp
  show ?thesis
  proof
    assume S: "edges_sym (bbs (fst (split_block r j a k)))"
    show "bb_out (?bs ! j) = {}"
    proof (rule ccontr)
      assume "bb_out (?bs ! j) \<noteq> {}"
      then obtain y where y: "y \<in> bb_out (?bs ! j)" by blast
      then have o: "(?old, y) \<in> out_edges ?bs" using bj by (auto simp: mem_out_edges)
      then obtain c where c: "c \<in> set ?bs" "bb_id c = y" using eq by (auto simp: mem_in_edges)
      then have yn: "y \<noteq> ?n" using ids_ok_fresh [OF ids] by force
      have "(?old, y) \<in> in_edges (bbs (fst (split_block r j a k)))"
        using o eq by (simp add: split_block_in_edges [OF ids j])
      moreover have "(?old, y) \<notin> out_edges (bbs (fst (split_block r j a k)))"
        using yn fresh by (auto simp: split_block_out_edges [OF ids j])
      ultimately show False using S by (simp add: edges_sym_iff)
    qed
  next
    assume O: "bb_out (?bs ! j) = {}"
    have "{e \<in> out_edges ?bs. fst e \<noteq> ?old} = out_edges ?bs"
      using O ids_ok_same_id [OF ids j] by (force simp: mem_out_edges)
    then show "edges_sym (bbs (fst (split_block r j a k)))"
      using O eq by (simp add: edges_sym_iff split_block_out_edges [OF ids j] split_block_in_edges [OF ids j])
  qed
qed

subsection \<open>Properties of \<open>splitBasicBlock\<close>\<close>

lemma splitBasicBlock_cases:
  "splitBasicBlock r a = Inr (r', n) \<Longrightarrow>
   (r' = r \<and> (n = 0 \<or> (\<exists>b\<in>set (bbs r). bb_start b = a \<and> bb_id b = n))) \<or>
   (\<exists>j k. j < length (bbs r) \<and> bb_start (bbs r ! j) < a \<and> a \<le> bb_end (bbs r ! j) \<and>
      label_pos r a (bb_exprs (bbs r ! j)) = Inr (Some k) \<and>
      r' = fst (split_block r j a k) \<and> n = Suc (bb_gen r))"
  using split_scan_cases [of r a 0 "bbs r" "(r', n)"]
  unfolding splitBasicBlock_def scan_result_def by (auto dest!: pair_eq_fst_snd)

text \<open>C10.  Splitting never loses or duplicates a node: the node store is unchanged and
  the blocks' node lists hold the same multiset of ids as before.\<close>

theorem splitBasicBlock_keeps_nodes:
  "splitBasicBlock r a = Inr (r', n) \<Longrightarrow>
   exprs r' = exprs r \<and> mset (concat (map bb_exprs (bbs r'))) = mset (concat (map bb_exprs (bbs r)))"
  by (drule splitBasicBlock_cases) (auto simp: split_block_nodes)

text \<open>C11.  Splitting preserves the address partition: if no two blocks' ranges overlap
  before, none overlap after (the two halves \<open>[start, addr)\<close> and \<open>[addr, end)\<close>
  lie inside the old range).\<close>

theorem splitBasicBlock_partition:
  "address_partition (bbs r) \<Longrightarrow> splitBasicBlock r a = Inr (r', n) \<Longrightarrow> address_partition (bbs r')"
proof -
  assume P: "address_partition (bbs r)" and S: "splitBasicBlock r a = Inr (r', n)"
  from splitBasicBlock_cases [OF S] consider (same) "r' = r"
    | (split) j k where "j < length (bbs r)" "bb_start (bbs r ! j) < a" "a \<le> bb_end (bbs r ! j)"
        "r' = fst (split_block r j a k)"
    by blast
  then show ?thesis
  proof cases
    case same
    then show ?thesis using P by simp
  next
    case (split j k)
    have "part_ok ((map range_of (bbs r))[j := (bb_start (bbs r ! j), a)] @ [(a, bb_end (bbs r ! j))])"
      by (rule part_ok_split [OF P [unfolded address_partition_def]]) (use split in \<open>simp_all add: range_of_def\<close>)
    with split show ?thesis
      by (simp add: address_partition_def split_block_ranges)
  qed
qed

lemma split_scan_unvisited:
  "\<forall>b\<in>set bs. bb_start b \<noteq> a \<and> \<not> (bb_start b < a \<and> a \<le> bb_end b) \<Longrightarrow> split_scan r a i bs = Inr (r, 0)"
  by (induction bs arbitrary: i) auto

text \<open>C12.  An address no block starts at or spans is a permitted terminal state:
  \<open>splitBasicBlock\<close> returns 0 and leaves the store as it is.\<close>

theorem splitBasicBlock_unvisited:
  "\<forall>b\<in>set (bbs r). bb_start b \<noteq> a \<and> \<not> (bb_start b < a \<and> a \<le> bb_end b) \<Longrightarrow>
   splitBasicBlock r a = Inr (r, 0)"
  by (simp add: splitBasicBlock_def split_scan_unvisited)

text \<open>C9.  When \<open>splitBasicBlock\<close> splits (no block starts at the address and it
  returns a non-zero id), it found a block whose range contains the address and a label
  at the address in it; the old block keeps the nodes before the label, ends at the
  address, falls through to the new block and has it as its only out-edge; the new block
  has the next fresh id, the nodes from the label on, the old end address, fallthrough
  and out-edges, and the old block as its only in-edge.\<close>

theorem splitBasicBlock_shape:
  "splitBasicBlock r a = Inr (r', n) \<Longrightarrow> ids_ok r \<Longrightarrow> n \<noteq> 0 \<Longrightarrow> \<forall>b\<in>set (bbs r). bb_start b \<noteq> a \<Longrightarrow>
   \<exists>old k. old \<in> set (bbs r) \<and> bb_start old < a \<and> a \<le> bb_end old \<and>
     label_pos r a (bb_exprs old) = Inr (Some k) \<and> n = Suc (bb_gen r) \<and>
     getBlock r' (bb_id old) =
       Some (old\<lparr>bb_fallthrough := n, bb_end := a, bb_exprs := take k (bb_exprs old), bb_out := {n}\<rparr>) \<and>
     getBlock r' n =
       Some \<lparr>bb_id = n, bb_fallthrough = bb_fallthrough old, bb_start = a, bb_end = bb_end old,
             bb_exprs = drop k (bb_exprs old), bb_in = {bb_id old}, bb_out = bb_out old\<rparr>"
proof -
  assume S: "splitBasicBlock r a = Inr (r', n)" and ids: "ids_ok r" and n: "n \<noteq> 0"
    and na: "\<forall>b\<in>set (bbs r). bb_start b \<noteq> a"
  from splitBasicBlock_cases [OF S] n na obtain j k where j: "j < length (bbs r)"
    and sa: "bb_start (bbs r ! j) < a" and ae: "a \<le> bb_end (bbs r ! j)"
    and lp: "label_pos r a (bb_exprs (bbs r ! j)) = Inr (Some k)" and r': "r' = fst (split_block r j a k)"
    and nv: "n = Suc (bb_gen r)"
    by blast
  show ?thesis
    using split_block_shape [OF ids j, of a k] j sa ae lp
    by (intro exI [of _ "bbs r ! j"] exI [of _ k]) (simp add: r' nv)
qed


lemma ex_split_result: "splitBasicBlock ex_split_store 0x18 = Inr (ex_split_after, 3)"
  by (simp add: splitBasicBlock_def ex_split_store_def ex_split_after_def split_block_def Let_def
      store_simps ex_label_def is_label_at_def ir_defs)

lemma ex_split_ids_ok: "ids_ok ex_split_store"
  by (simp add: ids_ok_def ex_split_store_def)

theorem splitBasicBlock_shape_witness:
  "\<exists>old k. old \<in> set (bbs ex_split_store) \<and> bb_start old < 0x18 \<and> 0x18 \<le> bb_end old \<and>
     label_pos ex_split_store 0x18 (bb_exprs old) = Inr (Some k) \<and> (3::hid) = Suc (bb_gen ex_split_store) \<and>
     getBlock ex_split_after (bb_id old) =
       Some (old\<lparr>bb_fallthrough := 3, bb_end := 0x18, bb_exprs := take k (bb_exprs old), bb_out := {3}\<rparr>) \<and>
     getBlock ex_split_after 3 =
       Some \<lparr>bb_id = 3, bb_fallthrough = bb_fallthrough old, bb_start = 0x18, bb_end = bb_end old,
             bb_exprs = drop k (bb_exprs old), bb_in = {bb_id old}, bb_out = bb_out old\<rparr>"
  by (rule splitBasicBlock_shape [OF ex_split_result ex_split_ids_ok])
     (simp_all add: ex_split_store_def)

theorem splitBasicBlock_keeps_nodes_witness:
  "exprs ex_split_after = exprs ex_split_store \<and>
   mset (concat (map bb_exprs (bbs ex_split_after))) = mset (concat (map bb_exprs (bbs ex_split_store)))"
  by (rule splitBasicBlock_keeps_nodes [OF ex_split_result])

theorem splitBasicBlock_partition_witness:
  "address_partition (bbs ex_split_store) \<and> address_partition (bbs ex_split_after)"
proof -
  have p: "address_partition (bbs ex_split_store)"
    by (simp add: address_partition_def part_ok_def ex_split_store_def range_of_def rdisj_def
        less_Suc_eq nth_Cons')
  show ?thesis using p splitBasicBlock_partition [OF p ex_split_result] by simp
qed

theorem splitBasicBlock_unvisited_witness:
  "splitBasicBlock ex_split_store 0x40 = Inr (ex_split_store, 0)"
  by (rule splitBasicBlock_unvisited) (simp add: ex_split_store_def)

text \<open>C13.  Splitting breaks edge symmetry whenever the split block had a successor:
  \<open>splitBasicBlock\<close> moves \<open>outBlocks\<close> to the new block but never rewrites the
  successors' \<open>inBlocks\<close>, which still name the old block.  Over a symmetric store
  with unique ids, the store after a split is symmetric exactly when the split block
  had no out-edges.\<close>

theorem split_breaks_edge_symmetry:
  "splitBasicBlock r a = Inr (r', n) \<Longrightarrow> ids_ok r \<Longrightarrow> n \<noteq> 0 \<Longrightarrow> \<forall>b\<in>set (bbs r). bb_start b \<noteq> a \<Longrightarrow>
   edges_sym (bbs r) \<Longrightarrow>
   \<exists>old\<in>set (bbs r). bb_start old < a \<and> a \<le> bb_end old \<and> (edges_sym (bbs r') \<longleftrightarrow> bb_out old = {})"
proof -
  assume S: "splitBasicBlock r a = Inr (r', n)" and ids: "ids_ok r" and n: "n \<noteq> 0"
    and na: "\<forall>b\<in>set (bbs r). bb_start b \<noteq> a" and sym: "edges_sym (bbs r)"
  from splitBasicBlock_cases [OF S] n na obtain j k where j: "j < length (bbs r)"
    and sa: "bb_start (bbs r ! j) < a" and ae: "a \<le> bb_end (bbs r ! j)"
    and r': "r' = fst (split_block r j a k)"
    by blast
  show ?thesis
    using split_block_sym [OF ids j sym, of a k] j sa ae r' by (intro bexI [of _ "bbs r ! j"]) simp_all
qed

theorem split_breaks_edge_symmetry_witness:
  "\<exists>old\<in>set (bbs ex_split_store). bb_start old < 0x18 \<and> 0x18 \<le> bb_end old \<and>
     (edges_sym (bbs ex_split_after) \<longleftrightarrow> bb_out old = {})"
proof -
  have sym: "edges_sym (bbs ex_split_store)" by (simp add: edges_sym_def ex_split_store_def)
  show ?thesis
    by (rule split_breaks_edge_symmetry [OF ex_split_result ex_split_ids_ok _ _ sym])
       (simp_all add: ex_split_store_def)
qed

end
