(* ===== verification/Resolver.thy ===== *)
theory Resolver
  imports Blocks
begin

text \<open>
  The Address-to-Block Resolver (section 4.7 of the specification),
  src/main/SSAAddressToBlockTransformer.cpp.  \<open>atb_parseExpression\<close> is
  \<open>SSAAddressToBlockTransformer::parseExpression\<close> (lines 25--78): a branch whose
  target is a literal address is rewritten to a reference to the first block starting
  there, with the edge recorded on both blocks; a branch with a computed target gets a
  read of every top-level register appended.  \<open>atb_parseBlock\<close> is
  \<open>parseBlock\<close> (lines 10--24): a block without fallthrough that does not end in a
  return is linked to the first block starting at its end address.  The driver that
  walks the blocks (\<open>HSSATransformParser\<close>) is not in the sources; \<open>resolve\<close>
  follows the specification: every node of every block, then the block itself.
  The lemmas show that the pass keeps the CFG edge-symmetric, the result of each
  branch kind, the fallthrough linking, and two behaviours outside the specification:
  the pass is not idempotent, and it links a fallthrough after an unconditional jump.
\<close>

text \<open>\<open>SSAArgument::createBlock\<close>.\<close>

definition createBlock :: "hid \<Rightarrow> ssaarg" where
  "createBlock i = mk_arg (ABlock i) 0"

text \<open>
  The search-and-link loop that occurs three times in \<open>parseExpression\<close> (lines 31--37,
  48--54, 66--72): the first block starting at address \<open>v\<close> becomes the target, the
  edge is recorded on both sides, and the argument becomes a block reference; without
  such a block the argument and the store are unchanged.
\<close>

definition resolve_target :: "hid \<Rightarrow> addr \<Rightarrow> ssaarg \<Rightarrow> ssarep \<Rightarrow> ssarep \<times> ssaarg" where
  "resolve_target blk v arg r =
     (case List.find (\<lambda>bb. bb_start bb = v) (bbs r) of
        Some bb \<Rightarrow> (link blk (bb_id bb) r, createBlock (bb_id bb))
      | None \<Rightarrow> (r, arg))"

text \<open>
  The branch on the target's type for \<open>eJmp\<close> (argument 0) and \<open>eCJmp\<close> (argument 1):
  a literal is resolved, anything else gets the top-level registers appended.
\<close>

definition resolve_branch_arg :: "arch \<Rightarrow> hid \<Rightarrow> hid \<Rightarrow> nat \<Rightarrow> ssaexpr \<Rightarrow> ssarep \<Rightarrow> ssarep result" where
  "resolve_branch_arg a blk i n e r =
     (if n < length (e_args e) then
        (case arg_kind (e_args e ! n) of
           AUInt v \<Rightarrow>
             (let (r1, arg') = resolve_target blk v (e_args e ! n) r
              in Inr (update_expr i (\<lambda>x. x\<lparr>e_args := (e_args x)[n := arg']\<rparr>) r1))
         | _ \<Rightarrow> Inr (update_expr i (\<lambda>x. x\<lparr>e_args := e_args x @ map createRegArg (top_regs a)\<rparr>) r))
      else Inl AssertFail)"

text \<open>The multi-branch loop over the arguments from the second on (lines 64--74).\<close>

fun resolve_multi :: "hid \<Rightarrow> ssaarg list \<Rightarrow> ssarep \<Rightarrow> ssarep \<times> ssaarg list" where
  "resolve_multi blk [] r = (r, [])"
| "resolve_multi blk (x # xs) r =
     (case arg_kind x of
        AUInt v \<Rightarrow> (let (r1, x') = resolve_target blk v x r; (r2, xs') = resolve_multi blk xs r1 in (r2, x' # xs'))
      | _ \<Rightarrow> (let (r2, xs') = resolve_multi blk xs r in (r2, x # xs')))"

definition atb_parseExpression :: "arch \<Rightarrow> hid \<Rightarrow> hid \<Rightarrow> ssarep \<Rightarrow> ssarep result" where
  "atb_parseExpression a blk i r =
     (case get_expr r i of
        None \<Rightarrow> Inl (UnknownExpr i)
      | Some e \<Rightarrow>
          (case e_type e of
             eJmp \<Rightarrow> resolve_branch_arg a blk i 0 e r
           | eCJmp \<Rightarrow> resolve_branch_arg a blk i 1 e r
           | eMultiBranch \<Rightarrow>
               (case e_args e of
                  [] \<Rightarrow> Inl AssertFail
                | x # xs \<Rightarrow>
                    (let (r1, xs') = resolve_multi blk xs r
                     in Inr (update_expr i (\<lambda>y. y\<lparr>e_args := x # xs'\<rparr>) r1)))
           | _ \<Rightarrow> Inr r))"

definition atb_parseBlock :: "hid \<Rightarrow> ssarep \<Rightarrow> ssarep result" where
  "atb_parseBlock blk r =
     (case getBlock r blk of
        None \<Rightarrow> Inl (UnknownBlock blk)
      | Some b \<Rightarrow>
          (let ends_in_return =
             (if bb_exprs b = [] then Inr False
              else (case get_expr r (last (bb_exprs b)) of
                      None \<Rightarrow> Inl (UnknownExpr (last (bb_exprs b)))
                    | Some e \<Rightarrow> Inr (e_type e = eReturn)))
           in bind_r ends_in_return (\<lambda>ret.
                if ret then Inr r
                else if bb_fallthrough b = 0 then
                  (case List.find (\<lambda>bb. bb_start bb = bb_end b) (bbs r) of
                     Some bb \<Rightarrow> Inr (link blk (bb_id bb) (set_fallthrough blk (bb_id bb) r))
                   | None \<Rightarrow> Inr r)
                else Inr r)))"

fun resolve_exprs :: "arch \<Rightarrow> hid \<Rightarrow> hid list \<Rightarrow> ssarep \<Rightarrow> ssarep result" where
  "resolve_exprs a blk [] r = Inr r"
| "resolve_exprs a blk (i # xs) r = bind_r (atb_parseExpression a blk i r) (resolve_exprs a blk xs)"

definition resolve_block :: "arch \<Rightarrow> hid \<Rightarrow> ssarep \<Rightarrow> ssarep result" where
  "resolve_block a blk r =
     (case getBlock r blk of
        None \<Rightarrow> Inl (UnknownBlock blk)
      | Some b \<Rightarrow> bind_r (resolve_exprs a blk (bb_exprs b) r) (atb_parseBlock blk))"

fun resolve_blocks :: "arch \<Rightarrow> hid list \<Rightarrow> ssarep \<Rightarrow> ssarep result" where
  "resolve_blocks a [] r = Inr r"
| "resolve_blocks a (b # bs) r = bind_r (resolve_block a b r) (resolve_blocks a bs)"

definition resolve :: "arch \<Rightarrow> ssarep \<Rightarrow> ssarep result" where
  "resolve a r = resolve_blocks a (map bb_id (bbs r)) r"


subsection \<open>Proof vocabulary\<close>

text \<open>The block identifiers of a store, and the invariant carried through one block.\<close>

definition ids :: "ssarep \<Rightarrow> hid set" where
  "ids r = bb_id ` set (bbs r)"

definition cfg_inv :: "hid \<Rightarrow> ssarep \<Rightarrow> bool" where
  "cfg_inv blk r \<longleftrightarrow> edges_sym (bbs r) \<and> blk \<in> ids r"

subsection \<open>A fixture\<close>

text \<open>
  An architecture with one top-level 64-bit register and one sub-register, and a function
  of three consecutive blocks [0x10,0x14), [0x14,0x18), [0x18,0x1c); the first ends with
  \<open>jmp 0x18\<close>.
\<close>

definition ex_arch :: arch where
  "ex_arch = \<lparr>arch_registers =
     [\<lparr>reg_id = 1, reg_size = 64, reg_parent = 0, reg_offset = 0, reg_clear_parent = False\<rparr>,
      \<lparr>reg_id = 2, reg_size = 32, reg_parent = 1, reg_offset = 0, reg_clear_parent = True\<rparr>],
     arch_stacks = [], arch_memories = [1], arch_default_mem = 1, arch_bitbase = 64, arch_wordbase = 8,
     arch_instrdefs = \<lambda>_. None\<rparr>"

definition ex_jmp :: "hid \<Rightarrow> ssaarg \<Rightarrow> ssaexpr" where
  "ex_jmp i t = (blank_expr eJmp)\<lparr>e_id := i, e_args := [t]\<rparr>"

definition ex_blk :: "hid \<Rightarrow> addr \<Rightarrow> addr \<Rightarrow> hid list \<Rightarrow> ssabb" where
  "ex_blk i s e xs = \<lparr>bb_id = i, bb_fallthrough = 0, bb_start = s, bb_end = e, bb_exprs = xs,
     bb_in = {}, bb_out = {}\<rparr>"

definition ex_jmp_store :: ssarep where
  "ex_jmp_store =
     \<lparr>bbs = [ex_blk 1 0x10 0x14 [1, 2], ex_blk 2 0x14 0x18 [3], ex_blk 3 0x18 0x1c [4]],
      bb_gen = 3,
      exprs = [ex_label 1 0x10, ex_jmp 2 (mk_arg (AUInt 0x18) 64), ex_label 3 0x14, ex_label 4 0x18],
      expr_gen = 4\<rparr>"

text \<open>The store after one run of the pass: the jump targets block 3, and every block falls through.\<close>

definition ex_jmp_resolved :: ssarep where
  "ex_jmp_resolved =
     \<lparr>bbs = [(ex_blk 1 0x10 0x14 [1, 2])\<lparr>bb_fallthrough := 2, bb_out := {2, 3}\<rparr>,
            (ex_blk 2 0x14 0x18 [3])\<lparr>bb_fallthrough := 3, bb_in := {1}, bb_out := {3}\<rparr>,
            (ex_blk 3 0x18 0x1c [4])\<lparr>bb_in := {1, 2}\<rparr>],
      bb_gen = 3,
      exprs = [ex_label 1 0x10, ex_jmp 2 (createBlock 3), ex_label 3 0x14, ex_label 4 0x18],
      expr_gen = 4\<rparr>"

text \<open>
  A second function over the same blocks: block 1 ends with a conditional jump to
  0x40, where no block starts, and block 3 ends with a return.
\<close>

definition ex_cjmp :: "hid \<Rightarrow> ssaarg \<Rightarrow> ssaarg \<Rightarrow> ssaexpr" where
  "ex_cjmp i c t = (blank_expr eCJmp)\<lparr>e_id := i, e_args := [c, t]\<rparr>"

definition ex_branch_store :: ssarep where
  "ex_branch_store = ex_jmp_store\<lparr>exprs :=
     [ex_label 1 0x10, ex_cjmp 2 (mk_arg (AId 1) 1) (mk_arg (AUInt 0x40) 64), ex_label 3 0x14,
      (blank_expr eReturn)\<lparr>e_id := 4\<rparr>]\<rparr>"

lemmas resolver_defs = resolve_def resolve_block_def atb_parseExpression_def atb_parseBlock_def
  resolve_branch_arg_def resolve_target_def createBlock_def

lemmas resolver_fixture = ex_arch_def ex_jmp_def ex_blk_def ex_jmp_store_def ex_jmp_resolved_def
  ex_cjmp_def ex_branch_store_def

subsection \<open>Store lemmas\<close>

lemma exprs_link [simp]: "exprs (link a b r) = exprs r"
  by (simp add: link_def insert_in_def insert_out_def)

lemma get_expr_link [simp]: "get_expr (link a b r) i = get_expr r i"
  by (simp add: get_expr_def)

lemma getBlock_link_fallthrough:
  "map_option bb_fallthrough (getBlock (link a b r) i) = map_option bb_fallthrough (getBlock r i)"
  by (simp add: link_def insert_in_def insert_out_def getBlock_update_bb option.map_comp comp_def)

lemma ids_link [simp]: "ids (link a b r) = ids r"
  by (simp add: ids_def link_def)

lemma ids_set_fallthrough_eq [simp]: "ids (set_fallthrough a b r) = ids r"
  by (simp add: ids_def)

lemma ids_update_expr [simp]: "ids (update_expr i f r) = ids r"
  by (simp add: ids_def)

lemma edges_sym_link:
  "a \<in> ids r \<Longrightarrow> b \<in> ids r \<Longrightarrow> edges_sym (bbs r) \<Longrightarrow> edges_sym (bbs (link a b r))"
  by (simp add: ids_def out_edges_link in_edges_link edges_sym_iff)

lemma out_edges_set_fallthrough [simp]: "out_edges (bbs (set_fallthrough a b r)) = out_edges (bbs r)"
  unfolding out_edges_def set_fallthrough_def bbs_update_bb by (rule UN_update_where_same) simp

lemma in_edges_set_fallthrough [simp]: "in_edges (bbs (set_fallthrough a b r)) = in_edges (bbs r)"
  unfolding in_edges_def set_fallthrough_def bbs_update_bb by (rule UN_update_where_same) simp

lemma edges_sym_set_fallthrough:
  "edges_sym (bbs (set_fallthrough a b r)) = edges_sym (bbs r)"
  by (simp add: edges_sym_iff)

lemma getBlock_set_fallthrough:
  "map_option bb_fallthrough (getBlock (set_fallthrough a b r) a) = map_option (\<lambda>_. b) (getBlock r a)"
  by (simp add: set_fallthrough_def getBlock_update_bb option.map_comp comp_def)

lemma find_start_in_ids: "List.find (\<lambda>bb. bb_start bb = v) (bbs r) = Some bb \<Longrightarrow> bb_id bb \<in> ids r"
  by (auto simp: ids_def dest: find_Some_iff [THEN iffD1])

lemma cfg_inv_update_expr [simp]: "cfg_inv blk (update_expr i f r) = cfg_inv blk r"
  by (simp add: cfg_inv_def)

lemma resolve_target_found:
  "List.find (\<lambda>bb. bb_start bb = v) (bbs r) = Some bb \<Longrightarrow>
   resolve_target blk v x r = (link blk (bb_id bb) r, createBlock (bb_id bb))"
  by (simp add: resolve_target_def)

lemma resolve_target_none:
  "\<forall>bb\<in>set (bbs r). bb_start bb \<noteq> v \<Longrightarrow> resolve_target blk v x r = (r, x)"
  by (simp add: resolve_target_def find_None_iff [THEN iffD2])

subsection \<open>The pass keeps the CFG edge-symmetric\<close>

lemma resolve_target_inv:
  "cfg_inv blk r \<Longrightarrow> resolve_target blk v arg r = (r1, x) \<Longrightarrow> cfg_inv blk r1 \<and> ids r1 = ids r"
  unfolding resolve_target_def cfg_inv_def
  by (auto split: option.splits dest: find_start_in_ids intro: edges_sym_link)

lemma resolve_multi_inv:
  "cfg_inv blk r \<Longrightarrow> resolve_multi blk xs r = (r1, ys) \<Longrightarrow> cfg_inv blk r1 \<and> ids r1 = ids r"
proof (induction xs arbitrary: r r1 ys)
  case Nil
  then show ?case by simp
next
  case (Cons x xs)
  show ?case
  proof (cases "arg_kind x")
    case (AUInt v)
    obtain r2 x' where t: "resolve_target blk v x r = (r2, x')" by fastforce
    obtain r3 xs' where m: "resolve_multi blk xs r2 = (r3, xs')" by fastforce
    from resolve_target_inv [OF Cons.prems(1) t] have "cfg_inv blk r2" "ids r2 = ids r" by auto
    with Cons.IH [OF _ m] Cons.prems(2) AUInt t m show ?thesis by auto
  qed (use Cons in \<open>auto split: prod.splits\<close>)
qed

lemma resolve_branch_arg_indirect:
  "n < length (e_args e) \<Longrightarrow> (\<forall>v. arg_kind (e_args e ! n) \<noteq> AUInt v) \<Longrightarrow>
   resolve_branch_arg a blk i n e r =
     Inr (update_expr i (\<lambda>x. x\<lparr>e_args := e_args x @ map createRegArg (top_regs a)\<rparr>) r)"
  by (simp add: resolve_branch_arg_def split: ssaargtype.split)

lemma resolve_branch_arg_literal:
  "n < length (e_args e) \<Longrightarrow> arg_kind (e_args e ! n) = AUInt v \<Longrightarrow>
   resolve_branch_arg a blk i n e r =
     (let (r1, arg') = resolve_target blk v (e_args e ! n) r
      in Inr (update_expr i (\<lambda>x. x\<lparr>e_args := (e_args x)[n := arg']\<rparr>) r1))"
  by (simp add: resolve_branch_arg_def)

lemma resolve_branch_arg_inv:
  assumes inv: "cfg_inv blk r" and res: "resolve_branch_arg a blk i n e r = Inr r'"
  shows "cfg_inv blk r' \<and> ids r' = ids r"
proof (cases "n < length (e_args e)")
  case True
  show ?thesis
  proof (cases "\<exists>v. arg_kind (e_args e ! n) = AUInt v")
    case True
    then obtain v where v: "arg_kind (e_args e ! n) = AUInt v" by blast
    obtain r1 x where t: "resolve_target blk v (e_args e ! n) r = (r1, x)" by fastforce
    from resolve_target_inv [OF inv t] res resolve_branch_arg_literal [OF \<open>n < length (e_args e)\<close> v] t
    show ?thesis by auto
  next
    case False
    with res resolve_branch_arg_indirect [OF \<open>n < length (e_args e)\<close>] inv show ?thesis by auto
  qed
next
  case False
  with res show ?thesis by (simp add: resolve_branch_arg_def)
qed

lemma atb_parseExpression_other:
  "get_expr r i = Some e \<Longrightarrow> e_type e \<notin> {eJmp, eCJmp, eMultiBranch} \<Longrightarrow> atb_parseExpression a blk i r = Inr r"
  by (simp add: atb_parseExpression_def split: ssaexprtype.split)

lemma atb_parseExpression_jmp:
  "get_expr r i = Some e \<Longrightarrow> e_type e = eJmp \<Longrightarrow> atb_parseExpression a blk i r = resolve_branch_arg a blk i 0 e r"
  by (simp add: atb_parseExpression_def)

lemma atb_parseExpression_cjmp:
  "get_expr r i = Some e \<Longrightarrow> e_type e = eCJmp \<Longrightarrow> atb_parseExpression a blk i r = resolve_branch_arg a blk i 1 e r"
  by (simp add: atb_parseExpression_def)

lemma atb_parseExpression_multi:
  "get_expr r i = Some e \<Longrightarrow> e_type e = eMultiBranch \<Longrightarrow> e_args e = x # xs \<Longrightarrow>
   atb_parseExpression a blk i r =
     (let (r1, xs') = resolve_multi blk xs r in Inr (update_expr i (\<lambda>y. y\<lparr>e_args := x # xs'\<rparr>) r1))"
  by (simp add: atb_parseExpression_def)

lemma atb_parseExpression_inv:
  assumes inv: "cfg_inv blk r" and res: "atb_parseExpression a blk i r = Inr r'"
  shows "cfg_inv blk r' \<and> ids r' = ids r"
proof (cases "get_expr r i")
  case None
  with res show ?thesis by (simp add: atb_parseExpression_def)
next
  case (Some e)
  consider "e_type e = eJmp" | "e_type e = eCJmp" | "e_type e = eMultiBranch"
    | "e_type e \<notin> {eJmp, eCJmp, eMultiBranch}" by blast
  then show ?thesis
  proof cases
    case 1
    from res have "resolve_branch_arg a blk i 0 e r = Inr r'" by (simp only: atb_parseExpression_jmp [OF Some 1])
    from resolve_branch_arg_inv [OF inv this] show ?thesis .
  next
    case 2
    from res have "resolve_branch_arg a blk i 1 e r = Inr r'" by (simp only: atb_parseExpression_cjmp [OF Some 2])
    from resolve_branch_arg_inv [OF inv this] show ?thesis .
  next
    case 3
    show ?thesis
    proof (cases "e_args e")
      case Nil
      with Some 3 res show ?thesis by (simp add: atb_parseExpression_def)
    next
      case (Cons x xs)
      obtain r1 ys where m: "resolve_multi blk xs r = (r1, ys)" by fastforce
      from res atb_parseExpression_multi [OF Some 3 Cons] m
      have "r' = update_expr i (\<lambda>y. y\<lparr>e_args := x # ys\<rparr>) r1" by simp
      with resolve_multi_inv [OF inv m] show ?thesis by simp
    qed
  next
    case 4
    with atb_parseExpression_other [OF Some 4] res inv show ?thesis by simp
  qed
qed

lemma atb_parseBlock_inv:
  assumes inv: "cfg_inv blk r" and res: "atb_parseBlock blk r = Inr r'"
  shows "cfg_inv blk r' \<and> ids r' = ids r"
proof (cases "getBlock r blk")
  case None
  with res show ?thesis by (simp add: atb_parseBlock_def)
next
  case (Some b)
  have link_ok: "\<And>bb. List.find (\<lambda>bb. bb_start bb = bb_end b) (bbs r) = Some bb \<Longrightarrow>
      cfg_inv blk (link blk (bb_id bb) (set_fallthrough blk (bb_id bb) r)) \<and>
      ids (link blk (bb_id bb) (set_fallthrough blk (bb_id bb) r)) = ids r"
    using inv unfolding cfg_inv_def
    by (auto simp: edges_sym_set_fallthrough dest: find_start_in_ids intro!: edges_sym_link)
  from res Some link_ok inv show ?thesis
    unfolding atb_parseBlock_def Let_def
    by (auto split: if_splits option.splits simp: bind_r_Inr)
qed

lemma resolve_exprs_inv:
  "cfg_inv blk r \<Longrightarrow> resolve_exprs a blk xs r = Inr r' \<Longrightarrow> cfg_inv blk r' \<and> ids r' = ids r"
proof (induction xs arbitrary: r)
  case Nil
  then show ?case by simp
next
  case (Cons i xs)
  from Cons.prems(2) obtain r1 where r1: "atb_parseExpression a blk i r = Inr r1"
    and rest: "resolve_exprs a blk xs r1 = Inr r'"
    by (auto simp: bind_r_Inr)
  from atb_parseExpression_inv [OF Cons.prems(1) r1] Cons.IH [OF _ rest] show ?case by auto
qed

lemma resolve_block_inv:
  assumes es: "edges_sym (bbs r)" and res: "resolve_block a blk r = Inr r'"
  shows "edges_sym (bbs r') \<and> ids r' = ids r"
proof -
  from res obtain b r1 where b: "getBlock r blk = Some b"
    and r1: "resolve_exprs a blk (bb_exprs b) r = Inr r1" and r2: "atb_parseBlock blk r1 = Inr r'"
    by (auto simp: resolve_block_def bind_r_Inr split: option.splits)
  from getBlock_Some [OF b] have "blk \<in> ids r" by (auto simp: ids_def)
  with es have "cfg_inv blk r" by (simp add: cfg_inv_def)
  from resolve_exprs_inv [OF this r1] atb_parseBlock_inv [OF _ r2] show ?thesis
    by (auto simp: cfg_inv_def)
qed

lemma resolve_blocks_inv:
  "edges_sym (bbs r) \<Longrightarrow> resolve_blocks a bs r = Inr r' \<Longrightarrow> edges_sym (bbs r') \<and> ids r' = ids r"
proof (induction bs arbitrary: r)
  case Nil
  then show ?case by simp
next
  case (Cons b bs)
  from Cons.prems(2) obtain r1 where r1: "resolve_block a b r = Inr r1"
    and rest: "resolve_blocks a bs r1 = Inr r'"
    by (auto simp: bind_r_Inr)
  from resolve_block_inv [OF Cons.prems(1) r1] Cons.IH [OF _ rest] show ?case by auto
qed

lemma ex_resolve_once: "resolve ex_arch ex_jmp_store = Inr ex_jmp_resolved"
  by (simp add: resolver_defs resolver_fixture link_def store_simps ex_label_def ir_defs insert_commute)

lemma ex_jmp_store_expr2: "get_expr ex_jmp_store 2 = Some (ex_jmp 2 (mk_arg (AUInt 0x18) 64))"
  by (simp add: resolver_fixture store_simps ex_label_def)

lemma ex_branch_store_expr2:
  "get_expr ex_branch_store 2 = Some (ex_cjmp 2 (mk_arg (AId 1) 1) (mk_arg (AUInt 0x40) 64))"
  by (simp add: resolver_fixture store_simps ex_label_def)

subsection \<open>Properties of the resolver\<close>

text \<open>
  C14: the pass keeps the CFG edge-symmetric: every edge it records is recorded on both
  blocks, so a symmetric CFG stays symmetric whatever the pass returns.
\<close>

theorem resolve_preserves_edge_symmetry:
  "edges_sym (bbs r) \<Longrightarrow> resolve a r = Inr r' \<Longrightarrow> edges_sym (bbs r')"
  unfolding resolve_def using resolve_blocks_inv by blast

theorem resolve_preserves_edge_symmetry_witness:
  "edges_sym (bbs ex_jmp_store) \<and> resolve ex_arch ex_jmp_store = Inr ex_jmp_resolved \<and>
   edges_sym (bbs ex_jmp_resolved)"
proof -
  have s: "edges_sym (bbs ex_jmp_store)" by (simp add: edges_sym_def resolver_fixture)
  from resolve_preserves_edge_symmetry [OF s ex_resolve_once] s ex_resolve_once show ?thesis by simp
qed

text \<open>
  C15: a jump to a literal address where a block starts is rewritten to a reference to
  the first such block, and exactly that edge is added to the CFG, on both sides.
\<close>

theorem atb_jmp_literal_resolved:
  assumes e: "get_expr r i = Some e" and t: "e_type e = eJmp" and args: "e_args e = x # xs"
    and lit: "arg_kind x = AUInt v" and found: "List.find (\<lambda>bb. bb_start bb = v) (bbs r) = Some bb"
    and blk: "blk \<in> ids r"
  shows "\<exists>r'. atb_parseExpression a blk i r = Inr r' \<and>
           get_expr r' i = Some (e\<lparr>e_args := createBlock (bb_id bb) # xs\<rparr>) \<and>
           out_edges (bbs r') = insert (blk, bb_id bb) (out_edges (bbs r)) \<and>
           in_edges (bbs r') = insert (blk, bb_id bb) (in_edges (bbs r))"
proof -
  let ?r' = "update_expr i (\<lambda>y. y\<lparr>e_args := (e_args y)[0 := createBlock (bb_id bb)]\<rparr>) (link blk (bb_id bb) r)"
  have "atb_parseExpression a blk i r = Inr ?r'"
    using args lit
    by (simp add: atb_parseExpression_jmp [OF e t] resolve_branch_arg_literal resolve_target_found [OF found])
  moreover have "get_expr ?r' i = Some (e\<lparr>e_args := createBlock (bb_id bb) # xs\<rparr>)"
    using e args by (simp add: get_expr_update_expr)
  moreover have "bb_id bb \<in> ids r" using found by (rule find_start_in_ids)
  ultimately show ?thesis
    using blk by (simp add: ids_def out_edges_link in_edges_link)
qed

theorem atb_jmp_literal_resolved_witness:
  "\<exists>r'. atb_parseExpression ex_arch 1 2 ex_jmp_store = Inr r' \<and>
     get_expr r' 2 = Some (ex_jmp 2 (createBlock 3)) \<and>
     out_edges (bbs r') = insert (1, 3) (out_edges (bbs ex_jmp_store)) \<and>
     in_edges (bbs r') = insert (1, 3) (in_edges (bbs ex_jmp_store))"
proof -
  have f: "List.find (\<lambda>bb. bb_start bb = 0x18) (bbs ex_jmp_store) = Some (ex_blk 3 0x18 0x1c [4])"
    by (simp add: ex_jmp_store_def ex_blk_def)
  have b: "1 \<in> ids ex_jmp_store" by (simp add: ids_def ex_jmp_store_def ex_blk_def)
  have "e_type (ex_jmp 2 (mk_arg (AUInt 0x18) 64)) = eJmp"
    and "e_args (ex_jmp 2 (mk_arg (AUInt 0x18) 64)) = [mk_arg (AUInt 0x18) 64]"
    and "arg_kind (mk_arg (AUInt 0x18) 64) = AUInt 0x18"
    by (simp_all add: ex_jmp_def ir_defs)
  from atb_jmp_literal_resolved [OF ex_jmp_store_expr2 this f b, where a = ex_arch]
  show ?thesis by (simp add: ex_jmp_def ir_defs ex_blk_def)
qed

text \<open>
  C16: a conditional jump to a literal address where no block starts is left as it is,
  and the CFG is unchanged (a permitted terminal state: the target stays unresolved).
\<close>

theorem atb_cjmp_unresolved_literal:
  assumes e: "get_expr r i = Some e" and t: "e_type e = eCJmp" and n: "1 < length (e_args e)"
    and lit: "arg_kind (e_args e ! 1) = AUInt v" and none: "\<forall>bb\<in>set (bbs r). bb_start bb \<noteq> v"
  shows "\<exists>r'. atb_parseExpression a blk i r = Inr r' \<and> get_expr r' i = Some e \<and> bbs r' = bbs r"
  using n lit
  by (simp add: atb_parseExpression_cjmp [OF e t] resolve_branch_arg_literal resolve_target_none [OF none]
      get_expr_update_expr e)

theorem atb_cjmp_unresolved_literal_witness:
  "\<exists>r'. atb_parseExpression ex_arch 1 2 ex_branch_store = Inr r' \<and>
     get_expr r' 2 = Some (ex_cjmp 2 (mk_arg (AId 1) 1) (mk_arg (AUInt 0x40) 64)) \<and>
     bbs r' = bbs ex_branch_store"
proof -
  have "e_type (ex_cjmp 2 (mk_arg (AId 1) 1) (mk_arg (AUInt 0x40) 64)) = eCJmp"
    and "1 < length (e_args (ex_cjmp 2 (mk_arg (AId 1) 1) (mk_arg (AUInt 0x40) 64)))"
    and "arg_kind (e_args (ex_cjmp 2 (mk_arg (AId 1) 1) (mk_arg (AUInt 0x40) 64)) ! 1) = AUInt 0x40"
    and "\<forall>bb\<in>set (bbs ex_branch_store). bb_start bb \<noteq> 0x40"
    by (simp_all add: resolver_fixture ir_defs)
  from atb_cjmp_unresolved_literal [OF ex_branch_store_expr2 this] show ?thesis .
qed

text \<open>
  C17: a jump whose target is not a literal address (a computed target, or a block
  reference already resolved) gets a read of every top-level register appended, and the
  CFG is unchanged.
\<close>

theorem atb_indirect_jmp_reads_registers:
  assumes e: "get_expr r i = Some e" and t: "e_type e = eJmp" and args: "e_args e = x # xs"
    and ind: "\<forall>v. arg_kind x \<noteq> AUInt v"
  shows "\<exists>r'. atb_parseExpression a blk i r = Inr r' \<and>
           get_expr r' i = Some (e\<lparr>e_args := x # xs @ map createRegArg (top_regs a)\<rparr>) \<and> bbs r' = bbs r"
  using args ind by (simp add: atb_parseExpression_jmp [OF e t] resolve_branch_arg_indirect get_expr_update_expr e)

theorem atb_indirect_jmp_reads_registers_witness:
  "\<exists>r'. atb_parseExpression ex_arch 1 2 ex_jmp_resolved = Inr r' \<and>
     get_expr r' 2 = Some (ex_jmp 2 (createBlock 3)\<lparr>e_args := [createBlock 3, mk_arg (AReg 1 0) 64]\<rparr>) \<and>
     bbs r' = bbs ex_jmp_resolved"
proof -
  have e: "get_expr ex_jmp_resolved 2 = Some (ex_jmp 2 (createBlock 3))"
    by (simp add: resolver_fixture store_simps ex_label_def)
  have "e_type (ex_jmp 2 (createBlock 3)) = eJmp" and "e_args (ex_jmp 2 (createBlock 3)) = [createBlock 3]"
    and "\<forall>v. arg_kind (createBlock 3) \<noteq> AUInt v"
    by (simp_all add: ex_jmp_def createBlock_def ir_defs)
  from atb_indirect_jmp_reads_registers [OF e this, where a = ex_arch and blk = 1]
  show ?thesis by (simp add: ex_arch_def ir_defs)
qed

text \<open>
  A block whose last node is a return is never given a fallthrough edge.
\<close>

theorem atb_parseBlock_return_unlinked:
  "getBlock r blk = Some b \<Longrightarrow> bb_exprs b \<noteq> [] \<Longrightarrow> get_expr r (last (bb_exprs b)) = Some e \<Longrightarrow>
   e_type e = eReturn \<Longrightarrow> atb_parseBlock blk r = Inr r"
  by (simp add: atb_parseBlock_def)

theorem atb_parseBlock_return_unlinked_witness:
  "atb_parseBlock 3 ex_branch_store = Inr ex_branch_store"
proof -
  have "getBlock ex_branch_store 3 = Some (ex_blk 3 0x18 0x1c [4])"
    and "bb_exprs (ex_blk 3 0x18 0x1c [4]) \<noteq> []"
    and "get_expr ex_branch_store (last (bb_exprs (ex_blk 3 0x18 0x1c [4]))) = Some ((blank_expr eReturn)\<lparr>e_id := 4\<rparr>)"
    and "e_type ((blank_expr eReturn)\<lparr>e_id := 4\<rparr>) = eReturn"
    by (simp_all add: resolver_fixture store_simps ex_label_def ir_defs)
  from atb_parseBlock_return_unlinked [OF this] show ?thesis .
qed

text \<open>
  C19: the pass is not idempotent, although section 8 of the specification says that
  running it twice yields the same result: for every jump to a literal address where a
  block starts, a second run over the rewritten node sees a block reference, takes it for
  a computed target, and appends a read of every top-level register.
\<close>

theorem resolve_not_idempotent:
  assumes e: "get_expr r i = Some e" and t: "e_type e = eJmp" and args: "e_args e = x # xs"
    and lit: "arg_kind x = AUInt v" and found: "List.find (\<lambda>bb. bb_start bb = v) (bbs r) = Some bb"
    and regs: "top_regs a \<noteq> []"
  shows "\<exists>r1 r2. atb_parseExpression a blk i r = Inr r1 \<and> atb_parseExpression a blk i r1 = Inr r2 \<and>
           get_expr r2 i = Some (e\<lparr>e_args := createBlock (bb_id bb) # xs @ map createRegArg (top_regs a)\<rparr>) \<and>
           r2 \<noteq> r1"
proof -
  let ?e1 = "e\<lparr>e_args := createBlock (bb_id bb) # xs\<rparr>"
  let ?r1 = "update_expr i (\<lambda>y. y\<lparr>e_args := (e_args y)[0 := createBlock (bb_id bb)]\<rparr>) (link blk (bb_id bb) r)"
  have r1: "atb_parseExpression a blk i r = Inr ?r1"
    using args lit
    by (simp add: atb_parseExpression_jmp [OF e t] resolve_branch_arg_literal resolve_target_found [OF found])
  have e1: "get_expr ?r1 i = Some ?e1" using e args by (simp add: get_expr_update_expr)
  let ?r2 = "update_expr i (\<lambda>y. y\<lparr>e_args := e_args y @ map createRegArg (top_regs a)\<rparr>) ?r1"
  have r2: "atb_parseExpression a blk i ?r1 = Inr ?r2"
  proof -
    have t1: "e_type ?e1 = eJmp" using t by simp
    have "atb_parseExpression a blk i ?r1 = resolve_branch_arg a blk i 0 ?e1 ?r1"
      by (rule atb_parseExpression_jmp [OF e1 t1])
    also have "\<dots> = Inr ?r2"
      by (rule resolve_branch_arg_indirect) (simp_all add: createBlock_def mk_arg_def)
    finally show ?thesis .
  qed
  have e2: "get_expr ?r2 i = Some (e\<lparr>e_args := createBlock (bb_id bb) # xs @ map createRegArg (top_regs a)\<rparr>)"
    by (subst get_expr_update_expr) (simp_all only: e1 option.map if_True, simp_all)
  have "?r2 \<noteq> ?r1"
  proof
    assume "?r2 = ?r1"
    then have "get_expr ?r2 i = get_expr ?r1 i" by simp
    with e1 e2 have "e\<lparr>e_args := createBlock (bb_id bb) # xs @ map createRegArg (top_regs a)\<rparr> = ?e1"
      by simp
    then have "e_args (e\<lparr>e_args := createBlock (bb_id bb) # xs @ map createRegArg (top_regs a)\<rparr>) = e_args ?e1"
      by (rule arg_cong)
    with regs show False by simp
  qed
  with r1 r2 e2 show ?thesis by blast
qed

theorem resolve_not_idempotent_witness:
  "\<exists>r1 r2. atb_parseExpression ex_arch 1 2 ex_jmp_store = Inr r1 \<and> atb_parseExpression ex_arch 1 2 r1 = Inr r2 \<and>
     get_expr r2 2 = Some (ex_jmp 2 (createBlock 3)\<lparr>e_args := [createBlock 3, mk_arg (AReg 1 0) 64]\<rparr>) \<and>
     r2 \<noteq> r1"
proof -
  have f: "List.find (\<lambda>bb. bb_start bb = 0x18) (bbs ex_jmp_store) = Some (ex_blk 3 0x18 0x1c [4])"
    by (simp add: ex_jmp_store_def ex_blk_def)
  have t: "e_type (ex_jmp 2 (mk_arg (AUInt 0x18) 64)) = eJmp"
    and as: "e_args (ex_jmp 2 (mk_arg (AUInt 0x18) 64)) = [mk_arg (AUInt 0x18) 64]"
    and l: "arg_kind (mk_arg (AUInt 0x18) 64) = AUInt 0x18"
    by (simp_all add: ex_jmp_def ir_defs)
  have rg: "top_regs ex_arch \<noteq> []" by (simp add: ex_arch_def ir_defs)
  from resolve_not_idempotent [OF ex_jmp_store_expr2 t as l f rg, where blk = 1]
  show ?thesis by (simp add: ex_jmp_def ex_blk_def ex_arch_def ir_defs)
qed

text \<open>
  C20: every block without fallthrough whose last node is not a return, an unconditional
  jump included, receives a fallthrough to the first block starting at its end address,
  with the edge recorded on both blocks: \<open>parseBlock\<close> exempts only returns, so the
  CFG gets an edge the jump never takes.
\<close>

theorem resolve_falls_through_after_jmp:
  assumes b: "getBlock r blk = Some b" and ne: "bb_exprs b \<noteq> []"
    and e: "get_expr r (last (bb_exprs b)) = Some e" and t: "e_type e \<noteq> eReturn"
    and ft: "bb_fallthrough b = 0" and c: "List.find (\<lambda>bb. bb_start bb = bb_end b) (bbs r) = Some c"
  shows "\<exists>r'. atb_parseBlock blk r = Inr r' \<and> map_option bb_fallthrough (getBlock r' blk) = Some (bb_id c) \<and>
           out_edges (bbs r') = insert (blk, bb_id c) (out_edges (bbs r)) \<and>
           in_edges (bbs r') = insert (blk, bb_id c) (in_edges (bbs r))"
proof -
  let ?r' = "link blk (bb_id c) (set_fallthrough blk (bb_id c) r)"
  have run: "atb_parseBlock blk r = Inr ?r'" using b ne e t ft c by (simp add: atb_parseBlock_def)
  have ib: "blk \<in> bb_id ` set (bbs r)" using getBlock_Some [OF b] by blast
  have ic: "bb_id c \<in> bb_id ` set (bbs r)" using find_start_in_ids [OF c] by (simp add: ids_def)
  have "map_option bb_fallthrough (getBlock ?r' blk) = Some (bb_id c)"
    using b by (simp only: getBlock_link_fallthrough getBlock_set_fallthrough) simp
  moreover have "out_edges (bbs ?r') = insert (blk, bb_id c) (out_edges (bbs r))"
    using ib by (simp add: out_edges_link)
  moreover have "in_edges (bbs ?r') = insert (blk, bb_id c) (in_edges (bbs r))"
    using ic by (simp add: in_edges_link)
  ultimately show ?thesis using run by blast
qed

theorem resolve_falls_through_after_jmp_witness:
  "\<exists>r'. atb_parseBlock 1 ex_jmp_store = Inr r' \<and> map_option bb_fallthrough (getBlock r' 1) = Some 2 \<and>
     out_edges (bbs r') = insert (1, 2) (out_edges (bbs ex_jmp_store)) \<and>
     in_edges (bbs r') = insert (1, 2) (in_edges (bbs ex_jmp_store))"
proof -
  have "getBlock ex_jmp_store 1 = Some (ex_blk 1 0x10 0x14 [1, 2])"
    and "bb_exprs (ex_blk 1 0x10 0x14 [1, 2]) \<noteq> []"
    and "get_expr ex_jmp_store (last (bb_exprs (ex_blk 1 0x10 0x14 [1, 2]))) = Some (ex_jmp 2 (mk_arg (AUInt 0x18) 64))"
    and "e_type (ex_jmp 2 (mk_arg (AUInt 0x18) 64)) \<noteq> eReturn"
    and "bb_fallthrough (ex_blk 1 0x10 0x14 [1, 2]) = 0"
    and "List.find (\<lambda>bb. bb_start bb = bb_end (ex_blk 1 0x10 0x14 [1, 2])) (bbs ex_jmp_store) = Some (ex_blk 2 0x14 0x18 [3])"
    by (simp_all add: resolver_fixture store_simps ex_label_def ir_defs)
  from resolve_falls_through_after_jmp [OF this] show ?thesis by (simp add: ex_blk_def)
qed

end
