(* ===== verification/Simplifier.thy ===== *)
theory Simplifier
  imports Store
begin

text \<open>
  The Assignment Simplifier, \<open>SSAAssignmentSimplifier::doTransformation\<close>
  (src/main/SSAAssignmentSimplifier.cpp).  One pass scans the node store in order: every
  live node of a collapsible kind contributes one entry to the replacement map
  (\<open>expr_repl\<close>, lines 22--76), and every return node has its operands chased through
  transient producers and the operands that end at a function input dropped
  (\<open>ret_prune\<close>, lines 77--91; the operand is overwritten in place by the end of its
  chase).  The macro \<open>EXPR_IS_TRANSIENT\<close> is defined outside the sources; it is the
  parameter \<open>t\<close> of the model.  \<open>replaceNodes\<close> and \<open>compress\<close> are not in the sources
  either and follow the specification: all replacements are applied at once (through
  chains of replaced nodes, at most one step per entry of the map), the replaced nodes are
  retired (identifier 0, as the scan's \<open>if (!expr.id) continue\<close> expects) and then
  removed.  The loop repeats until a pass yields no replacement.
\<close>

type_synonym repl = "(hid \<times> ssaarg) list"

text \<open>\<open>SSAArgument::isValue\<close> (declared outside the sources): a literal of that value.\<close>

definition isValue :: "ssaarg \<Rightarrow> addr \<Rightarrow> bool" where
  "isValue a v \<longleftrightarrow> arg_kind a = AUInt v \<or> arg_kind a = ASInt (sint v)"

definition is_undef :: "ssaarg \<Rightarrow> bool" where
  "is_undef a \<longleftrightarrow> arg_kind a = AUndef"

text \<open>The assign rule (lines 22--31): the location of the node flows to an unlocated source.\<close>

definition assign_repl :: "ssaexpr \<Rightarrow> ssaarg result" where
  "assign_repl e =
     (case e_args e of
        [] \<Rightarrow> Inl AssertFail
      | a # _ \<Rightarrow> Inr (if arg_loc a = LocNone \<and> e_loc e \<noteq> LocNone
                     then a\<lparr>arg_loc := e_loc e, arg_locref := e_locref e\<rparr> else a))"

text \<open>
  The phi rule (lines 36--53): all inputs undefined, or all equal to the first.  On a
  phi without inputs the loop does not run, \<open>undef\<close> stays true and the phi collapses
  to undefined, as here; the reference bound to \<open>subExpressions[0]\<close> is then out of
  range but never read.
\<close>

definition phi_repl :: "ssaexpr \<Rightarrow> ssaarg option" where
  "phi_repl e =
     (if list_all is_undef (e_args e) then Some (createUndef (e_loc e) (e_locref e) (e_size e))
      else if list_all (\<lambda>a. a = hd (e_args e)) (e_args e) then Some (hd (e_args e))
      else None)"

text \<open>
  The effective-address fold (lines 58--76) over the operands
  \<open>[segment, base, index, scale, displacement]\<close>.
\<close>

definition loadaddr_repl :: "ssaarg list \<Rightarrow> ssaarg option" where
  "loadaddr_repl xs =
     (if length xs = 5 then
        (let a0 = xs ! 0; a1 = xs ! 1; a2 = xs ! 2; a3 = xs ! 3; a4 = xs ! 4 in
         if isValue a0 0 then
           (if isValue a1 0 then
              (if isValue a2 0 then Some a4 else if isValue a3 0 then Some a4 else None)
            else if isValue a4 0 then
              (if isValue a2 0 then Some a1 else if isValue a3 0 then Some a1 else None)
            else None)
         else None)
      else None)"

definition expr_repl :: "ssaexpr \<Rightarrow> ssaarg option result" where
  "expr_repl e =
     (case e_type e of
        eAssign \<Rightarrow> map_sum id Some (assign_repl e)
      | eUndef \<Rightarrow> Inr (Some (createUndef (e_loc e) (e_locref e) (e_size e)))
      | eLabel \<Rightarrow> Inr (Some createEmpty)
      | ePhi \<Rightarrow> Inr (phi_repl e)
      | eSplit \<Rightarrow> (case e_args e of [] \<Rightarrow> Inl AssertFail
                   | a # _ \<Rightarrow> Inr (if is_undef a then Some (createUndef (e_loc e) (e_locref e) (e_size e)) else None))
      | eUpdatePart \<Rightarrow> (case e_args e of [] \<Rightarrow> Inl AssertFail
                   | a # _ \<Rightarrow> Inr (if is_undef a then Some (createUndef (e_loc e) (e_locref e) (e_size e)) else None))
      | eLoadAddr \<Rightarrow> Inr (loadaddr_repl (e_args e))
      | _ \<Rightarrow> Inr None)"

text \<open>
  The chase of a returned operand (lines 80--84): while it names a live node of a
  transient kind, replace it by that node's first operand.  On a cycle of transient
  nodes the C++ loop does not end; here that is the value \<open>None\<close>.
\<close>

partial_function (option) chase :: "(ssaexprtype \<Rightarrow> bool) \<Rightarrow> ssarep \<Rightarrow> ssaarg \<Rightarrow> ssaarg result option" where
  "chase t r a =
     (case arg_kind a of
        AId j \<Rightarrow>
          (if j = 0 then Some (Inr a)
           else (case get_expr r j of
                   None \<Rightarrow> Some (Inl (UnknownExpr j))
                 | Some e \<Rightarrow>
                     (if t (e_type e) then
                        (case e_args e of [] \<Rightarrow> Some (Inl AssertFail) | a' # _ \<Rightarrow> chase t r a')
                      else Some (Inr a))))
      | _ \<Rightarrow> Some (Inr a))"

declare chase.simps [code]

text \<open>An operand that ends at a function input is erased (lines 85--88).\<close>

definition is_input_ref :: "ssarep \<Rightarrow> ssaarg \<Rightarrow> bool" where
  "is_input_ref r a \<longleftrightarrow>
     (case arg_kind a of
        AId j \<Rightarrow> j \<noteq> 0 \<and> map_option e_type (get_expr r j) = Some eInput
      | _ \<Rightarrow> False)"

fun ret_prune :: "(ssaexprtype \<Rightarrow> bool) \<Rightarrow> ssarep \<Rightarrow> ssaarg list \<Rightarrow> ssaarg list result option" where
  "ret_prune t r [] = Some (Inr [])"
| "ret_prune t r (a # as) =
     (case chase t r a of
        None \<Rightarrow> None
      | Some (Inl err) \<Rightarrow> Some (Inl err)
      | Some (Inr a') \<Rightarrow>
          (case ret_prune t r as of
             None \<Rightarrow> None
           | Some (Inl err) \<Rightarrow> Some (Inl err)
           | Some (Inr as') \<Rightarrow> Some (Inr (if is_input_ref r a' then as' else a' # as'))))"

text \<open>
  One scan of the node store (lines 19--92).  Position \<open>k\<close> of the store is the node
  being visited; only a return node is written, and only at its own position.
  \<open>HMap::insert\<close> keeps the first entry of a key, as \<open>map_of\<close> does.
\<close>

fun scan :: "(ssaexprtype \<Rightarrow> bool) \<Rightarrow> nat \<Rightarrow> ssaexpr list \<Rightarrow> ssarep \<Rightarrow> repl \<Rightarrow> (ssarep \<times> repl) result option" where
  "scan t k [] r acc = Some (Inr (r, acc))"
| "scan t k (e # es) r acc =
     (if e_id e = 0 then scan t (Suc k) es r acc
      else if e_type e = eReturn then
        (case ret_prune t r (e_args e) of
           None \<Rightarrow> None
         | Some (Inl err) \<Rightarrow> Some (Inl err)
         | Some (Inr as') \<Rightarrow> scan t (Suc k) es (r\<lparr>exprs := (exprs r)[k := e\<lparr>e_args := as'\<rparr>]\<rparr>) acc)
      else
        (case expr_repl e of
           Inl err \<Rightarrow> Some (Inl err)
         | Inr None \<Rightarrow> scan t (Suc k) es r acc
         | Inr (Some a) \<Rightarrow> scan t (Suc k) es r (acc @ [(e_id e, a)])))"

definition simp_pass :: "(ssaexprtype \<Rightarrow> bool) \<Rightarrow> ssarep \<Rightarrow> (ssarep \<times> repl) result option" where
  "simp_pass t r = scan t 0 (exprs r) r []"

text \<open>\<open>SSARepresentation::replaceNodes\<close> and \<open>compress\<close>, from the specification.\<close>

primrec repl_arg :: "repl \<Rightarrow> nat \<Rightarrow> ssaarg \<Rightarrow> ssaarg" where
  "repl_arg m 0 a = a"
| "repl_arg m (Suc n) a =
     (case arg_kind a of
        AId j \<Rightarrow> (case map_of m j of Some b \<Rightarrow> repl_arg m n b | None \<Rightarrow> a)
      | _ \<Rightarrow> a)"

definition replaceNodes :: "repl \<Rightarrow> ssarep \<Rightarrow> ssarep" where
  "replaceNodes m r = r\<lparr>exprs := map (\<lambda>e.
       if e_id e \<in> fst ` set m then e\<lparr>e_id := 0\<rparr>
       else e\<lparr>e_args := map (repl_arg m (length m)) (e_args e)\<rparr>) (exprs r)\<rparr>"

definition compress :: "ssarep \<Rightarrow> ssarep" where
  "compress r =
     (let live = filter (\<lambda>e. e_id e \<noteq> 0) (exprs r) in
      r\<lparr>exprs := live, bbs := map (\<lambda>b. b\<lparr>bb_exprs := filter (\<lambda>i. i \<in> e_id ` set live) (bb_exprs b)\<rparr>) (bbs r)\<rparr>)"

text \<open>The fixpoint loop (lines 17--97).\<close>

partial_function (option) simplify :: "(ssaexprtype \<Rightarrow> bool) \<Rightarrow> ssarep \<Rightarrow> ssarep result option" where
  "simplify t r =
     (case simp_pass t r of
        None \<Rightarrow> None
      | Some (Inl err) \<Rightarrow> Some (Inl err)
      | Some (Inr (r1, m)) \<Rightarrow> (if m = [] then Some (Inr r1) else simplify t (compress (replaceNodes m r1))))"

declare simplify.simps [code]

definition live :: "ssarep \<Rightarrow> nat" where
  "live r = length (filter (\<lambda>e. e_id e \<noteq> 0) (exprs r))"

subsection \<open>Proof vocabulary\<close>

text \<open>
  \<open>simplify_fuel\<close> runs at most \<open>n\<close> passes (\<open>None\<close> when the fuel is exhausted);
  \<open>sig_of\<close> is the identifier and kind of every node, which a pass never changes;
  \<open>chase_end\<close> holds of an operand at which the chase of the return rule stops, and
  \<open>clean\<close> of an operand list the return rule leaves as it is.
\<close>

primrec simplify_fuel :: "nat \<Rightarrow> (ssaexprtype \<Rightarrow> bool) \<Rightarrow> ssarep \<Rightarrow> ssarep result option" where
  "simplify_fuel 0 t r = None"
| "simplify_fuel (Suc n) t r =
     (case simp_pass t r of
        None \<Rightarrow> None
      | Some (Inl err) \<Rightarrow> Some (Inl err)
      | Some (Inr (r1, m)) \<Rightarrow> (if m = [] then Some (Inr r1) else simplify_fuel n t (compress (replaceNodes m r1))))"

text \<open>
  \<open>sreach t r r'\<close>: the loop started at \<open>r\<close> reaches the store \<open>r'\<close> at the start
  of some pass (every pass before it terminated and found a replacement).
\<close>

inductive sreach :: "(ssaexprtype \<Rightarrow> bool) \<Rightarrow> ssarep \<Rightarrow> ssarep \<Rightarrow> bool" for t where
  sreach_refl: "sreach t r r"
| sreach_step: "simp_pass t r = Some (Inr (r1, m)) \<Longrightarrow> m \<noteq> [] \<Longrightarrow>
    sreach t (compress (replaceNodes m r1)) r' \<Longrightarrow> sreach t r r'"

definition sig_of :: "ssarep \<Rightarrow> (hid \<times> ssaexprtype) list" where
  "sig_of r = map (\<lambda>e. (e_id e, e_type e)) (exprs r)"

definition etype :: "ssarep \<Rightarrow> hid \<Rightarrow> ssaexprtype option" where
  "etype r j = map_option e_type (get_expr r j)"

definition chase_end :: "(ssaexprtype \<Rightarrow> bool) \<Rightarrow> ssarep \<Rightarrow> ssaarg \<Rightarrow> bool" where
  "chase_end t r a \<longleftrightarrow>
     (case arg_kind a of
        AId j \<Rightarrow> j = 0 \<or> (case etype r j of None \<Rightarrow> False | Some ty \<Rightarrow> \<not> t ty)
      | _ \<Rightarrow> True)"

definition clean :: "(ssaexprtype \<Rightarrow> bool) \<Rightarrow> ssarep \<Rightarrow> ssaarg list \<Rightarrow> bool" where
  "clean t r ys \<longleftrightarrow> (\<forall>a\<in>set ys. chase_end t r a \<and> \<not> is_input_ref r a)"

definition fixrel :: "(ssaexprtype \<Rightarrow> bool) \<Rightarrow> ssarep \<Rightarrow> ssaexpr \<Rightarrow> ssaexpr \<Rightarrow> bool" where
  "fixrel t r x y \<longleftrightarrow>
     (if e_id x \<noteq> 0 \<and> e_type x = eReturn then y = x\<lparr>e_args := e_args y\<rparr> \<and> clean t r (e_args y) else y = x)"

definition lit_val :: "ssaarg \<Rightarrow> addr" where
  "lit_val a = (case arg_kind a of AUInt w \<Rightarrow> w | ASInt i \<Rightarrow> word_of_int i | _ \<Rightarrow> 0)"

subsection \<open>Fixtures\<close>

text \<open>
  A function whose only return value is a register input reached through one assign
  (the specification's dead-return-input scenario), its simplified form, and a store
  with an assign that names itself.
\<close>

definition ex_node :: "hid \<Rightarrow> ssaexprtype \<Rightarrow> ssaarg list \<Rightarrow> ssaexpr" where
  "ex_node i ty xs = (blank_expr ty)\<lparr>e_id := i, e_args := xs\<rparr>"

definition ex_simp_store :: ssarep where
  "ex_simp_store =
     \<lparr>bbs = [\<lparr>bb_id = 1, bb_fallthrough = 0, bb_start = 0x10, bb_end = 0x14, bb_exprs = [1, 2, 3],
              bb_in = {}, bb_out = {}\<rparr>],
      bb_gen = 1,
      exprs = [(ex_node 1 eInput [])\<lparr>e_loc := LocReg, e_locref := (1, 0)\<rparr>,
               ex_node 2 eAssign [mk_arg (AId 1) 64],
               ex_node 3 eReturn [mk_arg (AId 2) 64]],
      expr_gen = 3\<rparr>"

definition ex_cycle_store :: ssarep where
  "ex_cycle_store = ex_simp_store\<lparr>exprs :=
     [ex_node 1 eAssign [mk_arg (AId 1) 64], ex_node 2 eReturn [mk_arg (AId 1) 64]]\<rparr>"

definition ex_simp_final :: ssarep where
  "ex_simp_final = ex_simp_store\<lparr>bbs := [\<lparr>bb_id = 1, bb_fallthrough = 0, bb_start = 0x10, bb_end = 0x14,
       bb_exprs = [1, 3], bb_in = {}, bb_out = {}\<rparr>],
     exprs := [(ex_node 1 eInput [])\<lparr>e_loc := LocReg, e_locref := (1, 0)\<rparr>, ex_node 3 eReturn []]\<rparr>"

lemmas simp_fixture = ex_node_def ex_simp_store_def ex_cycle_store_def

subsection \<open>Lemmas\<close>

lemma find_sig:
  "map (\<lambda>e. (e_id e, e_type e)) xs = map (\<lambda>e. (e_id e, e_type e)) ys \<Longrightarrow>
   map_option e_type (List.find (\<lambda>e. e_id e = j) xs) = map_option e_type (List.find (\<lambda>e. e_id e = j) ys)"
proof (induction xs arbitrary: ys)
  case Nil then show ?case by simp
next
  case (Cons x xs)
  then obtain y ys' where "ys = y # ys'" by (cases ys) auto
  with Cons show ?case by auto
qed

lemma etype_sig: "sig_of r = sig_of r' \<Longrightarrow> etype r j = etype r' j"
  unfolding sig_of_def etype_def get_expr_def by (rule find_sig)

lemma is_input_ref_etype: "is_input_ref r a \<longleftrightarrow> (case arg_kind a of AId j \<Rightarrow> j \<noteq> 0 \<and> etype r j = Some eInput | _ \<Rightarrow> False)"
  by (simp add: is_input_ref_def etype_def split: ssaargtype.split)

lemma clean_sig: "sig_of r = sig_of r' \<Longrightarrow> clean t r = clean t r'"
  by (simp add: clean_def chase_end_def is_input_ref_etype etype_sig [of r r'] fun_eq_iff split: ssaargtype.split)

lemma chase_ends:
  assumes ret: "chase t r a = Some y"
  shows "\<forall>a'. y = Inr a' \<longrightarrow> chase_end t r a'"
proof (rule chase.raw_induct [where P = "\<lambda>t r a y. \<forall>a'. y = Inr a' \<longrightarrow> chase_end t r a'", OF _ ret])
  fix f :: "(ssaexprtype \<Rightarrow> bool) \<Rightarrow> ssarep \<Rightarrow> ssaarg \<Rightarrow> ssaarg result option" and t r a y
  assume IH: "\<And>t r a y. f t r a = Some y \<Longrightarrow> \<forall>a'. y = Inr a' \<longrightarrow> chase_end t r a'"
    and eq: "(case arg_kind a of
        AId j \<Rightarrow>
          (if j = 0 then Some (Inr a)
           else (case get_expr r j of
                   None \<Rightarrow> Some (Inl (UnknownExpr j))
                 | Some e \<Rightarrow>
                     (if t (e_type e) then
                        (case e_args e of [] \<Rightarrow> Some (Inl AssertFail) | a' # _ \<Rightarrow> f t r a')
                      else Some (Inr a))))
      | _ \<Rightarrow> Some (Inr a)) = Some y"
  have "(y = Inr a \<and> chase_end t r a) \<or> (\<exists>b. f t r b = Some y) \<or> (\<exists>err. y = Inl err)"
    using eq by (auto simp: chase_end_def etype_def split: ssaargtype.splits if_splits option.splits list.splits)
  then show "\<forall>a'. y = Inr a' \<longrightarrow> chase_end t r a'"
    using IH by blast
qed

lemma chase_end_stable: "chase_end t r a \<Longrightarrow> chase t r a = Some (Inr a)"
  by (subst chase.simps) (auto simp: chase_end_def etype_def split: ssaargtype.splits option.splits)

lemma ret_prune_clean:
  "ret_prune t r xs = Some (Inr ys) \<Longrightarrow> clean t r ys"
proof (induction xs arbitrary: ys)
  case Nil then show ?case by (simp add: clean_def)
next
  case (Cons a xs)
  then show ?case
    using chase_ends [of t r a]
    by (auto simp: clean_def split: option.splits sum.splits if_splits)
qed

lemma ret_prune_clean_id: "clean t r ys \<Longrightarrow> ret_prune t r ys = Some (Inr ys)"
  by (induction ys) (auto simp: clean_def chase_end_stable)

lemma sig_of_update:
  "k < length (exprs r) \<Longrightarrow> exprs r ! k = e \<Longrightarrow> sig_of (r\<lparr>exprs := (exprs r)[k := e\<lparr>e_args := as'\<rparr>]\<rparr>) = sig_of r"
  unfolding sig_of_def by (simp add: map_update) (metis (no_types, lifting) list_update_id nth_map)

lemma sig_of_length: "sig_of r = sig_of r' \<Longrightarrow> length (exprs r) = length (exprs r')"
  unfolding sig_of_def by (metis length_map)

lemma fixrel_sig: "sig_of r = sig_of r' \<Longrightarrow> fixrel t r = fixrel t r'"
  by (simp add: fixrel_def clean_sig [of r r'] fun_eq_iff)

lemma scan_shape:
  "scan t k es r acc = Some (Inr (r1, m)) \<Longrightarrow> es = drop k (exprs r) \<Longrightarrow>
   r1 = r\<lparr>exprs := exprs r1\<rparr> \<and> sig_of r1 = sig_of r \<and> take k (exprs r1) = take k (exprs r) \<and>
   list_all2 (fixrel t r) es (drop k (exprs r1)) \<and> length acc \<le> length m \<and>
   (m = acc \<longrightarrow> (\<forall>e\<in>set es. e_id e \<noteq> 0 \<and> e_type e \<noteq> eReturn \<longrightarrow> expr_repl e = Inr None)) \<and>
   fst ` set m \<subseteq> fst ` set acc \<union> (e_id ` set es - {0})"
proof (induction es arbitrary: k r acc)
  case Nil
  then show ?case by simp
next
  case (Cons e es)
  from Cons.prems(2) have k: "k < length (exprs r)" and ek: "exprs r ! k = e"
    and es: "es = drop (Suc k) (exprs r)"
    by (metis drop_Cons_nth)+
  show ?case
  proof (cases "e_id e = 0")
    case True
    from Cons.prems(1) True have run: "scan t (Suc k) es r acc = Some (Inr (r1, m))" by simp
    from Cons.IH [OF run es] obtain IH: "r1 = r\<lparr>exprs := exprs r1\<rparr>" "sig_of r1 = sig_of r"
      "take (Suc k) (exprs r1) = take (Suc k) (exprs r)" "list_all2 (fixrel t r) es (drop (Suc k) (exprs r1))"
      "length acc \<le> length m" "m = acc \<longrightarrow> (\<forall>e\<in>set es. e_id e \<noteq> 0 \<and> e_type e \<noteq> eReturn \<longrightarrow> expr_repl e = Inr None)"
      "fst ` set m \<subseteq> fst ` set acc \<union> (e_id ` set es - {0})" by blast
    from take_Suc_drop [OF IH(3) k sig_of_length [OF IH(2)]] ek
    have "take k (exprs r1) = take k (exprs r)" "drop k (exprs r1) = e # drop (Suc k) (exprs r1)" by auto
    moreover have "fixrel t r e e" using True by (simp add: fixrel_def)
    ultimately show ?thesis using IH True by auto
  next
    case nz: False
    show ?thesis
    proof (cases "e_type e = eReturn")
      case ret: True
      from Cons.prems(1) nz ret obtain as' where rp: "ret_prune t r (e_args e) = Some (Inr as')"
        and run: "scan t (Suc k) es (r\<lparr>exprs := (exprs r)[k := e\<lparr>e_args := as'\<rparr>]\<rparr>) acc = Some (Inr (r1, m))"
        by (auto split: option.splits sum.splits)
      let ?r' = "r\<lparr>exprs := (exprs r)[k := e\<lparr>e_args := as'\<rparr>]\<rparr>"
      have sg: "sig_of ?r' = sig_of r" using k ek by (rule sig_of_update)
      have es': "es = drop (Suc k) (exprs ?r')" using es by simp
      from Cons.IH [OF run es'] obtain IH: "r1 = ?r'\<lparr>exprs := exprs r1\<rparr>" "sig_of r1 = sig_of ?r'"
        "take (Suc k) (exprs r1) = take (Suc k) (exprs ?r')" "list_all2 (fixrel t ?r') es (drop (Suc k) (exprs r1))"
        "length acc \<le> length m" "m = acc \<longrightarrow> (\<forall>e\<in>set es. e_id e \<noteq> 0 \<and> e_type e \<noteq> eReturn \<longrightarrow> expr_repl e = Inr None)"
        "fst ` set m \<subseteq> fst ` set acc \<union> (e_id ` set es - {0})" by blast
      have k': "k < length (exprs ?r')" using k by simp
      from take_Suc_drop [OF IH(3) k' sig_of_length [OF IH(2)]] k
      have tk: "take k (exprs r1) = take k (exprs r)" and dk: "drop k (exprs r1) = e\<lparr>e_args := as'\<rparr> # drop (Suc k) (exprs r1)"
        by auto
      have "fixrel t r e (e\<lparr>e_args := as'\<rparr>)"
        using nz ret ret_prune_clean [OF rp] by (simp add: fixrel_def)
      with IH sg tk dk ret fixrel_sig [OF sg] show ?thesis by auto
    next
      case nret: False
      show ?thesis
      proof (cases "expr_repl e")
        case (Inl err)
        with Cons.prems(1) nz nret show ?thesis by simp
      next
        case (Inr ro)
        from Cons.prems(1) nz nret Inr
        have run: "scan t (Suc k) es r (case ro of None \<Rightarrow> acc | Some a \<Rightarrow> acc @ [(e_id e, a)]) = Some (Inr (r1, m))"
          by (cases ro) simp_all
        from Cons.IH [OF run es] obtain IH: "r1 = r\<lparr>exprs := exprs r1\<rparr>" "sig_of r1 = sig_of r"
          "take (Suc k) (exprs r1) = take (Suc k) (exprs r)" "list_all2 (fixrel t r) es (drop (Suc k) (exprs r1))"
          "length (case ro of None \<Rightarrow> acc | Some a \<Rightarrow> acc @ [(e_id e, a)]) \<le> length m"
          "m = (case ro of None \<Rightarrow> acc | Some a \<Rightarrow> acc @ [(e_id e, a)]) \<longrightarrow> (\<forall>e\<in>set es. e_id e \<noteq> 0 \<and> e_type e \<noteq> eReturn \<longrightarrow> expr_repl e = Inr None)"
          "fst ` set m \<subseteq> fst ` set (case ro of None \<Rightarrow> acc | Some a \<Rightarrow> acc @ [(e_id e, a)]) \<union> (e_id ` set es - {0})"
          by blast
        from take_Suc_drop [OF IH(3) k sig_of_length [OF IH(2)]] ek
        have "take k (exprs r1) = take k (exprs r)" "drop k (exprs r1) = e # drop (Suc k) (exprs r1)" by auto
        moreover have "fixrel t r e e" using nret by (simp add: fixrel_def)
        ultimately show ?thesis using IH nz nret Inr by (cases ro) auto
      qed
    qed
  qed
qed

lemma scan_stable:
  "es = drop k (exprs r) \<Longrightarrow>
   (\<forall>e\<in>set es. e_id e \<noteq> 0 \<longrightarrow> (e_type e = eReturn \<longrightarrow> clean t r (e_args e)) \<and>
      (e_type e \<noteq> eReturn \<longrightarrow> expr_repl e = Inr None)) \<Longrightarrow>
   scan t k es r acc = Some (Inr (r, acc))"
proof (induction es arbitrary: k)
  case Nil
  then show ?case by simp
next
  case (Cons e es)
  from Cons.prems(1) have k: "k < length (exprs r)" and ek: "exprs r ! k = e"
    and es: "es = drop (Suc k) (exprs r)"
    by (metis drop_Cons_nth)+
  have upd: "r\<lparr>exprs := (exprs r)[k := e\<lparr>e_args := e_args e\<rparr>]\<rparr> = r"
    using ek by (metis list_update_id ssarep.surjective ssarep.update_convs(3) ssaexpr.surjective ssaexpr.update_convs(9))
  from Cons.IH [OF es] Cons.prems(2) have IH: "scan t (Suc k) es r acc = Some (Inr (r, acc))" by simp
  with Cons.prems(2) upd show ?case by (auto simp: ret_prune_clean_id)
qed

lemma pass_fixpoint:
  assumes run: "simp_pass t r0 = Some (Inr (r1, []))"
  shows "simp_pass t r1 = Some (Inr (r1, []))"
proof -
  from scan_shape [OF run [unfolded simp_pass_def], of] have
    sh: "r1 = r0\<lparr>exprs := exprs r1\<rparr>" "sig_of r1 = sig_of r0" "list_all2 (fixrel t r0) (exprs r0) (exprs r1)"
      "\<forall>e\<in>set (exprs r0). e_id e \<noteq> 0 \<and> e_type e \<noteq> eReturn \<longrightarrow> expr_repl e = Inr None"
    by simp_all
  have "\<forall>y\<in>set (exprs r1). e_id y \<noteq> 0 \<longrightarrow> (e_type y = eReturn \<longrightarrow> clean t r1 (e_args y)) \<and>
      (e_type y \<noteq> eReturn \<longrightarrow> expr_repl y = Inr None)"
  proof (intro ballI impI)
    fix y assume y: "y \<in> set (exprs r1)" and nz: "e_id y \<noteq> 0"
    from list_all2_ex_left [OF sh(3) y] obtain x where x: "x \<in> set (exprs r0)" and rel: "fixrel t r0 x y" ..
    show "(e_type y = eReturn \<longrightarrow> clean t r1 (e_args y)) \<and> (e_type y \<noteq> eReturn \<longrightarrow> expr_repl y = Inr None)"
    proof (cases "e_id x \<noteq> 0 \<and> e_type x = eReturn")
      case True
      with rel have "y = x\<lparr>e_args := e_args y\<rparr>" "clean t r0 (e_args y)" by (simp_all add: fixrel_def)
      with True clean_sig [OF sh(2)] show ?thesis by (metis ssaexpr.select_convs(2) ssaexpr.surjective ssaexpr.update_convs(9))
    next
      case False
      with rel have "y = x" by (simp add: fixrel_def)
      with False nz x sh(4) show ?thesis by auto
    qed
  qed
  then have "scan t 0 (exprs r1) r1 [] = Some (Inr (r1, []))" by (intro scan_stable) simp_all
  then show ?thesis by (simp add: simp_pass_def)
qed

lemma live_sig: "live r = length (filter (\<lambda>p. fst p \<noteq> 0) (sig_of r))"
  by (simp add: live_def sig_of_def filter_map comp_def)

lemma live_compress: "live (compress r) = live r"
  by (simp add: live_def compress_def Let_def)

lemma live_replaceNodes:
  assumes "x \<in> set (exprs r)" "e_id x \<noteq> 0" "e_id x \<in> fst ` set m"
  shows "live (replaceNodes m r) < live r"
proof -
  let ?g = "\<lambda>e. if e_id e \<in> fst ` set m then e\<lparr>e_id := 0\<rparr> else e\<lparr>e_args := map (repl_arg m (length m)) (e_args e)\<rparr>"
  have "length (filter (\<lambda>e. e_id e \<noteq> 0) (map ?g (exprs r))) < length (filter (\<lambda>e. e_id e \<noteq> 0) (exprs r))"
    by (rule length_filter_map_less [where x = x]) (use assms in auto)
  then show ?thesis by (simp add: live_def replaceNodes_def)
qed

lemma map_e_id_sig: "map e_id (exprs r) = map fst (sig_of r)"
  by (simp add: sig_of_def)

lemma pass_live_decreases:
  assumes run: "simp_pass t r = Some (Inr (r1, m))" and ne: "m \<noteq> []"
  shows "live (compress (replaceNodes m r1)) < live r"
proof -
  note sh = scan_shape [OF run [unfolded simp_pass_def] drop_0 [symmetric]]
  from sh have sg: "sig_of r1 = sig_of r" and keys: "fst ` set m \<subseteq> e_id ` set (exprs r) - {0}"
    by simp_all
  from ne obtain p where "p \<in> set m" by (cases m) auto
  then have "fst p \<in> fst ` set m" by (rule imageI)
  with keys have j: "fst p \<in> e_id ` set (exprs r)" "fst p \<noteq> 0" by auto
  have ids: "e_id ` set (exprs r1) = e_id ` set (exprs r)"
    using arg_cong [OF sg, of "\<lambda>s. set (map fst s)"] by (simp only: map_e_id_sig [symmetric] set_map)
  from j(1) have "fst p \<in> e_id ` set (exprs r1)" by (simp only: ids)
  then obtain x' where x': "x' \<in> set (exprs r1)" "e_id x' = fst p" by (rule imageE) simp
  have "live (replaceNodes m r1) < live r1"
    by (rule live_replaceNodes [OF x'(1)]) (use x' j \<open>fst p \<in> fst ` set m\<close> in simp_all)
  moreover have "live r1 = live r" using sg by (simp add: live_sig)
  ultimately show ?thesis by (simp add: live_compress)
qed

lemma simplify_fixpoint_raw:
  assumes ret: "simplify t r = Some y"
  shows "\<forall>r'. y = Inr r' \<longrightarrow> simp_pass t r' = Some (Inr (r', []))"
proof (rule simplify.raw_induct [where P = "\<lambda>t r y. \<forall>r'. y = Inr r' \<longrightarrow> simp_pass t r' = Some (Inr (r', []))", OF _ ret])
  fix f :: "(ssaexprtype \<Rightarrow> bool) \<Rightarrow> ssarep \<Rightarrow> ssarep result option" and t r y
  assume IH: "\<And>t r y. f t r = Some y \<Longrightarrow> \<forall>r'. y = Inr r' \<longrightarrow> simp_pass t r' = Some (Inr (r', []))"
    and eq: "(case simp_pass t r of
        None \<Rightarrow> None
      | Some (Inl err) \<Rightarrow> Some (Inl err)
      | Some (Inr (r1, m)) \<Rightarrow> (if m = [] then Some (Inr r1) else f t (compress (replaceNodes m r1)))) = Some y"
  have "(\<exists>r1. simp_pass t r = Some (Inr (r1, [])) \<and> y = Inr r1) \<or> (\<exists>r2. f t r2 = Some y) \<or> (\<exists>err. y = Inl err)"
    using eq by (auto split: option.splits sum.splits if_splits)
  then show "\<forall>r'. y = Inr r' \<longrightarrow> simp_pass t r' = Some (Inr (r', []))"
    using IH pass_fixpoint by blast
qed

lemma ex_simp_run: "simplify (\<lambda>ty. ty = eAssign) ex_simp_store = Some (Inr ex_simp_final)"
  by (simp add: simplify.simps simp_pass_def simp_fixture ex_simp_final_def chase.simps get_expr_def
      is_input_ref_def expr_repl_def assign_repl_def replaceNodes_def compress_def ir_defs)

lemma lit_val_zero: "isValue b 0 \<Longrightarrow> lit_val b = 0"
  by (auto simp: isValue_def lit_val_def)

lemma chase_cycle:
  assumes ret: "chase t r a = Some y"
  shows "t = (\<lambda>ty. ty = eAssign) \<and> r = ex_cycle_store \<longrightarrow> a \<noteq> mk_arg (AId 1) 64"
proof (rule chase.raw_induct [where P = "\<lambda>t r a y. t = (\<lambda>ty. ty = eAssign) \<and> r = ex_cycle_store \<longrightarrow> a \<noteq> mk_arg (AId 1) 64", OF _ ret])
  fix f :: "(ssaexprtype \<Rightarrow> bool) \<Rightarrow> ssarep \<Rightarrow> ssaarg \<Rightarrow> ssaarg result option" and t r a y
  assume IH: "\<And>t r a y. f t r a = Some y \<Longrightarrow> t = (\<lambda>ty. ty = eAssign) \<and> r = ex_cycle_store \<longrightarrow> a \<noteq> mk_arg (AId 1) 64"
    and eq: "(case arg_kind a of
        AId j \<Rightarrow>
          (if j = 0 then Some (Inr a)
           else (case get_expr r j of
                   None \<Rightarrow> Some (Inl (UnknownExpr j))
                 | Some e \<Rightarrow>
                     (if t (e_type e) then
                        (case e_args e of [] \<Rightarrow> Some (Inl AssertFail) | a' # _ \<Rightarrow> f t r a')
                      else Some (Inr a))))
      | _ \<Rightarrow> Some (Inr a)) = Some y"
  show "t = (\<lambda>ty. ty = eAssign) \<and> r = ex_cycle_store \<longrightarrow> a \<noteq> mk_arg (AId 1) 64"
  proof (intro impI notI)
    assume c: "t = (\<lambda>ty. ty = eAssign) \<and> r = ex_cycle_store" and a: "a = mk_arg (AId 1) 64"
    have "get_expr ex_cycle_store 1 = Some (ex_node 1 eAssign [mk_arg (AId 1) 64])"
      by (simp add: get_expr_def simp_fixture)
    with eq c a have "f t r (mk_arg (AId 1) 64) = Some y" by (simp add: ex_node_def blank_expr_def mk_arg_def)
    with IH c show False by blast
  qed
qed

lemma cycle_pass_diverges: "simp_pass (\<lambda>ty. ty = eAssign) ex_cycle_store = None"
proof -
  have "chase (\<lambda>ty. ty = eAssign) ex_cycle_store (mk_arg (AId 1) 64) = None"
    using chase_cycle by (cases "chase (\<lambda>ty. ty = eAssign) ex_cycle_store (mk_arg (AId 1) 64)") blast+
  then show ?thesis
    by (simp add: simp_pass_def ex_cycle_store_def ex_node_def expr_repl_def assign_repl_def ir_defs)
qed

subsection \<open>Properties of the simplifier\<close>

lemma simplify_run_passes:
  "sreach t r r' \<Longrightarrow> simplify t r = Some y \<Longrightarrow> simp_pass t r' \<noteq> None"
proof (induction rule: sreach.induct)
  case (sreach_refl r)
  then show ?case by (cases "simp_pass t r") (simp_all add: simplify.simps)
next
  case (sreach_step r r1 m r')
  then show ?case by (simp add: simplify.simps)
qed

lemma simplify_passes_run:
  "(\<And>r'. sreach t r r' \<Longrightarrow> simp_pass t r' \<noteq> None) \<Longrightarrow> \<exists>y. simplify t r = Some y"
proof (induction r rule: measure_induct_rule [where f = live])
  case (less r)
  show ?case
  proof (cases "simp_pass t r")
    case None with less.prems sreach_refl show ?thesis by blast
  next
    case (Some res)
    show ?thesis
    proof (cases res)
      case (Inl err) with Some show ?thesis by (simp add: simplify.simps)
    next
      case (Inr p)
      obtain r1 m where p: "p = (r1, m)" by fastforce
      show ?thesis
      proof (cases "m = []")
        case True with Some Inr p show ?thesis by (simp add: simplify.simps)
      next
        case False
        have run: "simp_pass t r = Some (Inr (r1, m))" using Some Inr p by simp
        have "\<And>r'. sreach t (compress (replaceNodes m r1)) r' \<Longrightarrow> simp_pass t r' \<noteq> None"
          using less.prems sreach_step [OF run False] by blast
        from less.IH [OF pass_live_decreases [OF run False] this] obtain y
          where "simplify t (compress (replaceNodes m r1)) = Some y" ..
        with run False show ?thesis by (simp add: simplify.simps)
      qed
    qed
  qed
qed

text \<open>
  C21: the fixpoint loop itself always terminates: it diverges exactly when one of its
  passes does (a chase on a transient cycle,
  \<open>simplify_diverges_on_transient_cycle\<close>), because the live node count strictly
  decreases with every pass that finds a replacement.
\<close>

theorem simplify_terminates:
  "(\<exists>y. simplify t r = Some y) \<longleftrightarrow> (\<forall>r'. sreach t r r' \<longrightarrow> simp_pass t r' \<noteq> None)"
  using simplify_run_passes simplify_passes_run by blast

theorem simplify_terminates_witness:
  "simp_pass (\<lambda>ty. ty = eAssign) ex_cycle_store = None \<and> simplify (\<lambda>ty. ty = eAssign) ex_cycle_store = None"
proof -
  have p: "simp_pass (\<lambda>ty. ty = eAssign) ex_cycle_store = None" by (rule cycle_pass_diverges)
  then have "\<not> (\<exists>y. simplify (\<lambda>ty. ty = eAssign) ex_cycle_store = Some y)"
    using simplify_terminates [of "\<lambda>ty. ty = eAssign" ex_cycle_store] sreach_refl by blast
  with p show ?thesis by simp
qed

text \<open>
  C22: the loop needs at most one pass more than the store has live nodes, on every
  store and for every transient predicate: running it with more passes than live nodes
  as fuel gives exactly the result of the unbounded loop, divergence included.
\<close>

theorem simplify_within_live_passes:
  assumes fuel: "live r < n"
  shows "simplify_fuel n t r = simplify t r"
  using fuel
proof (induction n arbitrary: r)
  case 0 then show ?case by simp
next
  case (Suc n)
  show ?case
  proof (cases "simp_pass t r")
    case None then show ?thesis by (simp add: simplify.simps)
  next
    case (Some res)
    show ?thesis
    proof (cases res)
      case (Inl err) with Some show ?thesis by (simp add: simplify.simps)
    next
      case (Inr p)
      obtain r1 m where p: "p = (r1, m)" by fastforce
      show ?thesis
      proof (cases "m = []")
        case True with Some Inr p show ?thesis by (simp add: simplify.simps)
      next
        case False
        have run: "simp_pass t r = Some (Inr (r1, m))" using Some Inr p by simp
        have "live (compress (replaceNodes m r1)) < n"
          using pass_live_decreases [OF run False] Suc.prems by simp
        from Suc.IH [OF this] run False show ?thesis by (simp add: simplify.simps)
      qed
    qed
  qed
qed

theorem simplify_within_live_passes_witness:
  "live ex_cycle_store < 3 \<and> simplify_fuel 3 (\<lambda>ty. ty = eAssign) ex_cycle_store = simplify (\<lambda>ty. ty = eAssign) ex_cycle_store"
proof -
  have l: "live ex_cycle_store < 3" by (simp add: live_def simp_fixture)
  from simplify_within_live_passes [OF l] l show ?thesis by simp
qed

text \<open>
  C23: the result of the loop is a fixpoint: one more pass finds no replacement and leaves the store unchanged, so running the simplifier again changes nothing.
\<close>

theorem simplify_idempotent:
  "simplify t r = Some (Inr r') \<Longrightarrow> simp_pass t r' = Some (Inr (r', [])) \<and> simplify t r' = Some (Inr r')"
  using simplify_fixpoint_raw [of t r "Inr r'"] by (simp add: simplify.simps)

theorem simplify_idempotent_witness:
  "simplify (\<lambda>ty. ty = eAssign) ex_simp_store = Some (Inr ex_simp_final) \<and>
   simp_pass (\<lambda>ty. ty = eAssign) ex_simp_final = Some (Inr (ex_simp_final, [])) \<and>
   simplify (\<lambda>ty. ty = eAssign) ex_simp_final = Some (Inr ex_simp_final)"
  using simplify_idempotent [OF ex_simp_run] ex_simp_run by simp

text \<open>
  C24: phi collapse: a phi of two undefined inputs becomes undefined (with the node's location and size), a phi of two equal inputs becomes that input, and a phi of two different defined inputs is kept.
\<close>

theorem phi_collapse:
  assumes "e_type e = ePhi" "is_undef u" "is_undef u'" "\<not> is_undef x" "x \<noteq> y"
  shows "expr_repl (e\<lparr>e_args := [u, u']\<rparr>) = Inr (Some (createUndef (e_loc e) (e_locref e) (e_size e))) \<and>
         expr_repl (e\<lparr>e_args := [x, x]\<rparr>) = Inr (Some x) \<and>
         expr_repl (e\<lparr>e_args := [x, y]\<rparr>) = Inr None"
  using assms by (simp add: expr_repl_def phi_repl_def)

theorem phi_collapse_witness:
  "expr_repl (blank_expr ePhi\<lparr>e_args := [createUndef LocNone (0, 0) 8, createUndef LocNone (0, 0) 8]\<rparr>) =
     Inr (Some (createUndef LocNone (0, 0) 0)) \<and>
   expr_repl (blank_expr ePhi\<lparr>e_args := [mk_arg (AId 4) 8, mk_arg (AId 4) 8]\<rparr>) = Inr (Some (mk_arg (AId 4) 8)) \<and>
   expr_repl (blank_expr ePhi\<lparr>e_args := [mk_arg (AId 4) 8, mk_arg (AId 5) 8]\<rparr>) = Inr None"
proof -
  have "e_type (blank_expr ePhi) = ePhi" "is_undef (createUndef LocNone (0, 0) 8)"
    "\<not> is_undef (mk_arg (AId 4) 8)" "mk_arg (AId 4) 8 \<noteq> mk_arg (AId 5) 8"
    by (simp_all add: ir_defs is_undef_def)
  from phi_collapse [OF this(1,2,2,3,4)] show ?thesis by (simp add: blank_expr_def)
qed

text \<open>
  C25: the effective-address fold is sound: when it fires, the segment is zero and the operand it returns has the value base + index * scale + displacement, in 64-bit arithmetic, for every valuation that reads literal zero as 0.
\<close>

theorem loadaddr_fold_sound:
  assumes fold: "loadaddr_repl xs = Some a" and zero: "\<And>b. isValue b 0 \<Longrightarrow> v b = (0 :: addr)"
  shows "isValue (xs ! 0) 0 \<and> v a = v (xs ! 1) + v (xs ! 2) * v (xs ! 3) + v (xs ! 4)"
  using fold zero [of "xs ! 1"] zero [of "xs ! 2"] zero [of "xs ! 3"] zero [of "xs ! 4"]
  by (auto simp: loadaddr_repl_def Let_def split: if_splits)

theorem loadaddr_fold_sound_witness:
  "loadaddr_repl [mk_arg (AUInt 0) 16, mk_arg (AId 7) 64, mk_arg (AUInt 0) 64, mk_arg (AUInt 4) 64, mk_arg (AUInt 0) 64] =
     Some (mk_arg (AId 7) 64) \<and>
   lit_val (mk_arg (AId 7) 64) = lit_val (mk_arg (AId 7) 64) + lit_val (mk_arg (AUInt 0) 64) * lit_val (mk_arg (AUInt 4) 64)
     + lit_val (mk_arg (AUInt 0) 64)"
proof -
  have f: "loadaddr_repl [mk_arg (AUInt 0) 16, mk_arg (AId 7) 64, mk_arg (AUInt 0) 64, mk_arg (AUInt 4) 64, mk_arg (AUInt 0) 64] =
     Some (mk_arg (AId 7) 64)"
    by (simp add: loadaddr_repl_def isValue_def mk_arg_def)
  from loadaddr_fold_sound [where v = lit_val, OF f lit_val_zero] f show ?thesis by simp
qed

text \<open>
  C26: the effective-address fold fires exactly on five operands with a zero segment, a zero base or displacement, and a zero index or scale.
\<close>

theorem loadaddr_fold_exact:
  "loadaddr_repl xs \<noteq> None \<longleftrightarrow>
   length xs = 5 \<and> isValue (xs ! 0) 0 \<and> (isValue (xs ! 1) 0 \<or> isValue (xs ! 4) 0) \<and>
   (isValue (xs ! 2) 0 \<or> isValue (xs ! 3) 0)"
  by (auto simp: loadaddr_repl_def Let_def)

text \<open>
  C27: an assign becomes an alias of its source; the node's location flows to an unlocated source and never overwrites an existing one.
\<close>

theorem assign_alias:
  assumes "e_type e = eAssign" "e_args e = a # as"
  shows "\<exists>a'. expr_repl e = Inr (Some a') \<and> arg_kind a' = arg_kind a \<and> arg_size a' = arg_size a \<and>
           (arg_loc a \<noteq> LocNone \<longrightarrow> a' = a) \<and> (arg_loc a = LocNone \<longrightarrow> arg_loc a' = e_loc e) \<and>
           (arg_loc a = LocNone \<and> e_loc e \<noteq> LocNone \<longrightarrow> arg_locref a' = e_locref e)"
  using assms by (simp add: expr_repl_def assign_repl_def)

theorem assign_alias_witness:
  "expr_repl ((ex_node 2 eAssign [mk_arg (AId 1) 64])\<lparr>e_loc := LocReg, e_locref := (3, 0)\<rparr>) =
     Inr (Some \<lparr>arg_kind = AId 1, arg_size = 64, arg_loc = LocReg, arg_locref = (3, 0)\<rparr>)"
proof -
  have "e_type ((ex_node 2 eAssign [mk_arg (AId 1) 64])\<lparr>e_loc := LocReg, e_locref := (3, 0)\<rparr>) = eAssign"
    "e_args ((ex_node 2 eAssign [mk_arg (AId 1) 64])\<lparr>e_loc := LocReg, e_locref := (3, 0)\<rparr>) = [mk_arg (AId 1) 64]"
    by (simp_all add: ex_node_def blank_expr_def)
  from assign_alias [OF this] show ?thesis by (auto simp: mk_arg_def)
qed

text \<open>
  C28: the return rule on any operand list whose chases all end: every operand is
  replaced by the end of its chase through transient nodes, and an operand whose chase
  ends at a function input is dropped, so a return whose values all come from inputs
  loses all its operands (the dead-return-input rule of the specification).
\<close>

theorem ret_prune_drops_inputs:
  "\<forall>x\<in>set xs. chase t r x = Some (Inr (f x)) \<Longrightarrow>
   ret_prune t r xs = Some (Inr (filter (\<lambda>a. \<not> is_input_ref r a) (map f xs)))"
  by (induction xs) auto

theorem ret_prune_drops_inputs_witness:
  "ret_prune (\<lambda>ty. ty = eAssign) ex_simp_store [mk_arg (AId 2) 64, mk_arg (AUInt 7) 64] = Some (Inr [mk_arg (AUInt 7) 64])"
proof -
  have h: "\<forall>x\<in>set [mk_arg (AId 2) 64, mk_arg (AUInt 7) 64]. chase (\<lambda>ty. ty = eAssign) ex_simp_store x =
      Some (Inr ((\<lambda>x. if x = mk_arg (AId 2) 64 then mk_arg (AId 1) 64 else x) x))"
    by (simp add: chase.simps get_expr_def simp_fixture ir_defs)
  show ?thesis
    using ret_prune_drops_inputs [OF h]
    by (simp add: is_input_ref_def get_expr_def simp_fixture ir_defs)
qed

text \<open>
  C29: the chase of the return rule does not end on a cycle of transient nodes, so the simplifier does not terminate on such a store, although the specification states termination unconditionally.
\<close>

theorem simplify_diverges_on_transient_cycle:
  "simplify (\<lambda>ty. ty = eAssign) ex_cycle_store = None"
  using cycle_pass_diverges by (simp add: simplify.simps)

end
