(* ===== verification/Session.thy ===== *)
theory Session
  imports Template Store
begin

text \<open>
  The lowering session of \<open>SSAGen\<close> (src/main/SSAGen.cpp) and the helpers the lowering
  engine calls: \<open>addExpression\<close> (lines 256--265), \<open>parseIRArg2SSAArg\<close> (339--362),
  \<open>parseMemArgToExpr\<close> (42--71), \<open>insertLabel\<close> (231--238), \<open>setup\<close> (269--286),
  \<open>setupForInstr\<close> (287--294), \<open>activateBlock\<close> (334--337), and the Register-Update
  Propagator \<open>addUpdateRegExpressions\<close> (370--392).  The session holds the fields of
  \<open>SSAGen\<close> the lowering reads and writes; the active block is an identifier re-resolved
  on each use, as the specification's design note asks, and a missing block is the error
  \<open>UnknownBlock\<close> where the C++ code would dereference a null pointer.
\<close>

record session =
  s_rep :: ssarep
  s_active :: hid
  s_args :: "irarg list"
  s_tmps :: "(nat \<times> irarg) list"
  s_eob :: bool
  s_fall :: bool
  s_instr :: "instruction option"
  s_lastop :: hid
  s_calls :: "addr list"

text \<open>\<open>SSAArgument::createVal\<close>, \<open>createId\<close> and \<open>createMem\<close> (declared outside the
  sources).  A memory argument carries its memory as location: the store and load lowering
  assert exactly that of it.\<close>

definition ssa_val :: "addr \<Rightarrow> nat \<Rightarrow> ssaarg" where
  "ssa_val v n = mk_arg (AUInt v) n"

definition createId :: "hid \<Rightarrow> nat \<Rightarrow> ssaarg" where
  "createId i n = mk_arg (AId i) n"

definition createMem :: "hid \<Rightarrow> ssaarg" where
  "createMem i = \<lparr>arg_kind = AMem i, arg_size = 0, arg_loc = LocMem, arg_locref = (i, 0)\<rparr>"

definition add_expression :: "ssaexpr \<Rightarrow> session \<Rightarrow> (hid \<times> session) result" where
  "add_expression e s =
     (case getBlock (s_rep s) (s_active s) of
        None \<Rightarrow> Inl (UnknownBlock (s_active s))
      | Some _ \<Rightarrow>
          (let e' = (case s_instr s of Some ins \<Rightarrow> e\<lparr>e_instr_addr := i_addr ins\<rparr> | None \<Rightarrow> e);
               (r', i) = addAtEnd e' (s_active s) (s_rep s)
           in Inr (i, s\<lparr>s_rep := r', s_lastop := (if e_type e = eOp then i else s_lastop s)\<rparr>)))"

definition parseIRArg2SSAArg :: "irarg \<Rightarrow> ssaarg result" where
  "parseIRArg2SSAArg x =
     (case x of
        ArgUnkn \<Rightarrow> Inr createEmpty
      | ArgSSAId i n \<Rightarrow> Inr (createId i n)
      | ArgFloat f n \<Rightarrow> Inr (mk_arg (AFloat f) n)
      | ArgUInt v n \<Rightarrow> Inr (mk_arg (AUInt v) n)
      | ArgSInt v n \<Rightarrow> Inr (mk_arg (ASInt v) n)
      | ArgMem i \<Rightarrow> Inr (createMem i)
      | ArgStack i k n \<Rightarrow> Inr (mk_arg (AStack i k) n)
      | ArgReg i k n \<Rightarrow> Inr (mk_arg (AReg i k) n)
      | _ \<Rightarrow> Inl AssertFail)"

definition reg_arg :: "arch \<Rightarrow> hid \<Rightarrow> ssaarg result" where
  "reg_arg a i = (case getRegister a i of None \<Rightarrow> Inl (UnknownRegister i) | Some r \<Rightarrow> Inr (createRegArg r))"

text \<open>A register field 0 is absent and becomes the literal 0.\<close>

definition mem_part :: "arch \<Rightarrow> hid \<Rightarrow> ssaarg result" where
  "mem_part a i = (if i \<noteq> 0 then reg_arg a i else Inr (ssa_val 0 (arch_bitbase a)))"

definition parseMemArgToExpr :: "arch \<Rightarrow> memop \<Rightarrow> session \<Rightarrow> (irarg \<times> session) result" where
  "parseMemArgToExpr a m s =
     bind_r (mem_part a (mem_segment m)) (\<lambda>seg.
     bind_r (mem_part a (mem_base m)) (\<lambda>base.
     bind_r (mem_part a (mem_index m)) (\<lambda>idx.
     bind_r (add_expression ((blank_expr eLoadAddr)\<lparr>e_rettype := eUInt, e_size := arch_bitbase a,
                 e_args := [seg, base, idx, ssa_val (mem_scale m) (arch_bitbase a),
                            ssa_val (mem_disp m) (arch_bitbase a)]\<rparr>) s) (\<lambda>(i, s').
     Inr (ArgSSAId i (arch_bitbase a), s')))))"

definition insertLabel :: "arch \<Rightarrow> addr \<Rightarrow> session \<Rightarrow> session result" where
  "insertLabel a v s =
     map_sum id snd (add_expression ((blank_expr eLabel)\<lparr>e_rettype := ePc, e_size := arch_bitbase a,
        e_args := [ssa_val v (arch_bitbase a)]\<rparr>) s)"

definition activateBlock :: "hid \<Rightarrow> session \<Rightarrow> session" where
  "activateBlock b s = s\<lparr>s_active := b\<rparr>"

definition new_block :: "session \<Rightarrow> hid \<times> session" where
  "new_block s = (let (r', b) = createNewBlock (s_rep s) in (b, s\<lparr>s_rep := r'\<rparr>))"

definition setupForInstr :: "session \<Rightarrow> session" where
  "setupForInstr s = s\<lparr>s_eob := False, s_fall := True, s_instr := None, s_args := [], s_tmps := []\<rparr>"

subsection \<open>Entry of a function\<close>

text \<open>
  \<open>setup\<close>: a fresh block, one input node per top-level register, and the block's end
  address.  With no top-level register the cached block pointer is still null when its end
  address is written; that is the error \<open>AssertFail\<close> here.
\<close>

definition input_node :: "register \<Rightarrow> ssaexpr" where
  "input_node reg = (blank_expr eInput)\<lparr>e_rettype := eUInt, e_loc := LocReg, e_locref := (reg_id reg, 0),
     e_size := reg_size reg\<rparr>"

fun add_all :: "ssaexpr list \<Rightarrow> session \<Rightarrow> session result" where
  "add_all [] s = Inr s"
| "add_all (e # es) s = bind_r (add_expression e s) (\<lambda>(_, s'). add_all es s')"

definition empty_session :: "ssarep \<Rightarrow> session" where
  "empty_session r = \<lparr>s_rep = r, s_active = 0, s_args = [], s_tmps = [], s_eob = False, s_fall = True,
     s_instr = None, s_lastop = 0, s_calls = []\<rparr>"

definition gen_setup :: "arch \<Rightarrow> ssarep \<Rightarrow> addr \<Rightarrow> session result" where
  "gen_setup a r v =
     (let (b, s0) = new_block (empty_session r); s1 = activateBlock b s0 in
      if top_regs a = [] then Inl AssertFail
      else bind_r (add_all (map input_node (top_regs a)) s1) (\<lambda>s2.
        Inr (s2\<lparr>s_rep := update_bb b (\<lambda>bb. bb\<lparr>bb_end := v\<rparr>) (s_rep s2)\<rparr>)))"

subsection \<open>The Register-Update Propagator\<close>

text \<open>
  The node emitted for ancestor \<open>p\<close> of the written register \<open>base\<close>: a zero-extension
  of the written value when \<open>base\<close> clears its parent on write, otherwise a partial update
  of \<open>p\<close>'s prior value at \<open>base\<close>'s offset relative to \<open>p\<close> (a 64-bit literal, so the
  difference wraps as the C++ unsigned subtraction does).
\<close>

definition upd_node :: "arch \<Rightarrow> register \<Rightarrow> hid \<Rightarrow> register \<Rightarrow> ssaexpr" where
  "upd_node a base v p =
     (blank_expr (if reg_clear_parent base then eExtend else eUpdatePart))\<lparr>e_rettype := eUInt,
        e_loc := LocReg, e_locref := (reg_id p, 0), e_size := reg_size p,
        e_args := (if reg_clear_parent base then [createId v (reg_size base)]
                   else [createRegArg p, createId v (reg_size base),
                         ssa_val (word_of_nat (reg_offset base) - word_of_nat (reg_offset p)) (arch_bitbase a)])\<rparr>"

text \<open>The walk up the parent chain; on a cyclic chain it does not end (\<open>None\<close>).\<close>

partial_function (option) upd_loop :: "arch \<Rightarrow> register \<Rightarrow> hid \<Rightarrow> register \<Rightarrow> session \<Rightarrow> session result option" where
  "upd_loop a base v reg s =
     (if reg_parent reg = 0 then Some (Inr s)
      else (case getRegister a (reg_parent reg) of
              None \<Rightarrow> Some (Inl (UnknownRegister (reg_parent reg)))
            | Some p \<Rightarrow>
                (if reg_clear_parent base \<and> reg_offset base \<noteq> 0 then Some (Inl AssertFail)
                 else (case add_expression (upd_node a base v p) s of
                         Inl err \<Rightarrow> Some (Inl err)
                       | Inr (_, s') \<Rightarrow> upd_loop a base v p s'))))"

declare upd_loop.simps [code]

definition addUpdateRegExpressions :: "arch \<Rightarrow> hid \<Rightarrow> hid \<Rightarrow> session \<Rightarrow> session result option" where
  "addUpdateRegExpressions a i v s =
     (case getRegister a i of None \<Rightarrow> Some (Inl (UnknownRegister i)) | Some b \<Rightarrow> upd_loop a b v b s)"

text \<open>The specification's aliasing invariant: the parent chain of a register, up to a
  top-level register.\<close>

inductive reg_chain :: "arch \<Rightarrow> register \<Rightarrow> register list \<Rightarrow> bool" where
  top: "reg_parent r = 0 \<Longrightarrow> reg_chain a r []"
| up: "reg_parent r \<noteq> 0 \<Longrightarrow> getRegister a (reg_parent r) = Some p \<Longrightarrow> reg_chain a p ps \<Longrightarrow>
       reg_chain a r (p # ps)"

code_pred reg_chain .

subsection \<open>Proof vocabulary and fixtures\<close>

text \<open>
  \<open>strip\<close> forgets the identifier and address a node receives when it is stored;
  \<open>active_ok\<close> says that the active block exists.  The fixture architecture has a
  64-bit register 1 with a 16-bit child 2 and an 8-bit grandchild 3 at offset 8, and a
  32-bit child 4 that clears its parent on write.
\<close>

definition strip :: "ssaexpr \<Rightarrow> ssaexpr" where
  "strip e = e\<lparr>e_id := 0, e_instr_addr := 0\<rparr>"

definition tag :: "session \<Rightarrow> ssaexpr \<Rightarrow> ssaexpr" where
  "tag s e = (case s_instr s of Some ins \<Rightarrow> e\<lparr>e_instr_addr := i_addr ins\<rparr> | None \<Rightarrow> e)"

definition active_ok :: "session \<Rightarrow> bool" where
  "active_ok s \<longleftrightarrow> getBlock (s_rep s) (s_active s) \<noteq> None"

definition ex_reg :: "hid \<Rightarrow> nat \<Rightarrow> hid \<Rightarrow> nat \<Rightarrow> bool \<Rightarrow> register" where
  "ex_reg i n p off c = \<lparr>reg_id = i, reg_size = n, reg_parent = p, reg_offset = off, reg_clear_parent = c\<rparr>"

definition ex_parch :: arch where
  "ex_parch = \<lparr>arch_registers = [ex_reg 1 64 0 0 False, ex_reg 2 16 1 0 False, ex_reg 3 8 2 8 False,
       ex_reg 4 32 1 0 True],
     arch_stacks = [], arch_memories = [1], arch_default_mem = 1, arch_bitbase = 64, arch_wordbase = 8,
     arch_instrdefs = \<lambda>_. None\<rparr>"

definition ex_session :: session where
  "ex_session = empty_session
     \<lparr>bbs = [new_bb\<lparr>bb_id := 1\<rparr>], bb_gen = 1, exprs = [(blank_expr eOp)\<lparr>e_id := 1, e_size := 8\<rparr>], expr_gen = 1\<rparr>
     \<lparr>s_active := 1\<rparr>"

subsection \<open>Lemmas\<close>

lemma strip_tag [simp]: "strip ((tag s e)\<lparr>e_id := i\<rparr>) = strip e"
  by (cases "s_instr s") (simp_all add: strip_def tag_def)

lemma add_expression_ok:
  assumes "active_ok s"
  shows "\<exists>s'. add_expression e s = Inr (Suc (expr_gen (s_rep s)), s') \<and>
    exprs (s_rep s') = exprs (s_rep s) @ [(tag s e)\<lparr>e_id := Suc (expr_gen (s_rep s))\<rparr>] \<and>
    expr_gen (s_rep s') = Suc (expr_gen (s_rep s)) \<and> active_ok s' \<and>
    s_active s' = s_active s \<and> s_instr s' = s_instr s \<and> s_args s' = s_args s \<and> s_tmps s' = s_tmps s \<and>
    s_eob s' = s_eob s \<and> s_fall s' = s_fall s \<and> s_calls s' = s_calls s \<and>
    bb_id ` set (bbs (s_rep s')) = bb_id ` set (bbs (s_rep s))"
  using assms
  by (auto simp: add_expression_def active_ok_def addAtEnd_def push_expr_def tag_def getBlock_update_bb
      getBlock_def find_update_where split: option.splits)

lemma strip_upd_node [simp]: "strip (upd_node a b v p) = upd_node a b v p"
  by (simp add: strip_def upd_node_def blank_expr_def)

lemma ex_session_ok: "active_ok ex_session"
  by (simp add: active_ok_def ex_session_def empty_session_def getBlock_def)

lemma ex_chain3: "reg_chain ex_parch (ex_reg 3 8 2 8 False) [ex_reg 2 16 1 0 False, ex_reg 1 64 0 0 False]"
  by (intro reg_chain.intros) (simp_all add: ex_parch_def ex_reg_def getRegister_def)

subsection \<open>Properties of the propagator\<close>

lemma upd_loop_chain:
  assumes "reg_chain a reg ps" and "\<not> (reg_clear_parent b \<and> reg_offset b \<noteq> 0)" and "active_ok s"
  shows "\<exists>s'. upd_loop a b v reg s = Some (Inr s') \<and>
           take (length (exprs (s_rep s))) (exprs (s_rep s')) = exprs (s_rep s) \<and>
           map strip (drop (length (exprs (s_rep s))) (exprs (s_rep s'))) = map (upd_node a b v) ps \<and>
           s_active s' = s_active s \<and> active_ok s'"
  using assms(1,3)
proof (induction arbitrary: s rule: reg_chain.induct)
  case (top r a)
  then show ?case by (simp add: upd_loop.simps)
next
  case (up r a p ps)
  from add_expression_ok [OF up.prems, of "upd_node a b v p"] obtain s1 where
    add: "add_expression (upd_node a b v p) s = Inr (Suc (expr_gen (s_rep s)), s1)"
    and e1: "exprs (s_rep s1) = exprs (s_rep s) @ [(tag s (upd_node a b v p))\<lparr>e_id := Suc (expr_gen (s_rep s))\<rparr>]"
    and ok1: "active_ok s1" and act1: "s_active s1 = s_active s"
    by blast
  from up.IH [OF ok1] obtain s' where run: "upd_loop a b v p s1 = Some (Inr s')"
    and tk: "take (length (exprs (s_rep s1))) (exprs (s_rep s')) = exprs (s_rep s1)"
    and dr: "map strip (drop (length (exprs (s_rep s1))) (exprs (s_rep s'))) = map (upd_node a b v) ps"
    and rest: "s_active s' = s_active s1" "active_ok s'"
    by blast
  have loop: "upd_loop a b v r s = Some (Inr s')"
    using up.hyps(1,2) assms(2) add run by (subst upd_loop.simps) simp
  let ?n = "length (exprs (s_rep s))"
  have len: "length (exprs (s_rep s1)) = Suc ?n" using e1 by simp
  let ?x = "(tag s (upd_node a b v p))\<lparr>e_id := Suc (expr_gen (s_rep s))\<rparr>"
  let ?D = "drop (Suc ?n) (exprs (s_rep s'))"
  have "exprs (s_rep s') = exprs (s_rep s1) @ ?D"
    using tk len by (metis append_take_drop_id)
  then have S: "exprs (s_rep s') = exprs (s_rep s) @ ?x # ?D" using e1 by simp
  have "take ?n (exprs (s_rep s')) = exprs (s_rep s)" by (subst S) simp
  moreover have "drop ?n (exprs (s_rep s')) = ?x # ?D" by (subst S) simp
  ultimately show ?case using loop dr len rest act1 by simp
qed

text \<open>
  C30: on a register whose parent chain reaches a top-level register, the propagator returns and appends exactly one node per ancestor, in chain order, each the partial update or zero-extension of that ancestor (Register-Update Propagator, section 4.6).
\<close>

theorem propagate_chain:
  assumes "reg_chain a reg ps" and "\<not> (reg_clear_parent b \<and> reg_offset b \<noteq> 0)" and "active_ok s"
  shows "\<exists>s'. upd_loop a b v reg s = Some (Inr s') \<and>
           take (length (exprs (s_rep s))) (exprs (s_rep s')) = exprs (s_rep s) \<and>
           map strip (drop (length (exprs (s_rep s))) (exprs (s_rep s'))) = map (upd_node a b v) ps \<and>
           s_active s' = s_active s \<and> active_ok s'"
  using assms by (rule upd_loop_chain)

theorem propagate_chain_witness:
  "\<exists>s'. upd_loop ex_parch (ex_reg 3 8 2 8 False) 1 (ex_reg 3 8 2 8 False) ex_session = Some (Inr s') \<and>
     take 1 (exprs (s_rep s')) = exprs (s_rep ex_session) \<and>
     map strip (drop 1 (exprs (s_rep s'))) =
       [upd_node ex_parch (ex_reg 3 8 2 8 False) 1 (ex_reg 2 16 1 0 False),
        upd_node ex_parch (ex_reg 3 8 2 8 False) 1 (ex_reg 1 64 0 0 False)] \<and>
     s_active s' = s_active ex_session \<and> active_ok s'"
proof -
  have "\<not> (reg_clear_parent (ex_reg 3 8 2 8 False) \<and> reg_offset (ex_reg 3 8 2 8 False) \<noteq> 0)"
    by (simp add: ex_reg_def)
  from propagate_chain [OF ex_chain3 this ex_session_ok, where v = 1]
  show ?thesis by (simp add: ex_session_def empty_session_def)
qed

lemma upd_node_args:
  "x \<in> set (e_args (upd_node a b v p)) \<Longrightarrow> arg_kind x = AId j \<Longrightarrow> j = v"
  by (auto simp: upd_node_def blank_expr_def createRegArg_def createId_def ssa_val_def mk_arg_def split: if_splits)

lemma upd_node_reads_value: "createId v (reg_size b) \<in> set (e_args (upd_node a b v p))"
  by (simp add: upd_node_def blank_expr_def)

text \<open>
  C31: for every chain, every node the propagator emits reads the written value itself,
  and no other node: no level reads the node emitted for the level below, so the update
  of an outer register does not see the update of an inner one (section 4.6 of the
  specification describes each update as built on the previous level's result).
\<close>

theorem propagate_feeds_original_value:
  assumes "reg_chain a reg ps" and "\<not> (reg_clear_parent b \<and> reg_offset b \<noteq> 0)" and "active_ok s"
  shows "\<exists>s'. upd_loop a b v reg s = Some (Inr s') \<and>
           (\<forall>e\<in>set (drop (length (exprs (s_rep s))) (exprs (s_rep s'))).
              createId v (reg_size b) \<in> set (e_args e) \<and>
              (\<forall>x\<in>set (e_args e). \<forall>j. arg_kind x = AId j \<longrightarrow> j = v))"
proof -
  from upd_loop_chain [OF assms] obtain s' where run: "upd_loop a b v reg s = Some (Inr s')"
    and dr: "map strip (drop (length (exprs (s_rep s))) (exprs (s_rep s'))) = map (upd_node a b v) ps"
    by blast
  have "\<forall>e\<in>set (drop (length (exprs (s_rep s))) (exprs (s_rep s'))). \<exists>p. e_args e = e_args (upd_node a b v p)"
  proof
    fix e assume "e \<in> set (drop (length (exprs (s_rep s))) (exprs (s_rep s')))"
    then have "strip e \<in> set (map (upd_node a b v) ps)" by (simp only: dr [symmetric] set_map) (rule imageI)
    then obtain p where "strip e = upd_node a b v p" by auto
    then have "e_args e = e_args (upd_node a b v p)" by (metis strip_def ssaexpr.select_convs(9) ssaexpr.update_convs(1,10) ssaexpr.surjective)
    then show "\<exists>p. e_args e = e_args (upd_node a b v p)" ..
  qed
  with run show ?thesis using upd_node_args upd_node_reads_value by metis
qed

theorem propagate_feeds_original_value_witness:
  "\<exists>s'. upd_loop ex_parch (ex_reg 3 8 2 8 False) 1 (ex_reg 3 8 2 8 False) ex_session = Some (Inr s') \<and>
     (\<forall>e\<in>set (drop 1 (exprs (s_rep s'))). createId 1 8 \<in> set (e_args e) \<and>
        (\<forall>x\<in>set (e_args e). \<forall>j. arg_kind x = AId j \<longrightarrow> j = 1))"
proof -
  have "\<not> (reg_clear_parent (ex_reg 3 8 2 8 False) \<and> reg_offset (ex_reg 3 8 2 8 False) \<noteq> 0)"
    by (simp add: ex_reg_def)
  from propagate_feeds_original_value [OF ex_chain3 this ex_session_ok, where v = 1]
  show ?thesis by (simp add: ex_session_def empty_session_def ex_reg_def)
qed

text \<open>
  C32: the offset operand of a partial update is the register's offset relative to the ancestor, without wrap-around, when the ancestor's offset is not above the register's.
\<close>

theorem update_offset_bounds:
  assumes "\<not> reg_clear_parent b" "reg_offset p \<le> reg_offset b" "reg_offset b < 2 ^ 64"
  shows "\<exists>w. e_args (upd_node a b v p) ! 2 = ssa_val w (arch_bitbase a) \<and> unat w = reg_offset b - reg_offset p"
proof -
  have "word_of_nat (reg_offset b) - word_of_nat (reg_offset p) = (word_of_nat (reg_offset b - reg_offset p) :: addr)"
    using assms(2) by (simp add: of_nat_diff)
  moreover have "unat (word_of_nat (reg_offset b - reg_offset p) :: addr) = reg_offset b - reg_offset p"
    using assms(3) by (simp add: unat_of_nat)
  ultimately show ?thesis
    using assms(1) by (intro exI [of _ "word_of_nat (reg_offset b - reg_offset p)"]) (simp add: upd_node_def blank_expr_def)
qed

theorem update_offset_bounds_witness:
  "\<exists>w. e_args (upd_node ex_parch (ex_reg 3 8 2 8 False) 1 (ex_reg 2 16 1 0 False)) ! 2 = ssa_val w 64 \<and> unat w = 8"
proof -
  have "\<not> reg_clear_parent (ex_reg 3 8 2 8 False)" "reg_offset (ex_reg 2 16 1 0 False) \<le> reg_offset (ex_reg 3 8 2 8 False)"
    "reg_offset (ex_reg 3 8 2 8 False) < 2 ^ 64" by (simp_all add: ex_reg_def)
  from update_offset_bounds [where a = ex_parch and v = 1, OF this] show ?thesis by (simp add: ex_parch_def ex_reg_def)
qed

text \<open>
  C33: a register that clears its parent on write must sit at offset 0; otherwise propagation is a fatal assertion.
\<close>

theorem clear_parent_offset_fatal:
  "reg_clear_parent b \<Longrightarrow> reg_offset b \<noteq> 0 \<Longrightarrow> reg_parent reg \<noteq> 0 \<Longrightarrow> getRegister a (reg_parent reg) = Some p \<Longrightarrow>
   upd_loop a b v reg s = Some (Inl AssertFail)"
  by (simp add: upd_loop.simps)

theorem clear_parent_offset_fatal_witness:
  "upd_loop ex_parch (ex_reg 5 8 4 8 True) 1 (ex_reg 5 8 4 8 True) ex_session = Some (Inl AssertFail)"
  by (rule clear_parent_offset_fatal) (simp_all add: ex_reg_def ex_parch_def getRegister_def)

end
