(* ===== verification/LowerOps.thy ===== *)
theory LowerOps
  imports Session Resolver
begin

text \<open>
  The non-recursive pieces of \<open>SSAGen::parseExpression\<close> (src/main/SSAGen.cpp
  lines 418--1066): the leaf cases (memory operand, scratch reference, instruction
  pointer), the undefine case, the destination handling of the assign case, and the
  session operations the control-flow cases use.  A write through a block pointer that
  \<open>getBlock\<close> may return null for is \<open>blk_upd\<close>, whose missing block is the error
  \<open>UnknownBlock\<close>.
\<close>

type_synonym 'a step = "('a \<times> session) result"

definition sess_rep :: "(ssarep \<Rightarrow> ssarep) \<Rightarrow> session \<Rightarrow> session" where
  "sess_rep f s = s\<lparr>s_rep := f (s_rep s)\<rparr>"

definition blk_upd :: "hid \<Rightarrow> (ssarep \<Rightarrow> ssarep) \<Rightarrow> session \<Rightarrow> session result" where
  "blk_upd i f s = (case getBlock (s_rep s) i of None \<Rightarrow> Inl (UnknownBlock i) | Some _ \<Rightarrow> Inr (sess_rep f s))"

text \<open>Adding a node and returning the \<open>IRArgument::createSSAId\<close> of it.\<close>

definition emit :: "ssaexpr \<Rightarrow> nat \<Rightarrow> session \<Rightarrow> irarg step" where
  "emit e n s = bind_r (add_expression e s) (\<lambda>(i, s'). Inr (ArgSSAId i n, s'))"

definition node :: "ssaexprtype \<Rightarrow> ssatype \<Rightarrow> nat \<Rightarrow> ssaarg list \<Rightarrow> ssaexpr" where
  "node t rt n xs = (blank_expr t)\<lparr>e_rettype := rt, e_size := n, e_args := xs\<rparr>"

definition at_loc :: "ssaloc \<Rightarrow> locref \<Rightarrow> ssaexpr \<Rightarrow> ssaexpr" where
  "at_loc l lr e = e\<lparr>e_loc := l, e_locref := lr\<rparr>"

subsection \<open>Leaf operands\<close>

text \<open>A memory operand (lines 428--440): the effective address, then a load of it.\<close>

definition lower_memop :: "arch \<Rightarrow> memop \<Rightarrow> nat \<Rightarrow> session \<Rightarrow> irarg step" where
  "lower_memop a m n s =
     bind_r (parseMemArgToExpr a m s) (\<lambda>(ad, s1).
     bind_r (parseIRArg2SSAArg ad) (\<lambda>c.
       emit (at_loc LocMem (arch_default_mem a, 0)
               (node eLoad eUInt n [c, ssa_val (word_of_nat n) (arch_bitbase a)])) n s1))"

text \<open>A scratch reference (lines 441--451) must name a defined scratch variable.\<close>

definition lower_tmp :: "nat \<Rightarrow> session \<Rightarrow> irarg step" where
  "lower_tmp t s =
     (if t = 0 then Inl AssertFail
      else (case map_of (s_tmps s) t of Some v \<Rightarrow> Inr (v, s) | None \<Rightarrow> Inl UnknownTmp))"

text \<open>The instruction pointer (lines 452--453): the address after the instruction.\<close>

definition lower_ip :: "arch \<Rightarrow> session \<Rightarrow> irarg step" where
  "lower_ip a s =
     (case s_instr s of None \<Rightarrow> Inl NullInstr
      | Some ins \<Rightarrow> Inr (createVal (i_addr ins + i_size ins) (arch_bitbase a), s))"

text \<open>Writing scratch variable \<open>t\<close>: the first definition of \<open>t\<close> is overwritten, or a
  new one appended (the loops over \<open>tmpdefs\<close> in the assign case).\<close>

definition set_tmp :: "nat \<Rightarrow> irarg \<Rightarrow> session \<Rightarrow> session" where
  "set_tmp t v s =
     s\<lparr>s_tmps := (if t \<in> fst ` set (s_tmps s)
                  then (let k = the (find_index (\<lambda>d. fst d = t) (s_tmps s)) in (s_tmps s)[k := (t, v)])
                  else s_tmps s @ [(t, v)])\<rparr>"

definition drop_tmp :: "nat \<Rightarrow> session \<Rightarrow> session" where
  "drop_tmp t s =
     s\<lparr>s_tmps := (case find_index (\<lambda>d. fst d = t) (s_tmps s) of
                   None \<Rightarrow> s_tmps s | Some k \<Rightarrow> take k (s_tmps s) @ drop (Suc k) (s_tmps s))\<rparr>"

subsection \<open>Undefine\<close>

text \<open>Lines 460--497: each listed location is marked undefined.\<close>

definition undef_ok :: "irarg \<Rightarrow> bool" where
  "undef_ok x = (case x of ArgArg _ \<Rightarrow> True | ArgReg _ _ _ \<Rightarrow> True | ArgStack _ _ _ \<Rightarrow> True
     | ArgTmp _ \<Rightarrow> True | _ \<Rightarrow> False)"

fun undef_each :: "arch \<Rightarrow> irarg list \<Rightarrow> session \<Rightarrow> session result option" where
  "undef_each a [] s = Some (Inr s)"
| "undef_each a (x # xs) s =
     (if \<not> undef_ok x then Some (Inl AssertFail)
      else lthen (replaceArg (s_args s) x) (\<lambda>x'.
        (case x' of
           ArgReg i k n \<Rightarrow>
             lthen (Some (add_expression (at_loc LocReg (i, k) (node eUndef eUInt n [])) s)) (\<lambda>(j, s1).
             lthen (addUpdateRegExpressions a i j s1) (\<lambda>s2. undef_each a xs s2))
         | ArgStack i k n \<Rightarrow>
             lthen (Some (add_expression (at_loc LocStack (i, k) (node eUndef eUInt n [])) s)) (\<lambda>(_, s1).
             undef_each a xs s1)
         | ArgTmp t \<Rightarrow> undef_each a xs (drop_tmp t s)
         | _ \<Rightarrow> Some (Inl AssertFail))))"

definition lower_undef :: "arch \<Rightarrow> irarg list \<Rightarrow> session \<Rightarrow> irarg step option" where
  "lower_undef a xs s = lthen (undef_each a xs s) (\<lambda>s'. Some (Inr (ArgUnkn, s')))"

subsection \<open>Assign\<close>

text \<open>
  Lines 506--601.  The branch at lines 506--545 (retarget an unlocated source node onto
  a register or stack destination, or let a scratch destination name it) is taken only
  when the lowered source has type \<open>IR_ARGTYPE_ID\<close>, a template-expression reference;
  \<open>parseExpression\<close> never returns one (it returns \<open>createSSAId\<close> references,
  literals and leaf operands), so the branch is dead and the node's return type is
  always \<open>eUInt\<close>.  Lines 546--601 then build a new node for the value, placed by
  the kind of the destination; a register destination also runs the propagator.
\<close>

definition assign_to :: "arch \<Rightarrow> irarg \<Rightarrow> irarg \<Rightarrow> session \<Rightarrow> irarg step option" where
  "assign_to a dst src s =
     (let n = irarg_size src in
      lthen (Some (parseIRArg2SSAArg src)) (\<lambda>c.
        (case dst of
           ArgTmp t \<Rightarrow>
             lthen (Some (add_expression (node eAssign eUInt n [c]) s)) (\<lambda>(j, s1).
             Some (Inr (ArgUnkn, set_tmp t (ArgSSAId j n) s1)))
         | ArgMemOp m _ \<Rightarrow>
             lthen (Some (parseMemArgToExpr a m s)) (\<lambda>(ad, s1).
             lthen (Some (parseIRArg2SSAArg ad)) (\<lambda>c0.
             Some (emit (at_loc LocMem (arch_default_mem a, 0) (node eStore eMemaccess 0 [c0, c])) 0 s1)))
         | ArgReg i k w \<Rightarrow>
             lthen (Some (add_expression (at_loc LocReg (i, k) (node eAssign eUInt w [c])) s)) (\<lambda>(j, s1).
             lthen (addUpdateRegExpressions a i j s1) (\<lambda>s2. Some (Inr (ArgSSAId j w, s2))))
         | ArgStack i k w \<Rightarrow> Some (emit (at_loc LocStack (i, k) (node eAssign eUInt w [c])) w s)
         | ArgSSAId _ _ \<Rightarrow> Some (emit (node eAssign eUInt n [c]) n s)
         | _ \<Rightarrow> Some (Inl AssertFail))))"

subsection \<open>Blocks of the control-flow cases\<close>

definition set_ft :: "hid \<Rightarrow> hid \<Rightarrow> session \<Rightarrow> session result" where
  "set_ft i t s = blk_upd i (set_fallthrough i t) s"

definition link_blk :: "hid \<Rightarrow> hid \<Rightarrow> session \<Rightarrow> session result" where
  "link_blk i t s = bind_r (blk_upd i id s) (\<lambda>_. blk_upd t (link i t) s)"

definition cjmp_node :: "arch \<Rightarrow> ssaarg \<Rightarrow> hid \<Rightarrow> ssaexpr" where
  "cjmp_node a c t = node eCJmp ePc (arch_bitbase a) [c, createBlock t]"

end
