(* ===== verification/LowerCases.thy ===== *)
theory LowerCases
  imports LowerOps
begin

text \<open>
  The cases of \<open>SSAGen::parseExpression\<close> (src/main/SSAGen.cpp lines 418--1066) that
  recurse into subexpressions.  Each is a function of the recursive lowering \<open>rec\<close>,
  which lowers a list of template arguments in order and returns their values;
  \<open>Lower\<close> ties the knot.  \<open>parse_conv\<close> is the recurring
  \<open>parseIRArg2SSAArg (parseExpression (e))\<close>; an out-of-range
  \<open>subExpressions[i]\<close> (undefined behaviour in C++) is the error \<open>AssertFail\<close>.
\<close>

type_synonym lowerer = "irarg list \<Rightarrow> session \<Rightarrow> irarg list step option"

definition sub :: "irarg list \<Rightarrow> nat \<Rightarrow> irarg result" where
  "sub xs i = (if i < length xs then Inr (xs ! i) else Inl AssertFail)"

definition parse1 :: "lowerer \<Rightarrow> irarg \<Rightarrow> session \<Rightarrow> irarg step option" where
  "parse1 rec x s = lthen (rec [x] s) (\<lambda>(vs, s'). Some (Inr (hd vs, s')))"

definition parse_conv :: "lowerer \<Rightarrow> irarg \<Rightarrow> session \<Rightarrow> ssaarg step option" where
  "parse_conv rec x s = lthen (parse1 rec x s) (\<lambda>(v, s'). Some (map_sum id (\<lambda>c. (c, s')) (parseIRArg2SSAArg v)))"

fun parse_convs :: "lowerer \<Rightarrow> irarg list \<Rightarrow> session \<Rightarrow> ssaarg list step option" where
  "parse_convs rec [] s = Some (Inr ([], s))"
| "parse_convs rec (x # xs) s =
     lthen (parse_conv rec x s) (\<lambda>(c, s1). lthen (parse_convs rec xs s1) (\<lambda>(cs, s2). Some (Inr (c # cs, s2))))"

definition op_of :: "irmod \<Rightarrow> optype" where
  "op_of m = (case m of ModOp p \<Rightarrow> p | _ \<Rightarrow> eOpOther 0)"

definition flag_of :: "irmod \<Rightarrow> nat" where
  "flag_of m = (case m of ModFlag k \<Rightarrow> k | _ \<Rightarrow> 0)"

text \<open>
  \<open>expression.size = sizeArg\<close> in the cast case converts an \<open>IRArgument\<close> to a width;
  the conversion is declared outside the sources and reads the literal's value.
\<close>

text \<open>
  \<open>expression.size = sizeArg\<close> (line 806) converts the width operand after line 805
  has overwritten its type with \<open>IR_ARGTYPE_UINT\<close>, so the conversion reads the
  operand's payload as an unsigned value: a literal gives its value (a signed one its
  64-bit two's-complement pattern); for any other operand the payload is not determined
  by the model and is taken as 0.
\<close>

definition cast_width :: "irarg \<Rightarrow> nat" where
  "cast_width x = (case x of ArgUInt v _ \<Rightarrow> unat v | ArgSInt i _ \<Rightarrow> nat (i mod 2 ^ 64) | _ \<Rightarrow> 0)"

subsection \<open>Operators and side-effecting nodes\<close>

text \<open>Lines 673--686: the result size is the largest operand size.\<close>

definition lower_op :: "lowerer \<Rightarrow> irmod \<Rightarrow> ssatype \<Rightarrow> irarg list \<Rightarrow> session \<Rightarrow> irarg step option" where
  "lower_op rec md rt xs s =
     lthen (parse_convs rec xs s) (\<lambda>(cs, s1).
       (let n = foldl max 0 (map arg_size cs) in Some (emit ((node eOp rt n cs)\<lparr>e_op := op_of md\<rparr>) n s1)))"

text \<open>
  Lines 688--723: the call records a literal target, reads every top-level register, and
  is followed by one output node per top-level register.
\<close>

definition output_node :: "ssaarg \<Rightarrow> register \<Rightarrow> ssaexpr" where
  "output_node x reg = at_loc LocReg (reg_id reg, 0) (node eOutput eUInt (reg_size reg) [x])"

definition lower_call :: "lowerer \<Rightarrow> arch \<Rightarrow> ssatype \<Rightarrow> irarg list \<Rightarrow> session \<Rightarrow> irarg step option" where
  "lower_call rec a rt xs s =
     (if length xs \<noteq> 1 then Some (Inl AssertFail)
      else lthen (parse_conv rec (xs ! 0) s) (\<lambda>(c, s1).
        (let s2 = (case arg_kind c of AUInt v \<Rightarrow> s1\<lparr>s_calls := s_calls s1 @ [v]\<rparr> | _ \<Rightarrow> s1) in
         lthen (Some (add_expression (node eCall rt 0 (c # map createRegArg (top_regs a))) s2)) (\<lambda>(i, s3).
         lthen (Some (add_all (map (output_node (createId i 0)) (top_regs a)) s3)) (\<lambda>s4.
         Some (Inr (ArgSSAId i 0, s4)))))))"

text \<open>Lines 724--741: the return reads every top-level register and ends the block.\<close>

definition lower_return :: "lowerer \<Rightarrow> arch \<Rightarrow> irarg list \<Rightarrow> session \<Rightarrow> irarg step option" where
  "lower_return rec a xs s =
     (if length xs \<noteq> 1 then Some (Inl AssertFail)
      else lthen (parse_conv rec (xs ! 0) s) (\<lambda>(c, s1).
        Some (emit (node eReturn ePc (arch_bitbase a) (c # map createRegArg (top_regs a))) (arch_bitbase a)
                (s1\<lparr>s_eob := True, s_fall := False\<rparr>))))"

definition lower_syscall :: "lowerer \<Rightarrow> irarg list \<Rightarrow> session \<Rightarrow> irarg step option" where
  "lower_syscall rec xs s =
     lthen (parse_convs rec xs s) (\<lambda>(cs, s1). Some (emit (node eSyscall eTypeUnknown 0 cs) 0 s1))"

text \<open>Lines 750--759: the trap ends the block before its operands are lowered.\<close>

definition lower_trap :: "lowerer \<Rightarrow> irarg list \<Rightarrow> session \<Rightarrow> irarg step option" where
  "lower_trap rec xs s =
     lthen (parse_convs rec xs (s\<lparr>s_eob := True, s_fall := False\<rparr>)) (\<lambda>(cs, s1).
       Some (emit (node eTrap eTypeUnknown 0 cs) 0 s1))"

subsection \<open>Width-changing nodes\<close>

text \<open>Lines 763--774: the extension width must fold to a literal.\<close>

definition lower_extend :: "lowerer \<Rightarrow> arch \<Rightarrow> ssatype \<Rightarrow> irarg list \<Rightarrow> session \<Rightarrow> irarg step option" where
  "lower_extend rec a rt xs s =
     (if length xs \<noteq> 2 then Some (Inl AssertFail)
      else lthen (parse_conv rec (xs ! 0) s) (\<lambda>(c, s1).
        lthen (Some (parseConstExpression a (s_instr s1) (s_args s1) (xs ! 1))) (\<lambda>w.
          (case w of
             ArgUInt v _ \<Rightarrow> Some (emit (node eExtend rt (unat v) [c]) (unat v) s1)
           | _ \<Rightarrow> Some (Inl AssertFail)))))"

definition lower_split :: "lowerer \<Rightarrow> irarg list \<Rightarrow> session \<Rightarrow> irarg step option" where
  "lower_split rec xs s =
     lthen (parse_convs rec xs s) (\<lambda>(cs, s1).
       (if length cs \<le> 2 then Some (Inl AssertFail)
        else (let n = (case arg_kind (cs ! 2) of AUInt v \<Rightarrow> unat v | _ \<Rightarrow> 0) in
              Some (emit (node eSplit eUInt n cs) n s1))))"

definition lower_append :: "lowerer \<Rightarrow> irarg list \<Rightarrow> session \<Rightarrow> irarg step option" where
  "lower_append rec xs s =
     lthen (parse_convs rec xs s) (\<lambda>(cs, s1).
       (let n = sum_list (map arg_size cs) in Some (emit (node eAppend eUInt n cs) n s1)))"

text \<open>
  Lines 798--809: the assertion \<open>assert (sizeArg.type = IR_ARGTYPE_UINT)\<close> assigns
  instead of comparing, so the width is never checked.
\<close>

definition lower_cast :: "lowerer \<Rightarrow> ssatype \<Rightarrow> irarg list \<Rightarrow> session \<Rightarrow> irarg step option" where
  "lower_cast rec rt xs s =
     (if length xs \<noteq> 2 then Some (Inl AssertFail)
      else lthen (parse_conv rec (xs ! 0) s) (\<lambda>(c, s1).
        lthen (replaceArg (s_args s1) (xs ! 1)) (\<lambda>w.
          (let n = cast_width w in Some (emit (node eCast rt n [c]) n s1)))))"

subsection \<open>Memory\<close>

text \<open>Lines 811--842: the first operand must lower to a memory location.\<close>

definition lower_store :: "lowerer \<Rightarrow> irarg list \<Rightarrow> session \<Rightarrow> irarg step option" where
  "lower_store rec xs s =
     (if length xs \<noteq> 3 then Some (Inl AssertFail)
      else lthen (parse_conv rec (xs ! 0) s) (\<lambda>(m, s1).
        (if arg_loc m \<noteq> LocMem then Some (Inl NotMemory)
         else lthen (parse_convs rec [xs ! 1, xs ! 2] s1) (\<lambda>(cs, s2).
           Some (emit (at_loc LocMem (arg_locref m) (node eStore eMemaccess 0 cs)) 0 s2)))))"

definition lower_load :: "lowerer \<Rightarrow> irarg list \<Rightarrow> session \<Rightarrow> irarg step option" where
  "lower_load rec xs s =
     (if length xs \<noteq> 3 then Some (Inl AssertFail)
      else lthen (parse_conv rec (xs ! 0) s) (\<lambda>(m, s1).
        (if arg_loc m \<noteq> LocMem then Some (Inl NotMemory)
         else lthen (parse_convs rec [xs ! 1, xs ! 2] s1) (\<lambda>(cs, s2).
           (let n = irarg_size (xs ! 2) in
            Some (emit (at_loc LocMem (arg_locref m) (node eLoad eUInt n cs)) n s2))))))"

text \<open>Lines 940--950: the address of a memory operand as a value.\<close>

definition lower_value :: "arch \<Rightarrow> irarg list \<Rightarrow> session \<Rightarrow> irarg step option" where
  "lower_value a xs s =
     (if length xs \<noteq> 1 then Some (Inl AssertFail)
      else lthen (replaceArg (s_args s) (xs ! 0)) (\<lambda>x.
        (case x of
           ArgMemOp m _ \<Rightarrow>
             lthen (Some (parseMemArgToExpr a m s)) (\<lambda>(ad, s1).
             lthen (Some (parseIRArg2SSAArg ad)) (\<lambda>c.
             Some (emit (node eAssign eUInt (arch_bitbase a) [c]) (arch_bitbase a) s1)))
         | _ \<Rightarrow> Some (Inl AssertFail))))"

end
