(* ===== verification/Lower.thy ===== *)
theory Lower
  imports LowerCases
begin

text \<open>
  The control-flow, stack and instantiation cases of \<open>SSAGen::parseExpression\<close>, its
  dispatch, and \<open>SSAGen::parseInstruction\<close> (src/main/SSAGen.cpp lines 394--1066).
  \<open>lowerF\<close> lowers a list of template arguments with fuel: each lowering of a list cell
  spends one unit, and \<open>None\<close> means the fuel ran out, which is how a template that
  instantiates itself without end (through \<open>IR_EXPR_REC\<close>) shows.
\<close>

subsection \<open>Structured control flow (section 4.5)\<close>

text \<open>Lines 606--646: \<open>if (cond, then [, else])\<close>.\<close>

definition lower_if :: "lowerer \<Rightarrow> arch \<Rightarrow> irarg list \<Rightarrow> session \<Rightarrow> irarg step option" where
  "lower_if rec a xs s =
     lthen (Some (sub xs 0)) (\<lambda>x0. lthen (parse_conv rec x0 s) (\<lambda>(c, s1).
     (if \<not> (2 \<le> length xs \<and> length xs \<le> 3) then Some (Inl AssertFail)
      else
        (let old = s_active s1; (t, s2) = new_block s1;
             (f, s3) = (if length xs = 3 then new_block s2 else (0, s2)); (e, s4) = new_block s3
         in lthen (Some (add_expression (cjmp_node a c t) s4)) (\<lambda>(_, s5).
            lthen (parse1 rec (xs ! 1) (activateBlock t s5)) (\<lambda>(_, s6).
            lthen (Some (set_ft (s_active s6) e s6)) (\<lambda>s7.
            (if f \<noteq> 0 then
               lthen (Some (set_ft old f s7)) (\<lambda>s8.
               lthen (parse1 rec (xs ! 2) (activateBlock f s8)) (\<lambda>(_, s9).
               lthen (Some (set_ft (s_active s9) e s9)) (\<lambda>s10.
               lthen (Some (link_blk (s_active s10) e s10)) (\<lambda>s11.
               Some (Inr (ArgUnkn, activateBlock e s11))))))
             else
               lthen (Some (set_ft old e s7)) (\<lambda>s8.
               lthen (Some (link_blk old e s8)) (\<lambda>s9.
               Some (Inr (ArgUnkn, activateBlock e s9))))))))))))"

text \<open>Lines 982--1034: \<open>rep (cond, body)\<close>, the loop diamond.\<close>

definition lower_rep :: "lowerer \<Rightarrow> arch \<Rightarrow> irarg list \<Rightarrow> session \<Rightarrow> irarg step option" where
  "lower_rep rec a xs s =
     (let st = s_active s; (sc, s1) = new_block s; (sb, s2) = new_block s1; s3 = activateBlock sc s2 in
      lthen (Some (sub xs 0)) (\<lambda>x0. lthen (parse_conv rec x0 s3) (\<lambda>(c, s4).
      lthen (Some (add_expression (cjmp_node a c sb) s4)) (\<lambda>(_, s5).
      (let ec = s_active s5; s6 = activateBlock sb (s5\<lparr>s_eob := False, s_fall := False\<rparr>) in
       lthen (Some (sub xs 1)) (\<lambda>x1. lthen (parse1 rec x1 s6) (\<lambda>(_, s7).
       (let eb = s_active s7; (en, s8) = new_block s7 in
        lthen (Some (set_ft st sc s8)) (\<lambda>s9.
        lthen (Some (link_blk st sc s9)) (\<lambda>s10.
        lthen (Some (set_ft ec en s10)) (\<lambda>s11.
        lthen (Some (link_blk ec en s11)) (\<lambda>s12.
        lthen (Some (link_blk ec sb s12)) (\<lambda>s13.
        lthen (Some (set_ft eb sc s13)) (\<lambda>s14.
        lthen (Some (link_blk eb sc s14)) (\<lambda>s15.
        Some (Inr (ArgUnkn, activateBlock en s15)))))))))))))))))"

text \<open>Lines 647--672: the jump ends the block without fallthrough, the conditional jump
  keeps it.\<close>

definition lower_jmp :: "lowerer \<Rightarrow> arch \<Rightarrow> irarg list \<Rightarrow> session \<Rightarrow> irarg step option" where
  "lower_jmp rec a xs s =
     (if length xs \<noteq> 1 then Some (Inl AssertFail)
      else lthen (parse_conv rec (xs ! 0) s) (\<lambda>(c, s1).
        Some (emit (node eJmp ePc (arch_bitbase a) [c]) (arch_bitbase a) (s1\<lparr>s_eob := True, s_fall := False\<rparr>))))"

definition lower_cjmp :: "lowerer \<Rightarrow> arch \<Rightarrow> irarg list \<Rightarrow> session \<Rightarrow> irarg step option" where
  "lower_cjmp rec a xs s =
     (if length xs \<noteq> 2 then Some (Inl AssertFail)
      else lthen (parse_convs rec xs s) (\<lambda>(cs, s1).
        Some (emit (node eCJmp ePc (arch_bitbase a) cs) (arch_bitbase a) (s1\<lparr>s_eob := True\<rparr>))))"

subsection \<open>Stacks\<close>

definition adjust_node :: "arch \<Rightarrow> optype \<Rightarrow> register \<Rightarrow> ssaarg \<Rightarrow> ssaexpr" where
  "adjust_node a p reg x =
     at_loc LocReg (reg_id reg, 0) ((node eOp eUInt (reg_size reg) [createRegArg reg, x])\<lparr>e_op := p\<rparr>)"

text \<open>Lines 844--891: push stores the value and moves the pointer by the value's size
  in stack words, rounded up.\<close>

definition lower_push :: "lowerer \<Rightarrow> arch \<Rightarrow> irarg list \<Rightarrow> session \<Rightarrow> irarg step option" where
  "lower_push rec a xs s =
     lthen (Some (sub xs 0)) (\<lambda>x0. lthen (parse1 rec x0 s) (\<lambda>(st, s1).
     (case st of
        ArgStack k _ _ \<Rightarrow>
          (case getStack a k of
             None \<Rightarrow> Some (Inl (UnknownStack k))
           | Some stk \<Rightarrow>
               (case stk_type stk of
                  eRegBacked \<Rightarrow> Some (Inl RegBackedStack)
                | eMemory \<Rightarrow>
                    (if length xs \<noteq> 2 \<or> stk_backing_mem stk = 0 then Some (Inl AssertFail)
                     else lthen (parse_conv rec (xs ! 1) s1) (\<lambda>(v, s2).
                       (case getRegister a (stk_tracking_reg stk) of
                          None \<Rightarrow> Some (Inl (UnknownRegister (stk_tracking_reg stk)))
                        | Some reg \<Rightarrow>
                            (if reg_id reg = 0 \<or> stk_backing_mem stk \<notin> set (arch_memories a) then Some (Inl AssertFail)
                             else
                               (let w = stk_wordbitsize stk;
                                    adj = adjust_node a (if stk_policy stk = eTop then eAdd else eSub) reg
                                            (ssa_val (word_of_nat ((arg_size v + w - 1) div w)) (arch_bitbase a))
                                in lthen (Some (add_expression adj s2)) (\<lambda>(j, s3).
                                   lthen (addUpdateRegExpressions a (reg_id reg) j s3) (\<lambda>s4.
                                   Some (emit (at_loc LocMem (stk_backing_mem stk, 0)
                                                (node eStore eMemaccess 0 [createRegArg reg, v])) 0 s4))))))))))
      | _ \<Rightarrow> Some (Inl AssertFail))))"

text \<open>Lines 892--939: pop loads the transferred words and moves the pointer back.\<close>

definition lower_pop :: "lowerer \<Rightarrow> arch \<Rightarrow> irarg list \<Rightarrow> session \<Rightarrow> irarg step option" where
  "lower_pop rec a xs s =
     lthen (Some (sub xs 0)) (\<lambda>x0. lthen (parse1 rec x0 s) (\<lambda>(st, s1).
     (case st of
        ArgStack k _ _ \<Rightarrow>
          (case getStack a k of
             None \<Rightarrow> Some (Inl (UnknownStack k))
           | Some stk \<Rightarrow>
               (case stk_type stk of
                  eRegBacked \<Rightarrow> Some (Inl RegBackedStack)
                | eMemory \<Rightarrow>
                    (if length xs \<noteq> 2 then Some (Inl AssertFail)
                     else lthen (parse_conv rec (xs ! 1) s1) (\<lambda>(u, s2).
                       (case (arg_kind u, getRegister a (stk_tracking_reg stk)) of
                          (AUInt cnt, Some reg) \<Rightarrow>
                            (if stk_backing_mem stk \<notin> set (arch_memories a) then Some (Inl AssertFail)
                             else
                               (let n = stk_wordbitsize stk * unat cnt; m = stk_backing_mem stk;
                                    ld = at_loc LocMem (m, 0) (node eLoad eUInt n [createMem m, createRegArg reg, u]);
                                    adj = adjust_node a (if stk_policy stk = eTop then eSub else eAdd) reg u
                                in lthen (Some (add_expression ld s2)) (\<lambda>(i, s3).
                                   lthen (Some (add_expression adj s3)) (\<lambda>(j, s4).
                                   lthen (addUpdateRegExpressions a (reg_id reg) j s4) (\<lambda>s5.
                                   Some (Inr (ArgSSAId i n, s5)))))))
                        | _ \<Rightarrow> Some (Inl AssertFail))))))
      | _ \<Rightarrow> Some (Inl AssertFail))))"

subsection \<open>Recursive instantiation, queries, sequence, flag\<close>

text \<open>
  Lines 951--981: the arguments are lowered in the current context; then the binding
  list and the scratch table are saved, rebound, the first matching candidate of the
  referenced definition is lowered, and both are restored.  The guards read the
  instruction pointer of the instruction being lowered.  No matching candidate only
  prints a diagnostic, through \<open>instruction->print\<close>.
\<close>

definition lower_rec :: "lowerer \<Rightarrow> arch \<Rightarrow> irmod \<Rightarrow> irarg list \<Rightarrow> session \<Rightarrow> irarg step option" where
  "lower_rec rec a md xs s =
     lthen (rec xs s) (\<lambda>(vs, s1).
       (case (case md of ModInstr k \<Rightarrow> arch_instrdefs a k | _ \<Rightarrow> None) of
          None \<Rightarrow> Some (Inl AssertFail)
        | Some idef \<Rightarrow>
            (let s2 = s1\<lparr>s_tmps := [], s_args := vs\<rparr> in
             lthen (Some (match_from a (s_instr s1) vs (instr_irs idef))) (\<lambda>m.
             lthen (case m of
                      None \<Rightarrow> (case s_instr s1 of None \<Rightarrow> Some (Inl NullInstr) | Some _ \<Rightarrow> Some (Inr s2))
                    | Some rp \<Rightarrow> lthen (parse1 rec (ir_root rp) s2) (\<lambda>(_, s3). Some (Inr s3))) (\<lambda>s3.
             Some (Inr (ArgUnkn, s3\<lparr>s_args := s_args s1, s_tmps := s_tmps s1\<rparr>)))))))"

text \<open>Lines 1035--1040: word count and bit count of a lowered expression's size.\<close>

definition lower_size :: "lowerer \<Rightarrow> arch \<Rightarrow> bool \<Rightarrow> irarg list \<Rightarrow> session \<Rightarrow> irarg step option" where
  "lower_size rec a bits xs s =
     (if length xs \<noteq> 1 then Some (Inl AssertFail)
      else lthen (parse1 rec (xs ! 0) s) (\<lambda>(v, s1).
        Some (Inr (createVal (word_of_nat (if bits then irarg_size v else irarg_size v div arch_wordbase a))
                     (arch_bitbase a), s1))))"

definition lower_seq :: "lowerer \<Rightarrow> irarg list \<Rightarrow> session \<Rightarrow> irarg step option" where
  "lower_seq rec xs s = lthen (rec xs s) (\<lambda>(_, s1). Some (Inr (ArgUnkn, s1)))"

text \<open>Lines 1046--1059: a flag of the last operator node.\<close>

definition lower_flag :: "irmod \<Rightarrow> session \<Rightarrow> irarg step" where
  "lower_flag md s =
     (case get_expr (s_rep s) (s_lastop s) of
        None \<Rightarrow> Inl (UnknownExpr (s_lastop s))
      | Some e \<Rightarrow> emit ((node eFlag eUInt 1 [createId (s_lastop s) (e_size e)])\<lparr>e_flag := flag_of md\<rparr>) 1 s)"

subsection \<open>Dispatch\<close>

definition lower_expr :: "lowerer \<Rightarrow> arch \<Rightarrow> irexpr \<Rightarrow> session \<Rightarrow> irarg step option" where
  "lower_expr rec a ex s =
     (case ex of IRExpression ty md rt xs \<Rightarrow>
       (case ty of
          IR_EXPR_UNDEF \<Rightarrow> lower_undef a xs s
        | IR_EXPR_ASSIGN \<Rightarrow>
            (if length xs \<noteq> 2 then Some (Inl AssertFail)
             else lthen (replaceArg (s_args s) (xs ! 0)) (\<lambda>dst.
                  lthen (parse1 rec (xs ! 1) s) (\<lambda>(src, s1). assign_to a dst src s1)))
        | IR_EXPR_NOP \<Rightarrow> Some (Inr (ArgUnkn, s))
        | IR_EXPR_IF \<Rightarrow> lower_if rec a xs s
        | IR_EXPR_JMP \<Rightarrow> lower_jmp rec a xs s
        | IR_EXPR_CJMP \<Rightarrow> lower_cjmp rec a xs s
        | IR_EXPR_OP \<Rightarrow> lower_op rec md rt xs s
        | IR_EXPR_CALL \<Rightarrow> lower_call rec a rt xs s
        | IR_EXPR_RETURN \<Rightarrow> lower_return rec a xs s
        | IR_EXPR_SYSCALL \<Rightarrow> lower_syscall rec xs s
        | IR_EXPR_TRAP \<Rightarrow> lower_trap rec xs s
        | IR_EXPR_BUILTIN \<Rightarrow> Some (Inr (ArgUnkn, s))
        | IR_EXPR_EXTEND \<Rightarrow> lower_extend rec a rt xs s
        | IR_EXPR_SPLIT \<Rightarrow> lower_split rec xs s
        | IR_EXPR_APPEND \<Rightarrow> lower_append rec xs s
        | IR_EXPR_CAST \<Rightarrow> lower_cast rec rt xs s
        | IR_EXPR_STORE \<Rightarrow> lower_store rec xs s
        | IR_EXPR_LOAD \<Rightarrow> lower_load rec xs s
        | IR_EXPR_PUSH \<Rightarrow> lower_push rec a xs s
        | IR_EXPR_POP \<Rightarrow> lower_pop rec a xs s
        | IR_EXPR_VALUE \<Rightarrow> lower_value a xs s
        | IR_EXPR_REC \<Rightarrow> lower_rec rec a md xs s
        | IR_EXPR_REP \<Rightarrow> lower_rep rec a xs s
        | IR_EXPR_SIZE \<Rightarrow> lower_size rec a False xs s
        | IR_EXPR_BSIZE \<Rightarrow> lower_size rec a True xs s
        | IR_EXPR_SEQUENCE \<Rightarrow> lower_seq rec xs s
        | IR_EXPR_FLAG \<Rightarrow> Some (lower_flag md s)))"

text \<open>Lines 418--458: placeholders are resolved first; leaves are handled here.\<close>

definition parse_one :: "lowerer \<Rightarrow> arch \<Rightarrow> irarg \<Rightarrow> session \<Rightarrow> irarg step option" where
  "parse_one rec a x s =
     lthen (replaceArg (s_args s) x) (\<lambda>x'.
       (case x' of
          ArgArg _ \<Rightarrow> Some (Inl AssertFail)
        | ArgMemOp m n \<Rightarrow> Some (lower_memop a m n s)
        | ArgTmp t \<Rightarrow> Some (lower_tmp t s)
        | ArgIp \<Rightarrow> Some (lower_ip a s)
        | ArgId ex \<Rightarrow> lower_expr rec a ex s
        | _ \<Rightarrow> Some (Inr (x', s))))"

primrec lowerF :: "nat \<Rightarrow> arch \<Rightarrow> irarg list \<Rightarrow> session \<Rightarrow> irarg list step option" where
  "lowerF 0 a xs s = None"
| "lowerF (Suc n) a xs s =
     (case xs of
        [] \<Rightarrow> Some (Inr ([], s))
      | x # rest \<Rightarrow>
          lthen (parse_one (lowerF n a) a x s) (\<lambda>(v, s1).
          lthen (lowerF n a rest s1) (\<lambda>(vs, s2). Some (Inr (v # vs, s2)))))"

text \<open>\<open>SSAGen::parseExpression\<close> itself.\<close>

definition parseExpression :: "nat \<Rightarrow> arch \<Rightarrow> irarg \<Rightarrow> session \<Rightarrow> irarg step option" where
  "parseExpression n a x s = parse1 (lowerF n a) x s"

subsection \<open>One instruction\<close>

text \<open>
  Lines 394--417: the active block's start moves down to the instruction, the template is
  matched (no match is fatal), the session is reset and bound to the operands, a label
  is emitted, the body lowered, and the active block's end moves up to the end of the
  instruction (64-bit addresses: the sum wraps).
\<close>

definition parseInstruction :: "nat \<Rightarrow> arch \<Rightarrow> instruction \<Rightarrow> session \<Rightarrow> session result option" where
  "parseInstruction n a ins s =
     (case getBlock (s_rep s) (s_active s) of
        None \<Rightarrow> Some (Inl (UnknownBlock (s_active s)))
      | Some b \<Rightarrow>
          (let s0 = (if i_addr ins < bb_start b
                     then sess_rep (update_bb (s_active s) (\<lambda>bb. bb\<lparr>bb_start := i_addr ins\<rparr>)) s else s) in
           lthen (Some (matchIr a (s_instr s) ins)) (\<lambda>m.
             (case m of
                None \<Rightarrow> Some (Inl NoMatch)
              | Some rp \<Rightarrow>
                  (let s1 = (setupForInstr s0)\<lparr>s_instr := Some ins, s_args := i_operands ins\<rparr> in
                   lthen (Some (insertLabel a (i_addr ins) s1)) (\<lambda>s2.
                   lthen (parseExpression n a (ir_root rp) s2) (\<lambda>(_, s3).
                     (case getBlock (s_rep s3) (s_active s3) of
                        None \<Rightarrow> Some (Inl (UnknownBlock (s_active s3)))
                      | Some b3 \<Rightarrow>
                          Some (Inr (if bb_end b3 < i_addr ins + i_size ins
                                     then sess_rep (update_bb (s_active s3) (\<lambda>bb. bb\<lparr>bb_end := i_addr ins + i_size ins\<rparr>)) s3
                                     else s3))))))))))"

subsection \<open>Fixtures\<close>

text \<open>
  \<open>ex_leaf\<close> lowers every operand to itself, as \<open>parseExpression\<close> does for a leaf
  operand (the \<open>default\<close> case, line 424).  \<open>ex_ipguard\<close> is a template body
  guarded by \<open>IP == 0x12\<close>; \<open>ex_ipins\<close> is an instruction at 0x40 defined by it alone,
  and \<open>ex_previns\<close> the two-byte instruction at 0x10 that precedes it.
\<close>

definition ex_leaf :: lowerer where
  "ex_leaf xs s = Some (Inr (xs, s))"

definition ex_ipguard :: irrep where
  "ex_ipguard = \<lparr>ir_argcount = 0,
     ir_cond = ArgId (IRExpression IR_EXPR_OP (ModOp eEq) eUInt [ArgIp, ArgUInt 0x12 64]), ir_root = ArgUnkn\<rparr>"

definition ex_ipins :: instruction where
  "ex_ipins = \<lparr>i_addr = 0x40, i_size = 2, i_operands = [],
     i_def = \<lparr>instr_mnemonic = ''ipjmp'', instr_irs = [ex_ipguard]\<rparr>\<rparr>"

definition ex_previns :: instruction where
  "ex_previns = \<lparr>i_addr = 0x10, i_size = 2, i_operands = [],
     i_def = \<lparr>instr_mnemonic = ''nop'', instr_irs = []\<rparr>\<rparr>"

subsection \<open>Proof vocabulary\<close>

text \<open>
  \<open>cfg_of\<close> is the part of a session the control-flow cases change: both edge
  relations, the block counter and the block identifiers.  A lowerer is
  \<open>straight\<close> when every lowering it returns leaves that part and the active block
  as they were, as the lowering of straight-line template code does.
\<close>

definition cfg_of :: "session \<Rightarrow> (hid \<times> hid) set \<times> (hid \<times> hid) set \<times> nat \<times> hid set" where
  "cfg_of s = (out_edges (bbs (s_rep s)), in_edges (bbs (s_rep s)), bb_gen (s_rep s), bb_id ` set (bbs (s_rep s)))"

definition straight :: "lowerer \<Rightarrow> bool" where
  "straight rec \<longleftrightarrow> (\<forall>xs s vs s'. rec xs s = Some (Inr (vs, s')) \<longrightarrow>
     cfg_of s' = cfg_of s \<and> s_active s' = s_active s)"

subsection \<open>Lemmas\<close>

lemma cfg_add_expression:
  "add_expression e s = Inr (i, s') \<Longrightarrow> cfg_of s' = cfg_of s \<and> s_active s' = s_active s"
proof -
  assume h: "add_expression e s = Inr (i, s')"
  have o: "\<And>f P bs. out_edges (update_where P (\<lambda>b. b\<lparr>bb_exprs := f b\<rparr>) bs) = out_edges bs"
    unfolding out_edges_def by (rule UN_update_where_same) simp
  have n: "\<And>f P bs. in_edges (update_where P (\<lambda>b. b\<lparr>bb_exprs := f b\<rparr>) bs) = in_edges bs"
    unfolding in_edges_def by (rule UN_update_where_same) simp
  from h show ?thesis
    by (clarsimp simp: add_expression_def addAtEnd_def push_expr_def cfg_of_def o n Let_def
        split: option.splits prod.splits)
qed

lemma cfg_activate [simp]: "cfg_of (activateBlock b s) = cfg_of s"
  by (simp add: cfg_of_def activateBlock_def)

lemma new_block_cfg:
  "new_block s = (b, s') \<Longrightarrow> b = Suc (bb_gen (s_rep s)) \<and> s_active s' = s_active s \<and>
   out_edges (bbs (s_rep s')) = out_edges (bbs (s_rep s)) \<and> in_edges (bbs (s_rep s')) = in_edges (bbs (s_rep s)) \<and>
   bb_gen (s_rep s') = Suc (bb_gen (s_rep s)) \<and> bb_id ` set (bbs (s_rep s')) = insert b (bb_id ` set (bbs (s_rep s)))"
  by (clarsimp simp: new_block_def createNewBlock_def push_bb_def new_bb_def out_edges_def in_edges_def)

lemma set_ft_cfg: "set_ft i t s = Inr s' \<Longrightarrow> cfg_of s' = cfg_of s \<and> s_active s' = s_active s"
proof -
  assume "set_ft i t s = Inr s'"
  then have s': "s' = sess_rep (set_fallthrough i t) s"
    by (auto simp: set_ft_def blk_upd_def split: option.splits)
  have "bb_gen (set_fallthrough i t r) = bb_gen r" for r by (simp add: set_fallthrough_def)
  then show ?thesis by (simp add: s' sess_rep_def cfg_of_def)
qed

lemma link_blk_cfg:
  "link_blk i t s = Inr s' \<Longrightarrow> s_active s' = s_active s \<and>
   out_edges (bbs (s_rep s')) = insert (i, t) (out_edges (bbs (s_rep s))) \<and>
   in_edges (bbs (s_rep s')) = insert (i, t) (in_edges (bbs (s_rep s))) \<and>
   bb_gen (s_rep s') = bb_gen (s_rep s) \<and> bb_id ` set (bbs (s_rep s')) = bb_id ` set (bbs (s_rep s))"
proof -
  assume h: "link_blk i t s = Inr s'"
  then have gi: "getBlock (s_rep s) i \<noteq> None" and gt: "getBlock (s_rep s) t \<noteq> None"
    and s': "s' = sess_rep (link i t) s"
    by (auto simp: link_blk_def blk_upd_def bind_r_Inr split: option.splits)
  from gi gt have "i \<in> bb_id ` set (bbs (s_rep s))" "t \<in> bb_id ` set (bbs (s_rep s))"
    by (simp_all add: getBlock_None)
  moreover have "bb_gen (link i t r) = bb_gen r" "bb_id ` set (bbs (link i t r)) = bb_id ` set (bbs r)" for r
    using ids_link [of i t r] by (simp_all add: link_def insert_in_def insert_out_def ids_def)
  ultimately show ?thesis
    by (simp add: s' sess_rep_def out_edges_link in_edges_link)
qed

lemma parse1_straight:
  "straight rec \<Longrightarrow> parse1 rec x s = Some (Inr (v, s')) \<Longrightarrow> cfg_of s' = cfg_of s \<and> s_active s' = s_active s"
  unfolding straight_def parse1_def by (auto simp: lthen_Some_Inr)

lemma parse_conv_straight:
  "straight rec \<Longrightarrow> parse_conv rec x s = Some (Inr (c, s')) \<Longrightarrow> cfg_of s' = cfg_of s \<and> s_active s' = s_active s"
proof -
  assume st: "straight rec" and h: "parse_conv rec x s = Some (Inr (c, s'))"
  then obtain v s1 where p: "parse1 rec x s = Some (Inr (v, s1))"
    and m: "map_sum id (\<lambda>c. (c, s1)) (parseIRArg2SSAArg v) = Inr (c, s')"
    by (auto simp: parse_conv_def lthen_Some_Inr)
  from m have "s' = s1" by (cases "parseIRArg2SSAArg v") simp_all
  with parse1_straight [OF st p] show ?thesis by simp
qed

lemma new_block_simps [simp]:
  "fst (new_block s) = Suc (bb_gen (s_rep s))"
  "s_active (snd (new_block s)) = s_active s"
  "bb_gen (s_rep (snd (new_block s))) = Suc (bb_gen (s_rep s))"
  "out_edges (bbs (s_rep (snd (new_block s)))) = out_edges (bbs (s_rep s))"
  "in_edges (bbs (s_rep (snd (new_block s)))) = in_edges (bbs (s_rep s))"
  using new_block_cfg [of s "fst (new_block s)" "snd (new_block s)"] by simp_all

lemma strip_node [simp]: "strip (node t rt n xs) = node t rt n xs"
  by (simp add: strip_def node_def blank_expr_def)

lemma strip_at_loc [simp]: "strip (at_loc l lr e) = at_loc l lr (strip e)"
  by (simp add: strip_def at_loc_def)

lemma add_all_ok:
  "active_ok s \<Longrightarrow> \<exists>s'. add_all es s = Inr s' \<and> active_ok s' \<and>
     take (length (exprs (s_rep s))) (exprs (s_rep s')) = exprs (s_rep s) \<and>
     map strip (drop (length (exprs (s_rep s))) (exprs (s_rep s'))) = map strip es \<and>
     s_calls s' = s_calls s \<and> s_active s' = s_active s"
proof (induction es arbitrary: s)
  case Nil then show ?case by simp
next
  case (Cons e es)
  from add_expression_ok [OF Cons.prems, of e] obtain s1 where
    add: "add_expression e s = Inr (Suc (expr_gen (s_rep s)), s1)"
    and e1: "exprs (s_rep s1) = exprs (s_rep s) @ [(tag s e)\<lparr>e_id := Suc (expr_gen (s_rep s))\<rparr>]"
    and ok1: "active_ok s1" and c1: "s_calls s1 = s_calls s" and a1: "s_active s1 = s_active s"
    by blast
  from Cons.IH [OF ok1] obtain s' where run: "add_all es s1 = Inr s'" and ok: "active_ok s'"
    and tk: "take (length (exprs (s_rep s1))) (exprs (s_rep s')) = exprs (s_rep s1)"
    and dr: "map strip (drop (length (exprs (s_rep s1))) (exprs (s_rep s'))) = map strip es"
    and rest: "s_calls s' = s_calls s1" "s_active s' = s_active s1"
    by blast
  let ?n = "length (exprs (s_rep s))"
  have "exprs (s_rep s') = exprs (s_rep s1) @ drop (Suc ?n) (exprs (s_rep s'))"
    using tk e1 by (metis append_take_drop_id length_append_singleton)
  then have S: "exprs (s_rep s') = exprs (s_rep s) @ (tag s e)\<lparr>e_id := Suc (expr_gen (s_rep s))\<rparr> # drop (Suc ?n) (exprs (s_rep s'))"
    using e1 by simp
  have "take ?n (exprs (s_rep s')) = exprs (s_rep s)" by (subst S) simp
  moreover have "map strip (drop ?n (exprs (s_rep s'))) = map strip (e # es)"
    using dr e1 by (subst S) simp
  ultimately show ?case using add run ok rest c1 a1 by simp
qed

subsection \<open>Properties of the lowering engine\<close>

text \<open>
  C2: guards are evaluated against the member \<open>instruction\<close>, which
  \<open>parseInstruction\<close> sets only after matching (line 402): on the first instruction of
  a function it is \<open>nullptr\<close> and a guard that reads the instruction pointer
  dereferences it; later it is the previous instruction, so whether an
  \<open>IP == k\<close> guard holds depends on where the previous instruction ends, not on the
  instruction being matched.
\<close>

theorem ip_guard_reads_previous_instruction:
  assumes b: "getBlock (s_rep s) (s_active s) = Some bb"
    and irs: "instr_irs (i_def ins) = r # rs" and cnt: "ir_argcount r = length (i_operands ins)"
    and g: "ir_cond r = ArgId (IRExpression IR_EXPR_OP (ModOp eEq) rt [ArgIp, ArgUInt k w])"
  shows "(s_instr s = None \<longrightarrow> parseInstruction n a ins s = Some (Inl NullInstr)) \<and>
         (\<forall>p. s_instr s = Some p \<longrightarrow>
            matchIr a (s_instr s) ins =
              (if i_addr p + i_size p = k then Inr (Some r) else match_from a (s_instr s) (i_operands ins) rs))"
proof (intro conjI allI impI)
  assume "s_instr s = None"
  then show "parseInstruction n a ins s = Some (Inl NullInstr)"
    using b irs cnt g by (simp add: parseInstruction_def matchIr_def sess_rep_def Let_def)
next
  fix p assume p: "s_instr s = Some p"
  then show "matchIr a (s_instr s) ins =
      (if i_addr p + i_size p = k then Inr (Some r) else match_from a (s_instr s) (i_operands ins) rs)"
    using irs cnt g by (simp add: matchIr_def createVal_def bool_val_def guard_holds_def)
qed

theorem ip_guard_reads_previous_instruction_witness:
  "parseInstruction 10 ex_arch ex_ipins ex_session = Some (Inl NullInstr) \<and>
   matchIr ex_arch (Some ex_previns) ex_ipins = Inr (Some ex_ipguard)"
proof -
  have b: "getBlock (s_rep ex_session) (s_active ex_session) = Some (new_bb\<lparr>bb_id := 1\<rparr>)"
    by (simp add: ex_session_def empty_session_def getBlock_def)
  have h: "instr_irs (i_def ex_ipins) = ex_ipguard # []" "ir_argcount ex_ipguard = length (i_operands ex_ipins)"
    "ir_cond ex_ipguard = ArgId (IRExpression IR_EXPR_OP (ModOp eEq) eUInt [ArgIp, ArgUInt 0x12 64])"
    by (simp_all add: ex_ipins_def ex_ipguard_def)
  have n: "s_instr ex_session = None" by (simp add: ex_session_def empty_session_def)
  have p: "s_instr (ex_session\<lparr>s_instr := Some ex_previns\<rparr>) = Some ex_previns" by simp
  have b': "getBlock (s_rep (ex_session\<lparr>s_instr := Some ex_previns\<rparr>)) (s_active (ex_session\<lparr>s_instr := Some ex_previns\<rparr>))
      = Some (new_bb\<lparr>bb_id := 1\<rparr>)" using b by simp
  from ip_guard_reads_previous_instruction [OF b h, where n = 10 and a = ex_arch] n
    ip_guard_reads_previous_instruction [OF b' h, where n = 10 and a = ex_arch] p
  show ?thesis by (simp add: ex_previns_def)
qed

text \<open>
  C34: lowering \<open>if (cond, then)\<close> without else, for every session and every
  straight-line condition and branch: the only edge the case records is from the
  original block to the end block, on both sides, and lowering resumes in the end block.
  The edge from the original block to the true block and the edge from the true block to
  the end block are never recorded (section 4.5 and the specification's if-without-else
  scenario expect the original block's out-edges to be {true, end}).
\<close>

theorem lower_if_records_only_end_edge:
  assumes st: "straight rec" and run: "lower_if rec a [x0, x1] s = Some (Inr (v, s'))"
  shows "out_edges (bbs (s_rep s')) = insert (s_active s, Suc (Suc (bb_gen (s_rep s)))) (out_edges (bbs (s_rep s))) \<and>
         in_edges (bbs (s_rep s')) = insert (s_active s, Suc (Suc (bb_gen (s_rep s)))) (in_edges (bbs (s_rep s))) \<and>
         s_active s' = Suc (Suc (bb_gen (s_rep s)))"
proof -
  from run obtain c s1 i5 s5 w6 s6 s7 s8 s9 where
    pc: "parse_conv rec x0 s = Some (Inr (c, s1))"
    and ae: "add_expression (cjmp_node a c (Suc (bb_gen (s_rep s1)))) (snd (new_block (snd (new_block s1)))) = Inr (i5, s5)"
    and pt: "parse1 rec x1 (activateBlock (Suc (bb_gen (s_rep s1))) s5) = Some (Inr (w6, s6))"
    and f1: "set_ft (s_active s6) (Suc (Suc (bb_gen (s_rep s1)))) s6 = Inr s7"
    and f2: "set_ft (s_active s1) (Suc (Suc (bb_gen (s_rep s1)))) s7 = Inr s8"
    and lk: "link_blk (s_active s1) (Suc (Suc (bb_gen (s_rep s1)))) s8 = Inr s9"
    and fin: "s' = activateBlock (Suc (Suc (bb_gen (s_rep s1)))) s9"
    by (auto simp: lower_if_def sub_def Let_def split_def lthen_Some_Inr)
  let ?n = "snd (new_block (snd (new_block s1)))"
  from parse_conv_straight [OF st pc] have c1: "cfg_of s1 = cfg_of s" "s_active s1 = s_active s" by simp_all
  then have g1: "bb_gen (s_rep s1) = bb_gen (s_rep s)" by (simp add: cfg_of_def)
  have cn: "out_edges (bbs (s_rep ?n)) = out_edges (bbs (s_rep s1))" "in_edges (bbs (s_rep ?n)) = in_edges (bbs (s_rep s1))"
    by simp_all
  from cfg_add_expression [OF ae] have c5: "cfg_of s5 = cfg_of ?n" by simp
  from parse1_straight [OF st pt] have c6: "cfg_of s6 = cfg_of s5" by simp
  from set_ft_cfg [OF f1] set_ft_cfg [OF f2] have c8: "cfg_of s8 = cfg_of s6" by simp
  from link_blk_cfg [OF lk] c8 c6 c5 cn c1
  show ?thesis by (simp add: fin g1 activateBlock_def cfg_of_def)
qed

theorem lower_if_records_only_end_edge_witness:
  "\<exists>v s'. lower_if ex_leaf ex_arch [ArgReg 1 0 64, ArgUnkn] ex_session = Some (Inr (v, s')) \<and>
     out_edges (bbs (s_rep s')) = {(1, 3)} \<and> in_edges (bbs (s_rep s')) = {(1, 3)} \<and> s_active s' = 3"
proof -
  have st: "straight ex_leaf" by (simp add: straight_def ex_leaf_def)
  have "\<exists>v s'. lower_if ex_leaf ex_arch [ArgReg 1 0 64, ArgUnkn] ex_session = Some (Inr (v, s'))"
    by (simp add: lower_if_def sub_def parse_conv_def parse1_def ex_leaf_def parseIRArg2SSAArg_def Let_def
        new_block_def createNewBlock_def push_bb_def add_expression_def addAtEnd_def push_expr_def
        activateBlock_def set_ft_def link_blk_def blk_upd_def sess_rep_def getBlock_def ex_session_def
        empty_session_def set_fallthrough_def link_def insert_in_def insert_out_def update_bb_def)
  then obtain v s' where run: "lower_if ex_leaf ex_arch [ArgReg 1 0 64, ArgUnkn] ex_session = Some (Inr (v, s'))"
    by blast
  have e: "out_edges (bbs (s_rep ex_session)) = {}" "in_edges (bbs (s_rep ex_session)) = {}"
    "s_active ex_session = 1" "bb_gen (s_rep ex_session) = 1"
    by (simp_all add: ex_session_def empty_session_def out_edges_def in_edges_def new_bb_def)
  from lower_if_records_only_end_edge [OF st run] e run show ?thesis by auto
qed

text \<open>
  C35: lowering \<open>call (target)\<close> whose target lowers to a literal address, in any
  session with an active block: the address is appended to the function's call list,
  and the call node, which reads every top-level register, is followed by exactly one
  output node per top-level register, each reading the call.
\<close>

theorem lower_call_records_target:
  assumes pc: "parse_conv rec x s = Some (Inr (c, s1))" and lit: "arg_kind c = AUInt v" and ok: "active_ok s1"
  shows "\<exists>s'. lower_call rec a rt [x] s = Some (Inr (ArgSSAId (Suc (expr_gen (s_rep s1))) 0, s')) \<and>
           s_calls s' = s_calls s1 @ [v] \<and>
           take (length (exprs (s_rep s1))) (exprs (s_rep s')) = exprs (s_rep s1) \<and>
           map strip (drop (length (exprs (s_rep s1))) (exprs (s_rep s'))) =
             node eCall rt 0 (c # map createRegArg (top_regs a)) #
             map (output_node (createId (Suc (expr_gen (s_rep s1))) 0)) (top_regs a)"
proof -
  let ?s2 = "s1\<lparr>s_calls := s_calls s1 @ [v]\<rparr>"
  let ?i = "Suc (expr_gen (s_rep s1))"
  have ok2: "active_ok ?s2" using ok by (simp add: active_ok_def)
  from add_expression_ok [OF ok2, of "node eCall rt 0 (c # map createRegArg (top_regs a))"] obtain s3 where
    add: "add_expression (node eCall rt 0 (c # map createRegArg (top_regs a))) ?s2 = Inr (?i, s3)"
    and e3: "exprs (s_rep s3) = exprs (s_rep s1) @ [(tag ?s2 (node eCall rt 0 (c # map createRegArg (top_regs a))))\<lparr>e_id := ?i\<rparr>]"
    and ok3: "active_ok s3" and c3: "s_calls s3 = s_calls s1 @ [v]"
    by auto
  from add_all_ok [OF ok3, of "map (output_node (createId ?i 0)) (top_regs a)"] obtain s4 where
    run: "add_all (map (output_node (createId ?i 0)) (top_regs a)) s3 = Inr s4"
    and tk: "take (length (exprs (s_rep s3))) (exprs (s_rep s4)) = exprs (s_rep s3)"
    and dr: "map strip (drop (length (exprs (s_rep s3))) (exprs (s_rep s4))) = map strip (map (output_node (createId ?i 0)) (top_regs a))"
    and c4: "s_calls s4 = s_calls s3"
    by blast
  have low: "lower_call rec a rt [x] s = Some (Inr (ArgSSAId ?i 0, s4))"
    using pc lit add run by (simp add: lower_call_def)
  let ?n = "length (exprs (s_rep s1))"
  have "exprs (s_rep s4) = exprs (s_rep s3) @ drop (Suc ?n) (exprs (s_rep s4))"
    using tk e3 by (metis append_take_drop_id length_append_singleton)
  then have S: "exprs (s_rep s4) = exprs (s_rep s1) @
      (tag ?s2 (node eCall rt 0 (c # map createRegArg (top_regs a))))\<lparr>e_id := ?i\<rparr> # drop (Suc ?n) (exprs (s_rep s4))"
    using e3 by simp
  have "take ?n (exprs (s_rep s4)) = exprs (s_rep s1)" by (subst S) simp
  moreover have "map strip (drop ?n (exprs (s_rep s4))) =
      node eCall rt 0 (c # map createRegArg (top_regs a)) # map (output_node (createId ?i 0)) (top_regs a)"
    using dr e3 by (subst S) (simp add: output_node_def comp_def)
  ultimately show ?thesis using low c4 c3 by (intro exI [of _ s4]) simp
qed

theorem lower_call_records_target_witness:
  "\<exists>s'. lower_call ex_leaf ex_arch eUInt [ArgUInt 0x1000 64] ex_session = Some (Inr (ArgSSAId 2 0, s')) \<and>
     s_calls s' = [0x1000] \<and> take 1 (exprs (s_rep s')) = exprs (s_rep ex_session) \<and>
     map strip (drop 1 (exprs (s_rep s'))) =
       node eCall eUInt 0 (mk_arg (AUInt 0x1000) 64 # map createRegArg (top_regs ex_arch)) #
       map (output_node (createId 2 0)) (top_regs ex_arch)"
proof -
  have pc: "parse_conv ex_leaf (ArgUInt 0x1000 64) ex_session = Some (Inr (mk_arg (AUInt 0x1000) 64, ex_session))"
    by (simp add: parse_conv_def parse1_def ex_leaf_def parseIRArg2SSAArg_def)
  have l: "arg_kind (mk_arg (AUInt 0x1000) 64) = AUInt 0x1000" by (simp add: mk_arg_def)
  from lower_call_records_target [OF pc l ex_session_ok, where a = ex_arch and rt = eUInt]
  show ?thesis by (simp add: ex_session_def empty_session_def numeral_2_eq_2)
qed

text \<open>
  C36: a cast never fails on its width operand: whatever the width operand binds to (a
  register, a memory operand, anything \<open>replaceArg\<close> resolves), the cast lowers to a
  new node, although section 7 of the specification makes a width that does not fold to
  a literal fatal.  The assertion at line 805 assigns the type instead of comparing it.
\<close>

theorem cast_width_unchecked:
  assumes pc: "parse_conv rec x0 s = Some (Inr (c, s1))" and w: "replaceArg (s_args s1) x1 = Some (Inr y)"
    and ok: "active_ok s1"
  shows "\<exists>n s'. lower_cast rec rt [x0, x1] s = Some (Inr (ArgSSAId (Suc (expr_gen (s_rep s1))) n, s'))"
proof -
  from add_expression_ok [OF ok, of "node eCast rt (cast_width y) [c]"] obtain s' where
    "add_expression (node eCast rt (cast_width y) [c]) s1 = Inr (Suc (expr_gen (s_rep s1)), s')" by blast
  then show ?thesis using pc w by (simp add: lower_cast_def emit_def)
qed

theorem cast_width_unchecked_witness:
  "\<exists>n s'. lower_cast ex_leaf eUInt [ArgReg 1 0 64, ArgReg 2 0 32] ex_session = Some (Inr (ArgSSAId 2 n, s'))"
proof -
  have pc: "parse_conv ex_leaf (ArgReg 1 0 64) ex_session = Some (Inr (mk_arg (AReg 1 0) 64, ex_session))"
    by (simp add: parse_conv_def parse1_def ex_leaf_def parseIRArg2SSAArg_def)
  have w: "replaceArg (s_args ex_session) (ArgReg 2 0 32) = Some (Inr (ArgReg 2 0 32))"
    by (simp add: replaceArg.simps)
  from cast_width_unchecked [OF pc w ex_session_ok, where rt = eUInt]
  show ?thesis by (simp add: ex_session_def empty_session_def numeral_2_eq_2)
qed

text \<open>
  C37: an assignment to a register always appends a new located copy of the value and
  leaves the node that computed the value as it was, for every source node: the
  retargeting of section 4.3 of the specification (move an unlocated source node onto
  the register) is guarded by a test that a lowered value never passes (line 506).
\<close>

theorem assign_always_copies:
  assumes ok: "active_ok s" and reg: "getRegister a i = Some b" and ch: "reg_chain a b ps"
    and cl: "\<not> (reg_clear_parent b \<and> reg_offset b \<noteq> 0)"
  shows "\<exists>s'. assign_to a (ArgReg i k w) (ArgSSAId j n) s = Some (Inr (ArgSSAId (Suc (expr_gen (s_rep s))) w, s')) \<and>
           take (length (exprs (s_rep s))) (exprs (s_rep s')) = exprs (s_rep s) \<and>
           strip (exprs (s_rep s') ! length (exprs (s_rep s))) = at_loc LocReg (i, k) (node eAssign eUInt w [createId j n])"
proof -
  let ?x = "at_loc LocReg (i, k) (node eAssign eUInt w [createId j n])"
  let ?i = "Suc (expr_gen (s_rep s))"
  from add_expression_ok [OF ok, of ?x] obtain s1 where
    add: "add_expression ?x s = Inr (?i, s1)"
    and e1: "exprs (s_rep s1) = exprs (s_rep s) @ [(tag s ?x)\<lparr>e_id := ?i\<rparr>]" and ok1: "active_ok s1"
    by blast
  from upd_loop_chain [OF ch cl ok1, of ?i] obtain s' where
    run: "upd_loop a b ?i b s1 = Some (Inr s')"
    and tk: "take (length (exprs (s_rep s1))) (exprs (s_rep s')) = exprs (s_rep s1)"
    by blast
  have low: "assign_to a (ArgReg i k w) (ArgSSAId j n) s = Some (Inr (ArgSSAId ?i w, s'))"
    using add run reg by (simp add: assign_to_def parseIRArg2SSAArg_def addUpdateRegExpressions_def Let_def)
  let ?n = "length (exprs (s_rep s))"
  have pre: "take (Suc ?n) (exprs (s_rep s')) = exprs (s_rep s) @ [(tag s ?x)\<lparr>e_id := ?i\<rparr>]"
    using tk e1 by simp
  then have "take ?n (exprs (s_rep s')) = exprs (s_rep s)"
    by (metis butlast_snoc butlast_take diff_Suc_1 length_append_singleton length_take min.absorb_iff2 le_add2 take_all_iff le_refl)
  moreover have "exprs (s_rep s') ! ?n = (tag s ?x)\<lparr>e_id := ?i\<rparr>"
    using pre by (metis lessI nth_append_length nth_take)
  ultimately show ?thesis using low by simp
qed


theorem assign_always_copies_witness:
  "\<exists>s'. assign_to ex_parch (ArgReg 3 0 8) (ArgSSAId 1 8) ex_session = Some (Inr (ArgSSAId 2 8, s')) \<and>
     take 1 (exprs (s_rep s')) = exprs (s_rep ex_session) \<and>
     strip (exprs (s_rep s') ! 1) = at_loc LocReg (3, 0) (node eAssign eUInt 8 [createId 1 8])"
proof -
  have r: "getRegister ex_parch 3 = Some (ex_reg 3 8 2 8 False)" by (simp add: ex_parch_def ex_reg_def getRegister_def)
  have c: "\<not> (reg_clear_parent (ex_reg 3 8 2 8 False) \<and> reg_offset (ex_reg 3 8 2 8 False) \<noteq> 0)"
    by (simp add: ex_reg_def)
  from assign_always_copies [OF ex_session_ok r ex_chain3 c, where k = 0 and w = 8 and j = 1 and n = 8]
  show ?thesis by (simp add: ex_session_def empty_session_def numeral_2_eq_2)
qed

end
