(* ===== verification/Spec2Isabelle.thy ===== *)
theory Spec2Isabelle
  imports Template Resolver Simplifier Session Lower
begin

text \<open>
  \<^bold>\<open>A verification library for the decompiler middle-end of holodec.\<close>
  The sources (src/main) lower machine instructions, described by a template language,
  into SSA form (\<open>SSAGen.cpp\<close>), resolve branch targets to blocks
  (\<open>SSAAddressToBlockTransformer.cpp\<close>) and simplify assignments to a fixpoint
  (\<open>SSAAssignmentSimplifier.cpp\<close>).  Per function the engine is set up once, each
  instruction is matched against its templates and lowered, then the resolver runs once and
  the simplifier to fixpoint.  The library models these parts as executable HOL functions
  over an explicit state and proves what they do.

  \<^bold>\<open>Theories.\<close>
  \<^item> \<open>Prelude\<close>: 64-bit addresses (\<open>64 word\<close>), identifiers, the error type \<open>fatal\<close>
    (every \<open>assert\<close>, null dereference and undefined out-of-range read of the C++ code
    is a value \<open>Inl e\<close> of \<open>'a result\<close>), \<open>bind_r\<close> and \<open>lthen\<close> for sequencing,
    and the list lemmas the components share.
  \<^item> \<open>IR\<close>: the template AST (\<open>irarg\<close>/\<open>irexpr\<close>, one constructor per
    \<open>IR_ARGTYPE_*\<close> tag), the architecture catalog, and the SSA records
    (\<open>ssaexpr\<close>, \<open>ssabb\<close>, \<open>ssarep\<close>).  These types are declared in headers outside
    the sources and follow the specification.
  \<^item> \<open>Template\<close>: the Constant Guard Evaluator \<open>parseConstExpression\<close>
    (SSAGen.cpp 72--229), the Template Matcher \<open>matchIr\<close> (16--40), and operand
    binding \<open>replaceArg\<close> (363--369, a \<open>partial_function (option)\<close> because the C++ loop
    may run forever).
  \<^item> \<open>Store\<close> and \<open>Blocks\<close>: the ID-addressed block and node stores, \<open>getBlock\<close>,
    \<open>createNewBlock\<close>, edge insertion \<open>link\<close>, and \<open>splitBasicBlock\<close> (296--327); the
    abstract CFG \<open>out_edges\<close>/\<open>in_edges\<close>, edge symmetry \<open>edges_sym\<close>, and the address
    partition \<open>part_ok\<close>.
  \<^item> \<open>Resolver\<close>: \<open>parseExpression\<close>/\<open>parseBlock\<close> of the Address-to-Block Resolver
    (SSAAddressToBlockTransformer.cpp 10--78); the block walk that drives them is not in
    the sources and follows the specification (\<open>resolve\<close>).
  \<^item> \<open>Simplifier\<close>: one pass \<open>simp_pass\<close> of \<open>doTransformation\<close> (the rule per node
    kind \<open>expr_repl\<close>, the return-operand chase \<open>chase\<close> as a \<open>partial_function
    (option)\<close>, in-place rewriting of return operands in \<open>scan\<close>), \<open>replaceNodes\<close> and
    \<open>compress\<close> from the specification, and the fixpoint loop \<open>simplify\<close> as a
    \<open>partial_function (option)\<close>.  The macro \<open>EXPR_IS_TRANSIENT\<close> is outside the sources
    and is the parameter \<open>t\<close>.
  \<^item> \<open>Session\<close>: the lowering state of \<open>SSAGen\<close> as a record (store, active block
    id, binding list, scratch table, end-of-block flags, current instruction, last operator,
    called addresses), \<open>addExpression\<close>, \<open>parseIRArg2SSAArg\<close>, \<open>parseMemArgToExpr\<close>,
    \<open>insertLabel\<close>, \<open>setup\<close> (\<open>gen_setup\<close>), and the Register-Update Propagator
    \<open>addUpdateRegExpressions\<close> (370--392; its walk \<open>upd_loop\<close> is a
    \<open>partial_function (option)\<close>, and \<open>reg_chain\<close> is the specification's aliasing
    invariant).
  \<^item> \<open>LowerOps\<close>, \<open>LowerCases\<close>, \<open>Lower\<close>: every case of \<open>SSAGen::parseExpression\<close>
    (418--1066) as one function per case, parameterised by the recursive lowering, the
    dispatch \<open>lower_expr\<close>/\<open>parse_one\<close>, the recursion \<open>lowerF\<close>, and
    \<open>parseInstruction\<close> (394--417).  The assignment case follows the code, in which the
    retargeting branch of lines 506--545 is unreachable.

  \<^bold>\<open>Results.\<close>
  Every result is a statement over all inputs of the operation it is about; the fixtures
  only serve the witnesses.
  Template: an AND guard never holds (C1, a defect) so no candidate guarded by AND is ever
  selected (C3); OR and unsigned comparison guards (C4, C5); placeholders resolve from 1
  in the body (C6) but from 0 in guards, so the two read different operands (C7);
  \<open>replaceArg\<close> can diverge (C8).  Guards read the instruction pointer through the
  member \<open>instruction\<close>, which \<open>parseInstruction\<close> sets only after matching: a null
  dereference on a function's first instruction, the previous instruction afterwards
  (C2, in \<open>Lower\<close>).
  Blocks: the shape of a split, node preservation, the address partition and the
  unvisited address (C9--C12); a split keeps the CFG edge-symmetric exactly when the
  split block had no successors (C13).
  Resolver: edge symmetry is preserved by the pass (C14); literal, unresolved and computed
  branch targets (C15--C17); a second run over a resolved jump appends register reads, so
  the pass is not idempotent (C19); every block not ending in a return, a jump included,
  gets a fallthrough edge (C20).  This theory adds C18: the conditional jump that the
  lowering of \<open>if\<close> and \<open>rep\<close> emits (\<open>cjmp_node\<close>) already targets a block and
  still gets register reads appended as if its target were computed.
  Simplifier: the fixpoint loop terminates exactly when every pass on its run does
  (\<open>sreach\<close> is the run) and needs at most one pass more than the store has live nodes,
  divergence included (C21, C22); the result is a fixpoint (C23); phi collapse, the
  address fold's soundness in 64-bit arithmetic and its exact trigger, assign aliasing,
  the return rule on any operand list, and divergence on a transient cycle (C24--C29).
  Propagator: exactly one update node per ancestor, in order (C30); every emitted node
  reads only the originally written value (C31); offsets without wrap-around (C32); the
  clear-parent assertion (C33).
  Lowering, for every session and every straight-line (\<open>straight\<close>) or literal
  sub-lowering: \<open>if\<close> without else records only the edge to the end block (C34);
  \<open>call\<close> records its literal target and emits one output node per top-level register
  (C35); a cast never fails on its width operand (C36); an assignment to a register
  always appends a new located copy, because the retargeting branch is dead (C37).

  \<^bold>\<open>Fuel and partiality.\<close>
  Loops that may not end are \<open>partial_function (option)\<close> with \<open>None\<close> as
  non-termination (\<open>replaceArg\<close>, \<open>chase\<close>, \<open>simplify\<close>, \<open>upd_loop\<close>); their
  termination is proved as the existence of a result (C21, C30, C31, C37), and their
  divergence as the value \<open>None\<close> (C8, C29).  The lowering recursion goes through nested
  templates and through \<open>IR_EXPR_REC\<close> instantiation of arbitrary definitions, so
  \<open>lowerF\<close> takes fuel: each list cell lowered spends one unit and \<open>None\<close> is
  exhaustion.  The lowering results are stated for the case functions, which take the
  recursive lowering as a parameter, so they hold whatever the fuel.  \<open>replaceNodes\<close>
  follows chains of replaced nodes for as many steps as the map has entries, which
  reaches the end of every acyclic chain.

  \<^bold>\<open>Not modelled.\<close>
  The template-language parser \<open>IRParser\<close> and \<open>IRGenerator::parseFunction\<close> are only
  declared in \<open>IRGen.h\<close> (their implementation is not in the sources);
  \<open>HSSAAddressToBlockTransformer.h\<close> only declares the resolver's two methods; printing
  and diagnostics (\<open>printf\<close>, \<open>print\<close>) are informational.  Helpers declared in headers
  outside the sources (\<open>SSAArgument::create*\<close>, \<open>isValue\<close>, \<open>HIdList\<close>,
  \<open>replaceNodes\<close>, \<open>compress\<close>) follow the specification; the width conversion of a
  cast reads a literal's value and leaves any other payload unspecified (0).  Division by a zero word size and the wrap-around of a C++ unsigned
  subtraction of register sizes are HOL's total operations.
\<close>

text \<open>
  C18 (lowering and resolver): the conditional jump that lowering emits for \<open>if\<close> and
  \<open>rep\<close> (\<open>cjmp_node\<close>) already targets a block reference, so the resolver takes
  that target for a computed one and appends a read of every top-level register to
  it, for every condition and target block, although section 4.7 of the specification
  adds register reads only for computed (indirect) targets.  The CFG is unchanged.
\<close>

theorem lowered_if_branch_gets_register_reads:
  assumes e: "get_expr r i = Some ((cjmp_node a c t)\<lparr>e_id := i, e_instr_addr := v\<rparr>)"
  shows "\<exists>r'. atb_parseExpression a blk i r = Inr r' \<and>
           get_expr r' i = Some ((cjmp_node a c t)\<lparr>e_id := i, e_instr_addr := v,
              e_args := [c, createBlock t] @ map createRegArg (top_regs a)\<rparr>) \<and> bbs r' = bbs r"
proof -
  let ?e = "(cjmp_node a c t)\<lparr>e_id := i, e_instr_addr := v\<rparr>"
  let ?r' = "update_expr i (\<lambda>x. x\<lparr>e_args := e_args x @ map createRegArg (top_regs a)\<rparr>) r"
  have t: "e_type ?e = eCJmp" by (simp add: cjmp_node_def node_def blank_expr_def)
  have "atb_parseExpression a blk i r = resolve_branch_arg a blk i 1 ?e r"
    by (rule atb_parseExpression_cjmp [OF e t])
  also have "\<dots> = Inr ?r'"
    by (rule resolve_branch_arg_indirect) (simp_all add: cjmp_node_def node_def createBlock_def mk_arg_def)
  finally have run: "atb_parseExpression a blk i r = Inr ?r'" .
  have "get_expr ?r' i = Some ((cjmp_node a c t)\<lparr>e_id := i, e_instr_addr := v,
              e_args := [c, createBlock t] @ map createRegArg (top_regs a)\<rparr>)"
    using e by (simp add: get_expr_update_expr cjmp_node_def node_def)
  with run show ?thesis by simp
qed

theorem lowered_if_branch_gets_register_reads_witness:
  "\<exists>r'. atb_parseExpression ex_arch 1 2
          (ex_jmp_store\<lparr>exprs := [ex_label 1 0x10, (cjmp_node ex_arch (mk_arg (AReg 1 0) 64) 3)\<lparr>e_id := 2, e_instr_addr := 0x10\<rparr>]\<rparr>) = Inr r' \<and>
     get_expr r' 2 = Some ((cjmp_node ex_arch (mk_arg (AReg 1 0) 64) 3)\<lparr>e_id := 2, e_instr_addr := 0x10,
        e_args := [mk_arg (AReg 1 0) 64, createBlock 3, createRegArg (hd (top_regs ex_arch))]\<rparr>) \<and>
     bbs r' = bbs ex_jmp_store"
proof -
  have e: "get_expr (ex_jmp_store\<lparr>exprs := [ex_label 1 0x10, (cjmp_node ex_arch (mk_arg (AReg 1 0) 64) 3)\<lparr>e_id := 2, e_instr_addr := 0x10\<rparr>]\<rparr>) 2
      = Some ((cjmp_node ex_arch (mk_arg (AReg 1 0) 64) 3)\<lparr>e_id := 2, e_instr_addr := 0x10\<rparr>)"
    by (simp add: get_expr_def ex_label_def ir_defs)
  from lowered_if_branch_gets_register_reads [OF e, where blk = 1]
  show ?thesis by (simp add: ex_arch_def ir_defs)
qed

end
